(* ===== verification/Prelude.thy ===== *)
theory Prelude
  imports Main "HOL-Library.AList" "HOL-Library.Multiset" "HOL-Library.Sublist"
begin

text \<open>
  Shared vocabulary of the development: the parts of Go and of its standard library that the
  controller uses (strings, strconv, time, maps), the result type of fallible code, and the
  generic lemmas the component theories use.

  A Go string is a list of bytes, here \<open>string\<close>. A Go map is an association list with distinct
  keys: the position of an entry is the (arbitrary) place at which a \<open>range\<close> loop visits it, so a
  theorem about every such list covers every iteration order. \<open>time.Time\<close> is the number of
  nanoseconds since the zero time (year 1), \<open>time.Duration\<close> a number of nanoseconds, both as
  \<open>int\<close>; the saturation of \<open>time.Time.Sub\<close> is written out. A fallible function returns
  \<open>'e + 'a\<close>, \<open>Inl\<close> the error.
\<close>

named_theorems go_simps \<open>equations of the Go library functions the components rely on\<close>

section \<open>Strings\<close>

definition HasPrefix :: "string \<Rightarrow> string \<Rightarrow> bool" where
  "HasPrefix s p \<longleftrightarrow> take (length p) s = p"

definition HasSuffix :: "string \<Rightarrow> string \<Rightarrow> bool" where
  "HasSuffix s p \<longleftrightarrow> length p \<le> length s \<and> drop (length s - length p) s = p"

definition TrimPrefix :: "string \<Rightarrow> string \<Rightarrow> string" where
  "TrimPrefix s p = (if HasPrefix s p then drop (length p) s else s)"

fun Contains :: "string \<Rightarrow> string \<Rightarrow> bool" where
  "Contains [] p \<longleftrightarrow> p = []"
| "Contains (c # s) p \<longleftrightarrow> HasPrefix (c # s) p \<or> Contains s p"

text \<open>\<open>strings.LastIndex\<close>: the start of the last occurrence, \<open>None\<close> for Go's -1.\<close>

fun last_index :: "string \<Rightarrow> string \<Rightarrow> nat option" where
  "last_index [] p = (if p = [] then Some 0 else None)"
| "last_index (c # s) p =
     (case last_index s p of
        Some i \<Rightarrow> Some (Suc i)
      | None \<Rightarrow> if HasPrefix (c # s) p then Some 0 else None)"

definition LastIndex :: "string \<Rightarrow> string \<Rightarrow> int" where
  "LastIndex s p = (case last_index s p of None \<Rightarrow> -1 | Some i \<Rightarrow> int i)"

text \<open>\<open>strings.Split\<close> with a one-byte separator: never empty.\<close>

fun split_on :: "char \<Rightarrow> string \<Rightarrow> string list" where
  "split_on sep [] = [[]]"
| "split_on sep (c # s) =
     (if c = sep then [] # split_on sep s
      else (case split_on sep s of [] \<Rightarrow> [[c]] | w # ws \<Rightarrow> (c # w) # ws))"

fun join_with :: "string \<Rightarrow> string list \<Rightarrow> string" where
  "join_with sep [] = []"
| "join_with sep [w] = w"
| "join_with sep (w # v # ws) = w @ sep @ join_with sep (v # ws)"

section \<open>Numbers in strings\<close>

fun digit_char :: "nat \<Rightarrow> char" where
  "digit_char n = char_of (48 + n)"

fun nat_to_string :: "nat \<Rightarrow> string" where
  "nat_to_string n = (if n < 10 then [digit_char n]
                      else nat_to_string (n div 10) @ [digit_char (n mod 10)])"

definition Itoa :: "int \<Rightarrow> string" where
  "Itoa i = (if i < 0 then CHR ''-'' # nat_to_string (nat (- i)) else nat_to_string (nat i))"

definition is_digit :: "char \<Rightarrow> bool" where
  "is_digit c \<longleftrightarrow> 48 \<le> (of_char c :: nat) \<and> (of_char c :: nat) \<le> 57"

fun digits_value :: "nat \<Rightarrow> string \<Rightarrow> nat option" where
  "digits_value acc [] = Some acc"
| "digits_value acc (c # s) =
     (if is_digit c then digits_value (acc * 10 + (of_char c - 48)) s else None)"

definition ParseUint10 :: "string \<Rightarrow> nat option" where
  "ParseUint10 s = (if s = [] then None else digits_value 0 s)"

text \<open>
  \<open>strconv.ParseInt(s, 10, bits)\<close>: an optional sign, then decimal digits, within the signed
  range of the width; \<open>None\<close> is either of its errors (syntax, range). \<open>strconv.Atoi\<close> is the
  64-bit case.
\<close>

definition ParseInt :: "nat \<Rightarrow> string \<Rightarrow> int option" where
  "ParseInt bits s =
     (case s of
        [] \<Rightarrow> None
      | c # ds \<Rightarrow>
          (let neg = (c = CHR ''-'');
               body = (if c = CHR ''-'' \<or> c = CHR ''+'' then ds else s)
           in case ParseUint10 body of
                None \<Rightarrow> None
              | Some n \<Rightarrow>
                  (let v = (if neg then - int n else int n)
                   in if - (2 ^ (bits - 1)) \<le> v \<and> v < 2 ^ (bits - 1) then Some v else None)))"

definition Atoi :: "string \<Rightarrow> int option" where
  "Atoi s = ParseInt 64 s"

section \<open>Time\<close>

type_synonym gotime = int
type_synonym duration = int

definition zero_time :: gotime where
  "zero_time = 0"

definition Second :: duration where
  "Second = 1000000000"

definition maxDuration :: duration where
  "maxDuration = 2 ^ 63 - 1"

definition minDuration :: duration where
  "minDuration = - (2 ^ 63)"

text \<open>\<open>t.Sub(u)\<close> saturates at the bounds of a 64-bit duration.\<close>

definition time_Sub :: "gotime \<Rightarrow> gotime \<Rightarrow> duration" where
  "time_Sub t u = max minDuration (min maxDuration (t - u))"

section \<open>Maps\<close>

type_synonym ('k, 'v) gomap = "('k \<times> 'v) list"

abbreviation gomap_wf :: "('k, 'v) gomap \<Rightarrow> bool" where
  "gomap_wf m \<equiv> distinct (map fst m)"

abbreviation gomap_get :: "('k, 'v) gomap \<Rightarrow> 'k \<Rightarrow> 'v option" where
  "gomap_get m k \<equiv> map_of m k"

abbreviation gomap_set :: "'k \<Rightarrow> 'v \<Rightarrow> ('k, 'v) gomap \<Rightarrow> ('k, 'v) gomap" where
  "gomap_set \<equiv> AList.update"

abbreviation gomap_delete :: "'k \<Rightarrow> ('k, 'v) gomap \<Rightarrow> ('k, 'v) gomap" where
  "gomap_delete \<equiv> AList.delete"

abbreviation gomap_keys :: "('k, 'v) gomap \<Rightarrow> 'k set" where
  "gomap_keys m \<equiv> fst ` set m"

lemma gomap_get_set [simp]: "gomap_get (gomap_set k v m) k' = (if k' = k then Some v else gomap_get m k')"
  by (simp add: update_conv')

lemma gomap_get_delete [simp]: "gomap_get (gomap_delete k m) k' = (if k' = k then None else gomap_get m k')"
  by (simp add: delete_conv')

lemma gomap_wf_set [simp]: "gomap_wf (gomap_set k v m) \<longleftrightarrow> gomap_wf m"
  by (induction m) (auto simp: dom_update)

lemma gomap_wf_delete [simp]: "gomap_wf m \<Longrightarrow> gomap_wf (gomap_delete k m)"
  by (simp add: distinct_delete)

lemma gomap_get_keys: "k \<in> gomap_keys m \<longleftrightarrow> (\<exists>v. gomap_get m k = Some v)"
  by (metis domD domI dom_map_of_conv_image_fst)

lemma gomap_get_mem: "gomap_wf m \<Longrightarrow> (k, v) \<in> set m \<longleftrightarrow> gomap_get m k = Some v"
  by simp

section \<open>Lemmas on strings\<close>

lemma HasPrefix_iff [go_simps]: "HasPrefix s p \<longleftrightarrow> (\<exists>t. s = p @ t)"
  unfolding HasPrefix_def by (metis append_eq_conv_conj append_take_drop_id)

lemma HasSuffix_iff [go_simps]: "HasSuffix s p \<longleftrightarrow> (\<exists>t. s = t @ p)"
proof
  assume "HasSuffix s p"
  then show "\<exists>t. s = t @ p"
    unfolding HasSuffix_def by (metis append_take_drop_id)
qed (auto simp: HasSuffix_def)

lemma HasPrefix_append [simp]: "HasPrefix (p @ s) p"
  by (simp add: HasPrefix_def)

lemma TrimPrefix_append [simp]: "TrimPrefix (p @ s) p = s"
  by (simp add: TrimPrefix_def)

lemma split_on_nonempty [simp]: "split_on sep s \<noteq> []"
  by (induction s) (auto split: list.splits)

lemma split_on_no_sep: "sep \<notin> set s \<Longrightarrow> split_on sep s = [s]"
  by (induction s) auto

lemma split_on_append: "sep \<notin> set a \<Longrightarrow> split_on sep (a @ sep # b) = a # split_on sep b"
  by (induction a) auto

lemma split_on_parts: "w \<in> set (split_on sep s) \<Longrightarrow> sep \<notin> set w"
proof (induction s arbitrary: w)
  case Nil
  then show ?case by simp
next
  case (Cons c s)
  obtain v vs where v: "split_on sep s = v # vs"
    by (metis list.exhaust split_on_nonempty)
  with Cons show ?case by (auto split: if_splits)
qed

lemma join_split_on: "join_with [sep] (split_on sep s) = s"
proof (induction s)
  case Nil
  then show ?case by simp
next
  case (Cons c s)
  obtain v vs where v: "split_on sep s = v # vs"
    by (metis list.exhaust split_on_nonempty)
  with Cons show ?case by (cases vs) auto
qed

lemma last_index_None: "p \<noteq> [] \<Longrightarrow> last_index s p = None \<longleftrightarrow> \<not> Contains s p"
  by (induction s) (auto split: option.splits)

lemma Contains_iff [go_simps]: "Contains s p \<longleftrightarrow> (\<exists>a b. s = a @ p @ b)"
proof (induction s)
  case (Cons c s)
  have "(\<exists>a b. c # s = a @ p @ b) \<longleftrightarrow> (\<exists>b. c # s = p @ b) \<or> (\<exists>a b. s = a @ p @ b)"
    by (metis append_Cons append_eq_Cons_conv self_append_conv2)
  with Cons show ?case by (simp add: HasPrefix_iff)
qed auto

text \<open>The last occurrence of \<open>p\<close> in \<open>a @ p @ b\<close> starts at \<open>length a\<close> when no later one does.\<close>

lemma last_index_append:
  "last_index s p = Some i \<Longrightarrow> last_index (a @ s) p = Some (length a + i)"
  by (induction a) auto

section \<open>Lemmas on numbers\<close>

declare nat_to_string.simps [simp del] digit_char.simps [simp del]

text \<open>The same digits computed on \<open>int\<close>, which evaluates in binary.\<close>

function int_digits :: "int \<Rightarrow> string" where
  "int_digits i = (if i < 10 then [digit_char (nat i)] else int_digits (i div 10) @ [digit_char (nat (i mod 10))])"
  by auto
termination by (relation "measure nat") auto

declare int_digits.simps [simp del]

lemma int_digits_eq: "int_digits (int n) = nat_to_string n"
proof (induction n rule: nat_to_string.induct)
  case (1 n)
  show ?case
  proof (cases "n < 10")
    case True
    then show ?thesis by (subst nat_to_string.simps, subst int_digits.simps) simp
  next
    case False
    have "int n div 10 = int (n div 10)" "nat (int n mod 10) = n mod 10" by (simp_all add: zdiv_int nat_mod_distrib)
    then show ?thesis using 1 False by (subst nat_to_string.simps, subst int_digits.simps) simp
  qed
qed

lemma Itoa_code [code]: "Itoa i = (if i < 0 then CHR ''-'' # int_digits (- i) else int_digits i)"
  using int_digits_eq[of "nat i"] int_digits_eq[of "nat (- i)"] by (cases "i < 0") (simp_all add: Itoa_def)

lemma of_char_digit_char: "n < 10 \<Longrightarrow> (of_char (digit_char n) :: nat) = 48 + n"
  by (simp add: digit_char.simps)

lemma is_digit_digit_char [simp]: "n < 10 \<Longrightarrow> is_digit (digit_char n)"
  by (simp add: is_digit_def of_char_digit_char)

lemma digits_value_append:
  "digits_value acc (s @ t) = (case digits_value acc s of None \<Rightarrow> None | Some a \<Rightarrow> digits_value a t)"
  by (induction s arbitrary: acc) auto

lemma digits_value_nat_to_string: "digits_value 0 (nat_to_string n) = Some n"
proof (induction n rule: nat_to_string.induct)
  case (1 n)
  show ?case
  proof (cases "n < 10")
    case True
    then show ?thesis by (subst nat_to_string.simps) (simp add: of_char_digit_char)
  next
    case False
    with 1 have "digits_value 0 (nat_to_string (n div 10)) = Some (n div 10)" by simp
    then show ?thesis
      using False by (subst nat_to_string.simps) (simp add: digits_value_append of_char_digit_char)
  qed
qed

lemma nat_to_string_nonempty [simp]: "nat_to_string n \<noteq> []"
  by (subst nat_to_string.simps) simp

lemma nat_to_string_digits: "c \<in> set (nat_to_string n) \<Longrightarrow> is_digit c"
proof (induction n rule: nat_to_string.induct)
  case (1 n)
  then show ?case
    by (subst (asm) (2) nat_to_string.simps) (auto split: if_splits)
qed

lemma nat_to_string_inj: "nat_to_string m = nat_to_string n \<Longrightarrow> m = n"
  by (metis digits_value_nat_to_string option.inject)

section \<open>Lemmas on time\<close>

lemma time_Sub_exact:
  "minDuration \<le> t - u \<Longrightarrow> t - u \<le> maxDuration \<Longrightarrow> time_Sub t u = t - u"
  by (simp add: time_Sub_def)

lemma time_Sub_mono: "t \<le> t' \<Longrightarrow> time_Sub t u \<le> time_Sub t' u"
  unfolding time_Sub_def by linarith

lemma time_Sub_range: "minDuration \<le> time_Sub t u \<and> time_Sub t u \<le> maxDuration"
  by (auto simp: time_Sub_def minDuration_def maxDuration_def)

section \<open>Loops that may stop or panic\<close>

text \<open>
  A loop that threads a state through a body and returns from the function when the body says so:
  \<open>None\<close> is a panic of the body, \<open>True\<close> an early return.
\<close>

fun visit_loop :: "('s \<Rightarrow> 'a \<Rightarrow> ('s \<times> bool) option) \<Rightarrow> 's \<Rightarrow> 'a list \<Rightarrow> ('s \<times> bool) option" where
  "visit_loop f s [] = Some (s, False)"
| "visit_loop f s (x # xs) =
     (case f s x of
        None \<Rightarrow> None
      | Some (s', True) \<Rightarrow> Some (s', True)
      | Some (s', False) \<Rightarrow> visit_loop f s' xs)"

lemma visit_loop_not_found:
  "visit_loop f s xs = Some (t, False) \<Longrightarrow> x \<in> set xs \<Longrightarrow> \<exists>u v. f u x = Some (v, False)"
  by (induction f s xs rule: visit_loop.induct) (auto split: option.splits bool.splits prod.splits)

lemma visit_loop_found:
  "visit_loop f s xs = Some (t, True) \<Longrightarrow> \<exists>x \<in> set xs. \<exists>u. f u x = Some (t, True)"
  by (induction f s xs rule: visit_loop.induct) (auto split: option.splits bool.splits prod.splits)

end
