(* ===== verification/Api_Types.thy ===== *)
theory Api_Types
  imports Prelude
begin

text \<open>
  The Predictor resource (apis/serving/v1alpha1/predictor_types.go) and the parts of the
  Kubernetes object metadata the controllers read. Every Go struct is a record with the fields
  of the source; an embedded struct is a record extension, a pointer field an option. The string
  enums are datatypes whose first constructor is Go's zero value, the empty string.
\<close>

section \<open>Kubernetes metadata\<close>

record NamespacedName =
  nn_Namespace :: string
  nn_Name :: string

record ObjectMeta =
  om_Name :: string
  om_Namespace :: string
  om_ResourceVersion :: string
  om_DeletionTimestamp :: "gotime option"
  om_Annotations :: "(string, string) gomap"
  om_Labels :: "(string, string) gomap"

text \<open>
  Errors of the Kubernetes API client, as far as the controllers tell them apart
  (\<open>errors.IsNotFound\<close>, \<open>errors.IsConflict\<close>).
\<close>

datatype api_error = NotFound | Conflict | OtherError string

section \<open>Predictor spec\<close>

record RuntimeRef =
  rr_Name :: string

text \<open>\<open>PredictorRuntime\<close> embeds a pointer to a \<open>RuntimeRef\<close>.\<close>

record PredictorRuntime =
  pr_RuntimeRef :: "RuntimeRef option"

record StorageSpec =
  ss_Path :: "string option"
  ss_SchemaPath :: "string option"
  ss_Parameters :: "(string, string) gomap option"
  ss_StorageKey :: "string option"

record S3StorageSource =
  s3_SecretKey :: string
  s3_Bucket :: "string option"

record PersistentVolumeClaimVolumeSource =
  pvcs_ClaimName :: string
  pvcs_ReadOnly :: bool

record Storage = StorageSpec +
  st_PersistentVolumeClaim :: "PersistentVolumeClaimVolumeSource option"
  st_S3 :: "S3StorageSource option"

record ModelType =
  mt_Name :: string
  mt_Version :: "string option"

record Model =
  m_Type :: ModelType
  m_Path :: string
  m_SchemaPath :: "string option"
  m_Storage :: "Storage option"

datatype GpuRequest = Required | Preferred

record PredictorSpec = Model +
  ps_ServiceAccountName :: "string option"
  ps_Gpu :: "GpuRequest option"
  ps_Runtime :: "PredictorRuntime option"
  ps_ProtocolVersion :: "string option"

section \<open>Predictor status\<close>

datatype TransitionStatus =
    NoTransitionStatus
  | UpToDate
  | InProgress
  | BlockedByFailedLoad
  | InvalidSpec

datatype ModelState =
    NoModelState
  | Pending
  | Standby
  | Loading
  | Loaded
  | FailedToLoad

datatype FailureReason =
    NoFailureReason
  | ModelLoadFailed
  | RuntimeUnhealthy
  | NoSupportingRuntime
  | RuntimeNotRecognized
  | InvalidPredictorSpec

record FailureInfo =
  fi_Location :: string
  fi_Reason :: FailureReason
  fi_Message :: string
  fi_ModelId :: string
  fi_Time :: "gotime option"

record PredictorStatus =
  pst_Available :: bool
  pst_TransitionStatus :: TransitionStatus
  pst_ActiveModelState :: ModelState
  pst_TargetModelState :: ModelState
  pst_LastFailureInfo :: "FailureInfo option"
  pst_HTTPEndpoint :: string
  pst_GrpcEndpoint :: string
  pst_TotalCopies :: int
  pst_FailedCopies :: int

record Predictor =
  p_Meta :: ObjectMeta
  p_Spec :: PredictorSpec
  p_Status :: PredictorStatus

record PredictorList =
  pl_ResourceVersion :: string
  pl_Items :: "Predictor list"

definition WaitingForRuntime :: "PredictorStatus \<Rightarrow> bool" where
  "WaitingForRuntime s =
     (case pst_LastFailureInfo s of
        None \<Rightarrow> False
      | Some fi \<Rightarrow> fi_Reason fi = RuntimeUnhealthy)"

abbreviation p_Name :: "Predictor \<Rightarrow> string" where
  "p_Name p \<equiv> om_Name (p_Meta p)"

abbreviation p_Namespace :: "Predictor \<Rightarrow> string" where
  "p_Namespace p \<equiv> om_Namespace (p_Meta p)"

abbreviation p_ResourceVersion :: "Predictor \<Rightarrow> string" where
  "p_ResourceVersion p \<equiv> om_ResourceVersion (p_Meta p)"

abbreviation p_DeletionTimestamp :: "Predictor \<Rightarrow> gotime option" where
  "p_DeletionTimestamp p \<equiv> om_DeletionTimestamp (p_Meta p)"

section \<open>Zero values\<close>

text \<open>The values of an uninitialised struct, which \<open>&api.Predictor{...}\<close> gives unnamed fields.\<close>

definition zero_Meta :: ObjectMeta where
  "zero_Meta = \<lparr>om_Name = [], om_Namespace = [], om_ResourceVersion = [],
     om_DeletionTimestamp = None, om_Annotations = [], om_Labels = []\<rparr>"

definition zero_Spec :: PredictorSpec where
  "zero_Spec = \<lparr>m_Type = \<lparr>mt_Name = [], mt_Version = None\<rparr>, m_Path = [], m_SchemaPath = None,
     m_Storage = None, ps_ServiceAccountName = None, ps_Gpu = None, ps_Runtime = None,
     ps_ProtocolVersion = None\<rparr>"

definition zero_Status :: PredictorStatus where
  "zero_Status = \<lparr>pst_Available = False, pst_TransitionStatus = NoTransitionStatus,
     pst_ActiveModelState = NoModelState, pst_TargetModelState = NoModelState,
     pst_LastFailureInfo = None, pst_HTTPEndpoint = [], pst_GrpcEndpoint = [],
     pst_TotalCopies = 0, pst_FailedCopies = 0\<rparr>"

definition zero_Predictor :: Predictor where
  "zero_Predictor = \<lparr>p_Meta = zero_Meta, p_Spec = zero_Spec, p_Status = zero_Status\<rparr>"

lemma WaitingForRuntime_iff:
  "WaitingForRuntime s \<longleftrightarrow>
     (\<exists>fi. pst_LastFailureInfo s = Some fi \<and> fi_Reason fi = RuntimeUnhealthy)"
  by (simp add: WaitingForRuntime_def split: option.splits)

end
