(* ===== verification/Go_Heap.thy ===== *)
theory Go_Heap
  imports Prelude
begin

text \<open>
  Go's \<open>container/heap\<close> on a slice: \<open>up\<close>, \<open>down\<close>, \<open>Push\<close> and \<open>Pop\<close>, over the element order
  \<open>less\<close> that the client's \<open>heap.Interface\<close> gives. The locale \<open>heap_order\<close> is the contract of
  that interface (on the elements the client stores, \<open>less\<close> compares a key of a linear order);
  its lemmas say that the operations keep the heap order and the multiset of elements, and that
  the root is minimal.
\<close>

definition list_swap :: "'a list \<Rightarrow> nat \<Rightarrow> nat \<Rightarrow> 'a list" where
  "list_swap xs i j = xs[i := xs ! j, j := xs ! i]"

function heap_up :: "('a \<Rightarrow> 'a \<Rightarrow> bool) \<Rightarrow> 'a list \<Rightarrow> nat \<Rightarrow> 'a list" where
  "heap_up lt xs j =
     (let i = (j - 1) div 2
      in if i = j \<or> \<not> lt (xs ! j) (xs ! i) then xs
         else heap_up lt (list_swap xs i j) i)"
  by pat_completeness auto
termination
  by (relation "measure (\<lambda>(lt, xs, j). j)") auto

function heap_down :: "('a \<Rightarrow> 'a \<Rightarrow> bool) \<Rightarrow> 'a list \<Rightarrow> nat \<Rightarrow> nat \<Rightarrow> 'a list" where
  "heap_down lt xs i n =
     (let j1 = 2 * i + 1
      in if n \<le> j1 then xs
         else let j = (if j1 + 1 < n \<and> lt (xs ! (j1 + 1)) (xs ! j1) then j1 + 1 else j1)
              in if \<not> lt (xs ! j) (xs ! i) then xs
                 else heap_down lt (list_swap xs i j) j n)"
  by pat_completeness auto
termination
  by (relation "measure (\<lambda>(lt, xs, i, n). n - i)") (auto simp: Let_def split: if_splits)

text \<open>
  \<open>heap.Push(h, x)\<close>: \<open>push\<close> is the client's own \<open>Push\<close> method, which may decline the element.
  \<open>heap.Pop\<close> of an empty heap panics (\<open>None\<close>).
\<close>

definition heap_Push :: "('a \<Rightarrow> 'a \<Rightarrow> bool) \<Rightarrow> ('a list \<Rightarrow> 'a \<Rightarrow> 'a list) \<Rightarrow> 'a list \<Rightarrow> 'a \<Rightarrow> 'a list" where
  "heap_Push lt push xs x = (let ys = push xs x in heap_up lt ys (length ys - 1))"

definition heap_Pop :: "('a \<Rightarrow> 'a \<Rightarrow> bool) \<Rightarrow> ('a list \<Rightarrow> 'a \<times> 'a list) \<Rightarrow> 'a list \<Rightarrow> ('a \<times> 'a list) option" where
  "heap_Pop lt pop xs =
     (if xs = [] then None
      else let n = length xs - 1
           in Some (pop (heap_down lt (list_swap xs 0 n) 0 n)))"

declare heap_up.simps [simp del] heap_down.simps [simp del]

section \<open>Swapping\<close>

lemma length_list_swap [simp]: "length (list_swap xs i j) = length xs"
  by (simp add: list_swap_def)

lemma nth_list_swap:
  "i < length xs \<Longrightarrow> j < length xs \<Longrightarrow> k < length xs \<Longrightarrow>
     list_swap xs i j ! k = (if k = i then xs ! j else if k = j then xs ! i else xs ! k)"
  by (auto simp: list_swap_def nth_list_update)

lemma mset_list_swap [simp]:
  "i < length xs \<Longrightarrow> j < length xs \<Longrightarrow> mset (list_swap xs i j) = mset xs"
  by (simp add: list_swap_def mset_swap)

lemma set_list_swap [simp]:
  "i < length xs \<Longrightarrow> j < length xs \<Longrightarrow> set (list_swap xs i j) = set xs"
  by (metis mset_list_swap mset_eq_setD)

lemma parent_less: "0 < i \<Longrightarrow> (i - 1) div 2 < (i::nat)"
  by simp

lemma parent_cases: "0 < i \<Longrightarrow> (i - 1) div 2 = k \<longleftrightarrow> i = 2 * k + 1 \<or> i = 2 * k + (2::nat)"
  by presburger

section \<open>The multiset of elements is kept\<close>

lemma heap_up_mset: "j < length xs \<Longrightarrow> mset (heap_up lt xs j) = mset xs"
proof (induction lt xs j rule: heap_up.induct)
  case (1 lt xs j)
  then show ?case
    by (subst heap_up.simps) (auto simp: Let_def)
qed

lemma heap_down_mset: "i < n \<Longrightarrow> n \<le> length xs \<Longrightarrow> mset (heap_down lt xs i n) = mset xs"
proof (induction lt xs i n rule: heap_down.induct)
  case (1 lt xs i n)
  then show ?case
    by (subst heap_down.simps) (auto simp: Let_def)
qed

lemma heap_down_length: "length (heap_down lt xs i n) = length xs"
proof (induction lt xs i n rule: heap_down.induct)
  case (1 lt xs i n)
  then show ?case
    by (subst heap_down.simps) (simp add: Let_def)
qed

text \<open>\<open>down\<close> touches only the positions below its bound.\<close>

lemma heap_down_frame:
  "i < n \<Longrightarrow> n \<le> k \<Longrightarrow> k < length xs \<Longrightarrow> heap_down lt xs i n ! k = xs ! k"
proof (induction lt xs i n rule: heap_down.induct)
  case (1 lt xs i n)
  then show ?case
    by (subst heap_down.simps) (auto simp: Let_def nth_list_swap)
qed

section \<open>The heap order\<close>

locale heap_order =
  fixes lt :: "'a \<Rightarrow> 'a \<Rightarrow> bool"
    and key :: "'a \<Rightarrow> 'k::linorder"
    and valid :: "'a \<Rightarrow> bool"
  assumes less_key: "valid a \<Longrightarrow> valid b \<Longrightarrow> lt a b \<longleftrightarrow> key a < key b"
begin

text \<open>The first \<open>n\<close> positions are heap-ordered, every element being one \<open>less\<close> can compare.\<close>

definition heap_below :: "nat \<Rightarrow> 'a list \<Rightarrow> bool" where
  "heap_below n xs \<longleftrightarrow>
     (\<forall>x \<in> set xs. valid x) \<and>
     (\<forall>i < n. 0 < i \<longrightarrow> key (xs ! ((i - 1) div 2)) \<le> key (xs ! i))"

definition is_heap :: "'a list \<Rightarrow> bool" where
  "is_heap xs \<longleftrightarrow> heap_below (length xs) xs"

text \<open>Heap-ordered but for the edge from \<open>k\<close> to its parent (\<open>up\<close>), and from \<open>k\<close> to its children (\<open>down\<close>).\<close>

definition up_inv :: "nat \<Rightarrow> 'a list \<Rightarrow> bool" where
  "up_inv k xs \<longleftrightarrow>
     (\<forall>x \<in> set xs. valid x) \<and>
     (\<forall>i < length xs. 0 < i \<longrightarrow> i \<noteq> k \<longrightarrow> key (xs ! ((i - 1) div 2)) \<le> key (xs ! i)) \<and>
     (\<forall>i < length xs. 0 < i \<longrightarrow> 0 < k \<longrightarrow> (i - 1) div 2 = k \<longrightarrow>
        key (xs ! ((k - 1) div 2)) \<le> key (xs ! i))"

definition down_inv :: "nat \<Rightarrow> nat \<Rightarrow> 'a list \<Rightarrow> bool" where
  "down_inv k n xs \<longleftrightarrow>
     (\<forall>x \<in> set xs. valid x) \<and>
     (\<forall>i < n. 0 < i \<longrightarrow> (i - 1) div 2 \<noteq> k \<longrightarrow> key (xs ! ((i - 1) div 2)) \<le> key (xs ! i)) \<and>
     (\<forall>i < n. 0 < i \<longrightarrow> 0 < k \<longrightarrow> (i - 1) div 2 = k \<longrightarrow>
        key (xs ! ((k - 1) div 2)) \<le> key (xs ! i))"

lemma is_heap_nil: "is_heap []"
  by (simp add: is_heap_def heap_below_def)

lemma is_heap_valid: "is_heap xs \<Longrightarrow> x \<in> set xs \<Longrightarrow> valid x"
  by (simp add: is_heap_def heap_below_def)

lemma less_nth:
  "\<forall>x \<in> set xs. valid x \<Longrightarrow> i < length xs \<Longrightarrow> j < length xs \<Longrightarrow>
     lt (xs ! i) (xs ! j) \<longleftrightarrow> key (xs ! i) < key (xs ! j)"
  by (simp add: less_key)

lemma up_inv_stop:
  assumes "up_inv k xs" and "k = 0 \<or> key (xs ! ((k - 1) div 2)) \<le> key (xs ! k)"
  shows "is_heap xs"
  using assms unfolding up_inv_def is_heap_def heap_below_def by auto

lemma up_inv_swap:
  assumes inv: "up_inv k xs" and k: "0 < k" "k < length xs"
    and kl: "key (xs ! k) < key (xs ! ((k - 1) div 2))"
  shows "up_inv ((k - 1) div 2) (list_swap xs ((k - 1) div 2) k)"
proof -
  let ?p = "(k - 1) div 2" let ?ys = "list_swap xs ?p k"
  have p: "?p < k" "?p < length xs" using k by auto
  have nth: "\<And>i. i < length xs \<Longrightarrow> ?ys ! i = (if i = ?p then xs ! k else if i = k then xs ! ?p else xs ! i)"
    using p k by (simp add: nth_list_swap)
  have e1: "\<And>i. i < length xs \<Longrightarrow> 0 < i \<Longrightarrow> i \<noteq> k \<Longrightarrow> key (xs ! ((i - 1) div 2)) \<le> key (xs ! i)"
    and e2: "\<And>i. i < length xs \<Longrightarrow> 0 < i \<Longrightarrow> (i - 1) div 2 = k \<Longrightarrow> key (xs ! ?p) \<le> key (xs ! i)"
    using inv k unfolding up_inv_def by auto
  have "key (?ys ! ((i - 1) div 2)) \<le> key (?ys ! i)"
    if i: "i < length xs" "0 < i" "i \<noteq> ?p" for i
  proof -
    have pi: "(i - 1) div 2 < length xs" "(i - 1) div 2 < i" using i by auto
    consider "i = k" | "i \<noteq> k" "(i - 1) div 2 = k" | "i \<noteq> k" "(i - 1) div 2 = ?p"
      | "i \<noteq> k" "(i - 1) div 2 \<noteq> k" "(i - 1) div 2 \<noteq> ?p" by blast
    then show ?thesis
    proof cases
      case 1 then show ?thesis using nth[OF i(1)] nth[OF pi(1)] kl p by auto
    next
      case 2 then show ?thesis using nth[OF i(1)] nth[OF pi(1)] e2[OF i(1,2)] i p by auto
    next
      case 3 then show ?thesis using nth[OF i(1)] nth[OF pi(1)] e1[OF i(1,2)] kl i by auto
    next
      case 4 then show ?thesis using nth[OF i(1)] nth[OF pi(1)] e1[OF i(1,2)] i by auto
    qed
  qed
  moreover have "key (?ys ! ((?p - 1) div 2)) \<le> key (?ys ! i)"
    if i: "i < length xs" "0 < i" "0 < ?p" "(i - 1) div 2 = ?p" for i
  proof -
    have "(?p - 1) div 2 < ?p" using i(3) by (rule parent_less)
    then have pp: "(?p - 1) div 2 < length xs" "(?p - 1) div 2 \<noteq> ?p" "(?p - 1) div 2 \<noteq> k"
      using p by linarith+
    have g: "key (xs ! ((?p - 1) div 2)) \<le> key (xs ! ?p)" using e1[of ?p] p i by auto
    have "i \<noteq> ?p" using i by auto
    then show ?thesis
      using nth[OF i(1)] nth[OF pp(1)] pp g e1[OF i(1,2)] i(4) by (auto intro: order_trans)
  qed
  moreover have "\<forall>x \<in> set ?ys. valid x"
    using inv p k unfolding up_inv_def by simp
  ultimately show ?thesis unfolding up_inv_def by auto
qed

lemma heap_up_is_heap: "up_inv j xs \<Longrightarrow> j < length xs \<Longrightarrow> is_heap (heap_up lt xs j)"
proof (induction j arbitrary: xs rule: less_induct)
  case (less j)
  let ?p = "(j - 1) div 2"
  have val: "\<forall>x \<in> set xs. valid x" using less.prems(1) by (simp add: up_inv_def)
  have p: "?p < length xs" using less.prems(2) by auto
  show ?case
  proof (cases "j = 0 \<or> \<not> key (xs ! j) < key (xs ! ?p)")
    case True
    then have "is_heap xs" using up_inv_stop[OF less.prems(1)] by (simp add: not_less)
    with True show ?thesis
      using less_nth[OF val less.prems(2) p] by (subst heap_up.simps) (auto simp: Let_def)
  next
    case False
    then have "is_heap (heap_up lt (list_swap xs ?p j) ?p)"
      using less.IH[of ?p] up_inv_swap[OF less.prems(1)] less.prems(2) p by auto
    with False show ?thesis
      using less_nth[OF val less.prems(2) p] by (subst heap_up.simps) (auto simp: Let_def)
  qed
qed

lemma down_inv_stop:
  assumes "down_inv k n xs" and "\<And>i. i < n \<Longrightarrow> 0 < i \<Longrightarrow> (i - 1) div 2 = k \<Longrightarrow> key (xs ! k) \<le> key (xs ! i)"
  shows "heap_below n xs"
  using assms unfolding down_inv_def heap_below_def by metis

lemma down_inv_swap:
  assumes inv: "down_inv k n xs" and n: "n \<le> length xs" and c: "c < n" "0 < c" "(c - 1) div 2 = k"
    and kl: "key (xs ! c) < key (xs ! k)"
    and minc: "\<And>i. i < n \<Longrightarrow> 0 < i \<Longrightarrow> (i - 1) div 2 = k \<Longrightarrow> key (xs ! c) \<le> key (xs ! i)"
  shows "down_inv c n (list_swap xs k c)"
proof -
  let ?ys = "list_swap xs k c"
  have k: "k < c" using parent_less[OF c(2)] c(3) by simp
  have nth: "\<And>i. i < n \<Longrightarrow> ?ys ! i = (if i = k then xs ! c else if i = c then xs ! k else xs ! i)"
    using n c k by (simp add: nth_list_swap)
  have e1: "\<And>i. i < n \<Longrightarrow> 0 < i \<Longrightarrow> (i - 1) div 2 \<noteq> k \<Longrightarrow> key (xs ! ((i - 1) div 2)) \<le> key (xs ! i)"
    and e2: "\<And>i. i < n \<Longrightarrow> 0 < i \<Longrightarrow> 0 < k \<Longrightarrow> (i - 1) div 2 = k \<Longrightarrow> key (xs ! ((k - 1) div 2)) \<le> key (xs ! i)"
    using inv unfolding down_inv_def by auto
  have "key (?ys ! ((i - 1) div 2)) \<le> key (?ys ! i)"
    if i: "i < n" "0 < i" "(i - 1) div 2 \<noteq> c" for i
  proof -
    have pi: "(i - 1) div 2 < i" using i(2) by (rule parent_less)
    then have pn: "(i - 1) div 2 < n" using i(1) by linarith
    consider "(i - 1) div 2 = k" "i = c" | "(i - 1) div 2 = k" "i \<noteq> c"
      | "(i - 1) div 2 \<noteq> k" "i = k" | "(i - 1) div 2 \<noteq> k" "i \<noteq> k" by blast
    then show ?thesis
    proof cases
      case 1 then show ?thesis using nth[OF i(1)] nth[OF pn] kl k by (simp add: less_imp_le)
    next
      case 2 then show ?thesis using nth[OF i(1)] nth[OF pn] minc[OF i(1,2)] pi by (simp add: less_imp_neq)
    next
      case 3 then show ?thesis using nth[OF i(1)] nth[OF pn] e2[OF c(1,2)] i c pi by simp
    next
      case 4 then show ?thesis using nth[OF i(1)] nth[OF pn] e1[OF i(1,2)] i c by auto
    qed
  qed
  moreover have "key (?ys ! ((c - 1) div 2)) \<le> key (?ys ! i)"
    if i: "i < n" "0 < i" "(i - 1) div 2 = c" for i
  proof -
    have "c < i" using parent_less[OF i(2)] i(3) by simp
    moreover have "key (xs ! c) \<le> key (xs ! i)" using e1[OF i(1,2)] i(3) k by simp
    moreover have "k < n" using k c(1) by linarith
    ultimately show ?thesis using nth[OF i(1)] nth[of k] c(3) k by simp
  qed
  moreover have "\<forall>x \<in> set ?ys. valid x"
    using inv n c k unfolding down_inv_def by simp
  ultimately show ?thesis unfolding down_inv_def by auto
qed

lemma heap_down_heap_below:
  "down_inv i n xs \<Longrightarrow> n \<le> length xs \<Longrightarrow> heap_below n (heap_down lt xs i n)"
proof (induction "n - i" arbitrary: i xs rule: less_induct)
  case less
  let ?l = "2 * i + 1"
  let ?c = "if ?l + 1 < n \<and> lt (xs ! (?l + 1)) (xs ! ?l) then ?l + 1 else ?l"
  have val: "\<forall>x \<in> set xs. valid x" using less.prems(1) by (simp add: down_inv_def)
  show ?case
  proof (cases "n \<le> ?l")
    case True
    then have "heap_below n xs"
      using down_inv_stop[OF less.prems(1)] by (auto simp: parent_cases)
    with True show ?thesis by (subst heap_down.simps) simp
  next
    case False
    then have c: "?c < n" "0 < ?c" "(?c - 1) div 2 = i" by auto
    have minc: "key (xs ! ?c) \<le> key (xs ! j)" if "j < n" "0 < j" "(j - 1) div 2 = i" for j
    proof -
      have j: "j = ?l \<or> j = ?l + 1" using that parent_cases[of j i] by auto
      have "?l < length xs" using False less.prems(2) by linarith
      then show ?thesis
        using j that(1) less.prems(2) less_nth[OF val, of "?l + 1" ?l] by auto
    qed
    have lts: "lt (xs ! ?c) (xs ! i) \<longleftrightarrow> key (xs ! ?c) < key (xs ! i)"
    proof (rule less_nth[OF val])
      show "?c < length xs" using c(1) less.prems(2) by linarith
      show "i < length xs" using False less.prems(2) by linarith
    qed
    show ?thesis
    proof (cases "lt (xs ! ?c) (xs ! i)")
      case True
      then have "down_inv ?c n (list_swap xs i ?c)"
        using lts down_inv_swap[OF less.prems c _ minc] by simp
      then have "heap_below n (heap_down lt (list_swap xs i ?c) ?c n)"
        using less.hyps[of ?c "list_swap xs i ?c"] c False less.prems(2) by auto
      moreover have "heap_down lt xs i n = heap_down lt (list_swap xs i ?c) ?c n"
        by (subst heap_down.simps) (simp only: Let_def True False not_True_eq_False if_False)
      ultimately show ?thesis by simp
    next
      case no: False
      then have "key (xs ! i) \<le> key (xs ! ?c)" using lts by simp
      then have "heap_below n xs"
        using down_inv_stop[OF less.prems(1)] minc by (meson order_trans)
      moreover have "heap_down lt xs i n = xs"
        by (subst heap_down.simps) (simp only: Let_def no False not_False_eq_True if_True if_False)
      ultimately show ?thesis by simp
    qed
  qed
qed

text \<open>The root of a heap is a minimal element.\<close>

lemma is_heap_root: "is_heap xs \<Longrightarrow> i < length xs \<Longrightarrow> key (xs ! 0) \<le> key (xs ! i)"
proof (induction i rule: less_induct)
  case (less i)
  show ?case
  proof (cases "i = 0")
    case False
    then have "(i - 1) div 2 < i" by (simp add: parent_less)
    moreover have "key (xs ! ((i - 1) div 2)) \<le> key (xs ! i)"
      using less.prems False by (simp add: is_heap_def heap_below_def)
    ultimately show ?thesis using less by fastforce
  qed simp
qed

lemma is_heap_min: "is_heap xs \<Longrightarrow> x \<in> set xs \<Longrightarrow> key (xs ! 0) \<le> key x"
  by (metis in_set_conv_nth is_heap_root)

text \<open>Appending a comparable element leaves only its edge to the parent out of order.\<close>

lemma up_inv_append: "is_heap xs \<Longrightarrow> valid x \<Longrightarrow> up_inv (length xs) (xs @ [x])"
proof -
  assume heap: "is_heap xs" and val: "valid x"
  have par: "(i - 1) div 2 < length xs" if "i < Suc (length xs)" "0 < i" for i
    using that parent_less[of i] by linarith
  have "key ((xs @ [x]) ! ((i - 1) div 2)) \<le> key ((xs @ [x]) ! i)"
    if "i < Suc (length xs)" "0 < i" "i \<noteq> length xs" for i
    using that heap par[OF that(1,2)] by (simp add: nth_append is_heap_def heap_below_def)
  moreover have "(i - 1) div 2 \<noteq> length xs" if "i < Suc (length xs)" "0 < i" for i
    using par[OF that] by simp
  moreover have "\<forall>y \<in> set (xs @ [x]). valid y"
    using heap val by (simp add: is_heap_def heap_below_def)
  ultimately show ?thesis unfolding up_inv_def by simp
qed

lemma heap_Push_append:
  assumes "is_heap xs" and "push xs x = xs @ [x]" and "valid x"
  shows "is_heap (heap_Push lt push xs x)" and "mset (heap_Push lt push xs x) = add_mset x (mset xs)"
  using assms heap_up_is_heap[OF up_inv_append[OF assms(1,3)]] heap_up_mset[of "length xs" "xs @ [x]"]
  by (simp_all add: heap_Push_def)

lemma down_inv_root_swap:
  assumes heap: "is_heap xs" and ne: "xs \<noteq> []"
  shows "down_inv 0 (length xs - 1) (list_swap xs 0 (length xs - 1))"
proof -
  let ?n = "length xs - 1" let ?sw = "list_swap xs 0 ?n"
  have n: "?n < length xs" using ne by simp
  have same: "?sw ! j = xs ! j" if "j < ?n" "j \<noteq> 0" for j
    using that n ne by (simp add: nth_list_swap)
  have "key (?sw ! ((i - 1) div 2)) \<le> key (?sw ! i)"
    if i: "i < ?n" "0 < i" "(i - 1) div 2 \<noteq> 0" for i
  proof -
    have "(i - 1) div 2 < i" using i(2) by (rule parent_less)
    then have "(i - 1) div 2 < ?n" using i(1) by linarith
    then have "?sw ! ((i - 1) div 2) = xs ! ((i - 1) div 2)" "?sw ! i = xs ! i"
      using i same by (metis less_not_refl)+
    then show ?thesis
      using i n heap by (simp add: is_heap_def heap_below_def)
  qed
  moreover have "\<forall>x \<in> set ?sw. valid x"
    using heap n ne by (simp add: is_heap_def heap_below_def)
  ultimately show ?thesis unfolding down_inv_def by simp
qed

text \<open>\<open>Pop\<close> of a non-empty heap returns its root and leaves a heap of the others.\<close>

lemma heap_Pop_root:
  assumes heap: "is_heap xs" and ne: "xs \<noteq> []" and pop: "\<And>ys. ys \<noteq> [] \<Longrightarrow> pop ys = (last ys, butlast ys)"
  obtains ys where "heap_Pop lt pop xs = Some (xs ! 0, ys)" and "is_heap ys"
    and "mset xs = add_mset (xs ! 0) (mset ys)"
proof -
  let ?n = "length xs - 1" let ?sw = "list_swap xs 0 ?n" let ?zs = "heap_down lt ?sw 0 ?n"
  have n: "?n < length xs" using ne by simp
  have len: "length ?zs = length xs" by (simp add: heap_down_length)
  have zne: "?zs \<noteq> []" using len ne by auto
  have root: "?zs ! ?n = xs ! 0"
  proof (cases "?n = 0")
    case True then show ?thesis by (subst heap_down.simps) (simp add: list_swap_def)
  next
    case False then show ?thesis using n ne by (simp add: heap_down_frame nth_list_swap)
  qed
  have last: "last ?zs = xs ! 0" using root zne len by (simp add: last_conv_nth)
  have "down_inv 0 ?n ?sw" using heap ne by (rule down_inv_root_swap)
  then have below: "heap_below ?n ?zs" by (rule heap_down_heap_below) simp
  have bl: "butlast ?zs = take ?n ?zs" using len by (simp add: butlast_conv_take)
  have "is_heap (butlast ?zs)"
    using below len unfolding is_heap_def heap_below_def bl
    by (auto dest: in_set_takeD)
  moreover have "mset xs = add_mset (xs ! 0) (mset (butlast ?zs))"
  proof -
    have "mset ?zs = mset xs"
    proof (cases "?n = 0")
      case True then show ?thesis by (subst heap_down.simps) (simp add: list_swap_def)
    next
      case False then show ?thesis using n ne by (simp add: heap_down_mset)
    qed
    moreover have "mset ?zs = mset (butlast ?zs @ [last ?zs])" using zne by simp
    ultimately show ?thesis using last by simp
  qed
  moreover have "heap_Pop lt pop xs = Some (xs ! 0, butlast ?zs)"
    using ne pop[OF zne] last by (simp add: heap_Pop_def Let_def)
  ultimately show ?thesis using that by blast
qed

end

end
