(* ===== verification/Cached_Source.thy ===== *)
theory Cached_Source
  imports Api_Types Go_Heap
begin

text \<open>
  The cached predictor source of pkg/predictor_source: \<open>predictorDeletionHeap\<close> (heap.go) and
  \<open>cachedPredictorSource\<close> (cached_predictor_source.go).

  The cache, the deletion queue and the callers share Predictor objects by pointer, the code
  writes through those pointers and \<open>pruneDeletions\<close> compares them, so a pointer is an address
  (\<open>pptr\<close>) into an explicit memory of Predictors. \<open>None\<close> as the result of an operation is a Go
  panic. The reads of the clock are the argument \<open>now\<close>.
\<close>

type_synonym pptr = nat
type_synonym pmem = "pptr \<Rightarrow> Predictor"

section \<open>The deletion heap (heap.go)\<close>

text \<open>\<open>metav1.Time.Before\<close> on pointers: the instants are compared when both are there.\<close>

definition Time_Before :: "gotime option \<Rightarrow> gotime option \<Rightarrow> bool" where
  "Time_Before t u = (case (t, u) of (Some a, Some b) \<Rightarrow> a < b | _ \<Rightarrow> False)"

definition pdh_Less :: "pmem \<Rightarrow> pptr \<Rightarrow> pptr \<Rightarrow> bool" where
  "pdh_Less mem a b = Time_Before (p_DeletionTimestamp (mem a)) (p_DeletionTimestamp (mem b))"

definition pdh_Push :: "pmem \<Rightarrow> pptr list \<Rightarrow> pptr \<Rightarrow> pptr list" where
  "pdh_Push mem h p = (if p_DeletionTimestamp (mem p) \<noteq> None then h @ [p] else h)"

definition pdh_Pop :: "pptr list \<Rightarrow> pptr \<times> pptr list" where
  "pdh_Pop old = (last old, butlast old)"

definition pdh_Peek :: "pptr list \<Rightarrow> pptr option" where
  "pdh_Peek h = (case h of [] \<Rightarrow> None | p # _ \<Rightarrow> Some p)"

text \<open>
  \<open>PopExpired\<close>: the popped entry, if the first one is before the cutoff, and the queue left.
  Reading the time of an entry without a deletion timestamp is a nil dereference.
\<close>

definition PopExpired :: "pmem \<Rightarrow> gotime \<Rightarrow> pptr list \<Rightarrow> (pptr option \<times> pptr list) option" where
  "PopExpired mem cutoff pdh =
     (case pdh of
        [] \<Rightarrow> Some (None, pdh)
      | p # _ \<Rightarrow>
          (case p_DeletionTimestamp (mem p) of
             None \<Rightarrow> None
           | Some t \<Rightarrow>
               if t < cutoff
               then map_option (\<lambda>(x, h). (Some x, h)) (heap_Pop (pdh_Less mem) pdh_Pop pdh)
               else Some (None, pdh)))"

section \<open>The cached source (cached_predictor_source.go)\<close>

datatype EventType = EVENT_UPDATE | EVENT_DELETE

record PredictorStreamEvent =
  pse_EventType :: EventType
  pse_Predictor :: "pptr option"

text \<open>Who holds the write lock of the source's \<open>RWMutex\<close>.\<close>

datatype lock_holder = EventLoop | StatusUpdate

record cachedPredictorSource =
  cs_sourceId :: string
  cs_sourceName :: string
  cs_started :: bool
  cs_cache :: "(NamespacedName, pptr) gomap"
  cs_lock :: "lock_holder option"
  cs_lockHeld :: bool
  cs_deletionQueue :: "pptr list"
  cs_mem :: pmem
  cs_next :: pptr

definition newCachedPredictorSource :: "string \<Rightarrow> string \<Rightarrow> pmem \<Rightarrow> pptr \<Rightarrow> cachedPredictorSource" where
  "newCachedPredictorSource sid name mem nxt =
     \<lparr>cs_sourceId = sid, cs_sourceName = name, cs_started = False, cs_cache = [], cs_lock = None,
      cs_lockHeld = False, cs_deletionQueue = [], cs_mem = mem, cs_next = nxt\<rparr>"

definition nn :: "Predictor \<Rightarrow> NamespacedName" where
  "nn p = \<lparr>nn_Namespace = p_Namespace p, nn_Name = p_Name p\<rparr>"

definition deletedPredictor :: "NamespacedName \<Rightarrow> string \<Rightarrow> Predictor" where
  "deletedPredictor name resourceVersion =
     zero_Predictor\<lparr>p_Meta := zero_Meta\<lparr>om_Namespace := nn_Namespace name, om_Name := nn_Name name,
        om_ResourceVersion := resourceVersion, om_DeletionTimestamp := Some zero_time\<rparr>\<rparr>"

definition isDeleted :: "gotime \<Rightarrow> Predictor \<Rightarrow> bool" where
  "isDeleted now p = (case p_DeletionTimestamp p of None \<Rightarrow> False | Some t \<Rightarrow> t < now)"

definition secondsAgo :: "gotime \<Rightarrow> int \<Rightarrow> gotime" where
  "secondsAgo now secs = now - secs * Second"

datatype version_error = UnexpectedResourceVersion string

definition compareResourceVersion :: "Predictor option \<Rightarrow> Predictor \<Rightarrow> version_error + bool" where
  "compareResourceVersion existing new =
     (case ParseInt 64 (p_ResourceVersion new) of
        None \<Rightarrow> Inl (UnexpectedResourceVersion (p_ResourceVersion new))
      | Some newRV \<Rightarrow>
          (case existing of
             None \<Rightarrow> Inr True
           | Some e \<Rightarrow>
               (case ParseInt 64 (p_ResourceVersion e) of
                  None \<Rightarrow> Inl (UnexpectedResourceVersion (p_ResourceVersion e))
                | Some existRV \<Rightarrow> Inr (existRV < newRV))))"

definition set_DeletionTimestamp :: "pptr \<Rightarrow> gotime option \<Rightarrow> pmem \<Rightarrow> pmem" where
  "set_DeletionTimestamp p t mem =
     mem(p := (mem p)\<lparr>p_Meta := (p_Meta (mem p))\<lparr>om_DeletionTimestamp := t\<rparr>\<rparr>)"

text \<open>
  \<open>offerToCache\<close> with the write lock held. Note the read of \<open>current.DeletionTimestamp\<close>, which
  dereferences \<open>current\<close> although the name may not be cached.
\<close>

definition offerToCache ::
  "gotime \<Rightarrow> NamespacedName \<Rightarrow> pptr \<Rightarrow> cachedPredictorSource \<Rightarrow> (bool \<times> cachedPredictorSource) option" where
  "offerToCache now name p s =
     (let current = gomap_get (cs_cache s) name
      in case compareResourceVersion (map_option (cs_mem s) current) (cs_mem s p) of
           Inl err \<Rightarrow> Some (False, s)
         | Inr False \<Rightarrow> Some (False, s)
         | Inr True \<Rightarrow>
             (case p_DeletionTimestamp (cs_mem s p) of
                None \<Rightarrow> Some (True, s\<lparr>cs_cache := gomap_set name p (cs_cache s)\<rparr>)
              | Some t \<Rightarrow>
                  (let twoSecsAgo = secondsAgo now 2;
                       mem = (if Time_Before (Some t) (Some twoSecsAgo)
                              then set_DeletionTimestamp p (Some twoSecsAgo) (cs_mem s)
                              else cs_mem s)
                   in case current of
                        None \<Rightarrow> None
                      | Some c \<Rightarrow>
                          (let queue = (if p_DeletionTimestamp (mem c) = None
                                        then heap_Push (pdh_Less mem) (pdh_Push mem) (cs_deletionQueue s) p
                                        else cs_deletionQueue s)
                           in Some (True, s\<lparr>cs_cache := gomap_set name p (cs_cache s),
                                            cs_deletionQueue := queue, cs_mem := mem\<rparr>)))))"

definition cs_get :: "NamespacedName \<Rightarrow> cachedPredictorSource \<Rightarrow> pptr option" where
  "cs_get name s = gomap_get (cs_cache s) name"

definition cs_Get :: "gotime \<Rightarrow> NamespacedName \<Rightarrow> cachedPredictorSource \<Rightarrow> pptr option" where
  "cs_Get now name s =
     (case cs_get name s of
        None \<Rightarrow> None
      | Some p \<Rightarrow> if isDeleted now (cs_mem s p) then None else Some p)"

definition cs_Find :: "gotime \<Rightarrow> string \<Rightarrow> (Predictor \<Rightarrow> bool) \<Rightarrow> cachedPredictorSource \<Rightarrow> bool" where
  "cs_Find now namespace predicate s =
     list_ex (\<lambda>(_, p). \<not> isDeleted now (cs_mem s p) \<and> p_Namespace (cs_mem s p) = namespace
                       \<and> predicate (cs_mem s p)) (cs_cache s)"

text \<open>
  \<open>UpdateStatus\<close> gives up the lock around the remote call, so it is two operations: the check
  before the call (\<open>Inl\<close> its result when it returns at once, \<open>Inr\<close> the name to go on with), and
  the part after it. The remote updater answers with an error or with the latest Predictor
  (nil when it is gone), the resource version and whether the conditional update took place.
\<close>

datatype update_error = NilPredictor | UpdaterError string

type_synonym update_result = "update_error + bool"

definition UpdateStatus_begin ::
  "pptr option \<Rightarrow> cachedPredictorSource \<Rightarrow> update_result + NamespacedName" where
  "UpdateStatus_begin predictor s =
     (case predictor of
        None \<Rightarrow> Inl (Inl NilPredictor)
      | Some p \<Rightarrow>
          (let name = nn (cs_mem s p)
           in case cs_get name s of
                None \<Rightarrow> Inl (Inr False)
              | Some existing \<Rightarrow>
                  if p_ResourceVersion (cs_mem s p) \<noteq> p_ResourceVersion (cs_mem s existing)
                  then Inl (Inr False)
                  else Inr name))"

type_synonym updater_answer = "string + (pptr option \<times> string \<times> bool)"

definition alloc :: "Predictor \<Rightarrow> cachedPredictorSource \<Rightarrow> pptr \<times> cachedPredictorSource" where
  "alloc v s = (cs_next s, s\<lparr>cs_mem := (cs_mem s)(cs_next s := v), cs_next := Suc (cs_next s)\<rparr>)"

definition UpdateStatus_finish ::
  "gotime \<Rightarrow> NamespacedName \<Rightarrow> updater_answer \<Rightarrow> cachedPredictorSource
     \<Rightarrow> (update_result \<times> cachedPredictorSource) option" where
  "UpdateStatus_finish now name answer s =
     (case answer of
        Inl err \<Rightarrow> Some (Inl (UpdaterError err), s)
      | Inr (newPredictor, rv, ok) \<Rightarrow>
          (let (ok', p, s') = (case newPredictor of
                                 None \<Rightarrow> (let (q, t) = alloc (deletedPredictor name rv) s in (False, q, t))
                               | Some q \<Rightarrow> (ok, q, s));
               locked = s'\<lparr>cs_lock := Some StatusUpdate\<rparr>
           in map_option (\<lambda>(_, t). (Inr ok', t\<lparr>cs_lock := None\<rparr>)) (offerToCache now name p locked)))"

definition cs_start :: "cachedPredictorSource \<Rightarrow> cachedPredictorSource option" where
  "cs_start s = (if cs_started s then None else Some (s\<lparr>cs_started := True\<rparr>))"

definition cs_unlock :: "cachedPredictorSource \<Rightarrow> cachedPredictorSource" where
  "cs_unlock s = s\<lparr>cs_lock := None, cs_lockHeld := False\<rparr>"

lemma length_heap_Pop:
  "heap_Pop lt pdh_Pop xs = Some (x, ys) \<Longrightarrow> length ys < length xs"
  by (auto simp: heap_Pop_def pdh_Pop_def Let_def heap_down_length split: if_splits)

lemma PopExpired_shorter: "PopExpired mem cutoff h = Some (Some p, h') \<Longrightarrow> length h' < length h"
  by (auto simp: PopExpired_def dest: length_heap_Pop split: list.splits option.splits if_splits)

text \<open>The loop of \<open>pruneDeletions\<close>: pop while the first entry is expired.\<close>

function prune_loop ::
  "pmem \<Rightarrow> gotime \<Rightarrow> pptr list \<times> (NamespacedName, pptr) gomap
     \<Rightarrow> (pptr list \<times> (NamespacedName, pptr) gomap) option" where
  "prune_loop mem cutoff (queue, cache) =
     (case PopExpired mem cutoff queue of
        None \<Rightarrow> None
      | Some (None, queue') \<Rightarrow> Some (queue', cache)
      | Some (Some p, queue') \<Rightarrow>
          (let name = nn (mem p)
           in prune_loop mem cutoff
                (queue', if gomap_get cache name = Some p then gomap_delete name cache else cache)))"
  by pat_completeness auto
termination
  by (relation "measure (\<lambda>(mem, cutoff, queue, cache). length queue)") (auto dest: PopExpired_shorter)

declare prune_loop.simps [simp del]

definition pruneDeletions :: "gotime \<Rightarrow> cachedPredictorSource \<Rightarrow> cachedPredictorSource option" where
  "pruneDeletions now s =
     (if cs_deletionQueue s = [] then Some s
      else map_option (\<lambda>(queue, cache). s\<lparr>cs_deletionQueue := queue, cs_cache := cache\<rparr>)
             (prune_loop (cs_mem s) (now + 20 * Second) (cs_deletionQueue s, cs_cache s)))"

text \<open>
  \<open>processEvent\<close>: the name to announce, if the offered Predictor was taken. The write lock is
  taken when the event loop does not hold it already; \<open>Lock()\<close> returns only when it is free,
  which the step relation below has as its guard.
\<close>

definition processEvent ::
  "gotime \<Rightarrow> pptr option \<Rightarrow> EventType \<Rightarrow> cachedPredictorSource
     \<Rightarrow> (NamespacedName option \<times> cachedPredictorSource) option" where
  "processEvent now pp et s =
     (case pp of
        None \<Rightarrow> Some (None, s)
      | Some p \<Rightarrow>
          (let name = nn (cs_mem s p);
               s1 = (if et = EVENT_DELETE \<and> p_DeletionTimestamp (cs_mem s p) \<noteq> None
                     then s\<lparr>cs_mem := set_DeletionTimestamp p (Some zero_time) (cs_mem s)\<rparr>
                     else s);
               s2 = (if \<not> cs_lockHeld s1 then s1\<lparr>cs_lock := Some EventLoop, cs_lockHeld := True\<rparr> else s1)
           in map_option (\<lambda>(taken, s3). (if taken then Some name else None, s3))
                (offerToCache now name p s2)))"

text \<open>
  Channels: the buffered values and, for the input, whether it is closed; the output channel has
  a capacity. \<open>pollChan\<close> and \<open>offerChan\<close> never wait.
\<close>

record in_chan =
  ic_buf :: "PredictorStreamEvent list"
  ic_closed :: bool

record out_chan =
  oc_buf :: "NamespacedName list"
  oc_cap :: nat

definition pollChan :: "in_chan \<Rightarrow> (PredictorStreamEvent option \<times> bool) \<times> in_chan" where
  "pollChan c =
     (case ic_buf c of
        e # es \<Rightarrow> ((Some e, True), c\<lparr>ic_buf := es\<rparr>)
      | [] \<Rightarrow> if ic_closed c then ((None, False), c) else ((None, True), c))"

definition offerChan :: "out_chan \<Rightarrow> NamespacedName \<Rightarrow> bool \<times> out_chan" where
  "offerChan c pe =
     (if length (oc_buf c) < oc_cap c then (True, c\<lparr>oc_buf := oc_buf c @ [pe]\<rparr>) else (False, c))"

datatype read_result = ReadEvent PredictorStreamEvent | ReadClosed | ReadWaits

text \<open>
  \<open>readEvent\<close>: what is read, or that the receive waits (with the state in which it does so;
  calling again from there is the resumed receive).
\<close>

definition readEvent ::
  "gotime \<Rightarrow> in_chan \<Rightarrow> cachedPredictorSource \<Rightarrow> (read_result \<times> in_chan \<times> cachedPredictorSource) option" where
  "readEvent now c s =
     (let receive = (\<lambda>s'. case ic_buf c of
                            e # es \<Rightarrow> (ReadEvent e, c\<lparr>ic_buf := es\<rparr>, s')
                          | [] \<Rightarrow> (if ic_closed c then ReadClosed else ReadWaits, c, s'))
      in if cs_lockHeld s
         then (case pollChan c of
                 ((Some e, _), c') \<Rightarrow> Some (ReadEvent e, c', s)
               | ((None, _), _) \<Rightarrow> map_option (\<lambda>s'. receive (cs_unlock s')) (pruneDeletions now s))
         else Some (receive s))"

datatype write_result = Written out_chan | WriteWaits

definition writeEvent ::
  "out_chan \<Rightarrow> NamespacedName \<Rightarrow> cachedPredictorSource \<Rightarrow> write_result \<times> cachedPredictorSource" where
  "writeEvent c pe s =
     (let send = (\<lambda>s'. (if fst (offerChan c pe) then Written (snd (offerChan c pe)) else WriteWaits, s'))
      in if cs_lockHeld s
         then (case offerChan c pe of
                 (True, c') \<Rightarrow> (Written c', s)
               | (False, _) \<Rightarrow> send (cs_unlock s))
         else send s)"

section \<open>The deletion queue is a priority queue\<close>

definition ts_key :: "pmem \<Rightarrow> pptr \<Rightarrow> gotime" where
  "ts_key mem p = (case p_DeletionTimestamp (mem p) of None \<Rightarrow> zero_time | Some t \<Rightarrow> t)"

definition has_ts :: "pmem \<Rightarrow> pptr \<Rightarrow> bool" where
  "has_ts mem p \<longleftrightarrow> p_DeletionTimestamp (mem p) \<noteq> None"

interpretation dh: heap_order "pdh_Less mem" "ts_key mem" "has_ts mem" for mem
  by unfold_locales
    (auto simp: pdh_Less_def Time_Before_def ts_key_def has_ts_def split: option.splits)

text \<open>Heap-ordered by deletion timestamp, which every entry has.\<close>

definition queue_heap :: "pmem \<Rightarrow> pptr list \<Rightarrow> bool" where
  "queue_heap mem q \<longleftrightarrow>
     (\<forall>p \<in> set q. has_ts mem p) \<and>
     (\<forall>i < length q. 0 < i \<longrightarrow> ts_key mem (q ! ((i - 1) div 2)) \<le> ts_key mem (q ! i))"

lemma queue_heap_iff: "queue_heap mem q \<longleftrightarrow> dh.is_heap mem q"
  by (simp add: queue_heap_def dh.is_heap_def dh.heap_below_def)

lemma PopExpired_heap:
  assumes "queue_heap mem q"
  shows "PopExpired mem cutoff q = Some (None, q) \<and> (\<forall>p \<in> set q. cutoff \<le> ts_key mem p) \<or>
     (\<exists>p q'. PopExpired mem cutoff q = Some (Some p, q') \<and> queue_heap mem q' \<and>
        mset q = add_mset p (mset q') \<and> ts_key mem p < cutoff \<and>
        (\<forall>x \<in> set q. ts_key mem p \<le> ts_key mem x))"
proof (cases q)
  case Nil
  then show ?thesis by (simp add: PopExpired_def)
next
  case (Cons p0 ps)
  have heap: "dh.is_heap mem q" using assms by (simp add: queue_heap_iff)
  have root: "q ! 0 = p0" and ne: "q \<noteq> []" using Cons by simp_all
  have least: "\<forall>x \<in> set q. ts_key mem p0 \<le> ts_key mem x"
    using dh.is_heap_min[OF heap] root by simp
  obtain t where t: "p_DeletionTimestamp (mem p0) = Some t" and key: "ts_key mem p0 = t"
    using assms Cons by (auto simp: queue_heap_def has_ts_def ts_key_def)
  show ?thesis
  proof (cases "t < cutoff")
    case True
    obtain q' where "heap_Pop (pdh_Less mem) pdh_Pop q = Some (p0, q')" "dh.is_heap mem q'"
      "mset q = add_mset p0 (mset q')"
      using dh.heap_Pop_root[OF heap ne, of pdh_Pop] root by (auto simp: pdh_Pop_def)
    then show ?thesis
      using True Cons t key least by (auto simp: PopExpired_def queue_heap_iff)
  next
    case False
    then show ?thesis
      using Cons t key least by (fastforce simp: PopExpired_def)
  qed
qed

lemma queue_heap_Push:
  assumes "queue_heap mem q" and "has_ts mem p"
  shows "queue_heap mem (heap_Push (pdh_Less mem) (pdh_Push mem) q p)"
    and "mset (heap_Push (pdh_Less mem) (pdh_Push mem) q p) = add_mset p (mset q)"
  using assms dh.heap_Push_append[of mem q "pdh_Push mem" p]
  by (simp_all add: queue_heap_iff pdh_Push_def has_ts_def)

text \<open>Only the timestamps of its own entries matter to the queue.\<close>

lemma queue_heap_cong:
  "(\<And>p. p \<in> set q \<Longrightarrow> p_DeletionTimestamp (mem p) = p_DeletionTimestamp (mem' p)) \<Longrightarrow>
     queue_heap mem q \<longleftrightarrow> queue_heap mem' q"
  by (simp add: queue_heap_def ts_key_def has_ts_def)

section \<open>Pruning\<close>

lemma prune_loop_heap:
  assumes "queue_heap mem q" and "distinct q"
  shows "\<exists>q' c'. prune_loop mem cutoff (q, cache) = Some (q', c') \<and> queue_heap mem q' \<and>
     mset q' = filter_mset (\<lambda>p. cutoff \<le> ts_key mem p) (mset q) \<and>
     (gomap_wf cache \<longrightarrow> gomap_wf c') \<and>
     (\<forall>n. gomap_get c' n =
        (if \<exists>p \<in> set q. ts_key mem p < cutoff \<and> nn (mem p) = n \<and> gomap_get cache n = Some p
         then None else gomap_get cache n))"
  using assms
proof (induction "length q" arbitrary: q cache rule: less_induct)
  case less
  from PopExpired_heap[OF less.prems(1)]
  consider (stop) "PopExpired mem cutoff q = Some (None, q)" "\<forall>p \<in> set q. cutoff \<le> ts_key mem p"
    | (pop) p q1 where "PopExpired mem cutoff q = Some (Some p, q1)" "queue_heap mem q1"
        "mset q = add_mset p (mset q1)" "ts_key mem p < cutoff"
    by metis
  then show ?case
  proof cases
    case stop
    have "filter_mset (\<lambda>p. cutoff \<le> ts_key mem p) (mset q) = mset q"
      using stop(2) by (simp add: filter_mset_eq_conv)
    moreover have "\<not> (\<exists>p \<in> set q. ts_key mem p < cutoff \<and> P p)" for P
      using stop(2) by auto
    ultimately show ?thesis
      using stop(1) less.prems(1) by (subst prune_loop.simps) auto
  next
    case pop
    let ?c1 = "if gomap_get cache (nn (mem p)) = Some p then gomap_delete (nn (mem p)) cache else cache"
    have len: "length q1 < length q" using PopExpired_shorter[OF pop(1)] .
    have dq: "distinct q1" "p \<notin> set q1" and setq: "set q = insert p (set q1)"
      using less.prems(2) pop(3) by (metis distinct.simps(2) mset.simps(2) mset_eq_imp_distinct_iff,
        metis distinct.simps(2) mset.simps(2) mset_eq_imp_distinct_iff,
        metis list.simps(15) mset.simps(2) mset_eq_setD)
    obtain q' c' where IH: "prune_loop mem cutoff (q1, ?c1) = Some (q', c')" "queue_heap mem q'"
      "mset q' = filter_mset (\<lambda>p. cutoff \<le> ts_key mem p) (mset q1)" "gomap_wf ?c1 \<longrightarrow> gomap_wf c'"
      "\<forall>n. gomap_get c' n =
        (if \<exists>p \<in> set q1. ts_key mem p < cutoff \<and> nn (mem p) = n \<and> gomap_get ?c1 n = Some p
         then None else gomap_get ?c1 n)"
      using less.hyps[OF len pop(2) dq(1), of ?c1] by metis
    have "prune_loop mem cutoff (q, cache) = Some (q', c')"
      using pop(1) IH(1) by (subst prune_loop.simps) (simp add: Let_def)
    moreover have "mset q' = filter_mset (\<lambda>p. cutoff \<le> ts_key mem p) (mset q)"
      using IH(3) pop(3,4) by simp
    moreover have "gomap_wf cache \<longrightarrow> gomap_wf c'" using IH(4) by simp
    moreover have "gomap_get c' n =
        (if \<exists>p \<in> set q. ts_key mem p < cutoff \<and> nn (mem p) = n \<and> gomap_get cache n = Some p
         then None else gomap_get cache n)" for n
      using IH(5) pop(4) dq(2) setq by (cases "gomap_get cache n = Some p \<and> nn (mem p) = n") auto
    ultimately show ?thesis using IH(2) by blast
  qed
qed

section \<open>The invariant of the source\<close>

abbreviation rv_of :: "Predictor \<Rightarrow> int option" where
  "rv_of p \<equiv> ParseInt 64 (p_ResourceVersion p)"

definition cs_inv :: "cachedPredictorSource \<Rightarrow> bool" where
  "cs_inv s \<longleftrightarrow>
     gomap_wf (cs_cache s) \<and>
     (\<forall>n p. gomap_get (cs_cache s) n = Some p \<longrightarrow>
        p < cs_next s \<and> nn (cs_mem s p) = n \<and> rv_of (cs_mem s p) \<noteq> None) \<and>
     queue_heap (cs_mem s) (cs_deletionQueue s) \<and> distinct (cs_deletionQueue s) \<and>
     (\<forall>p \<in> set (cs_deletionQueue s). p < cs_next s) \<and>
     (cs_lockHeld s \<longleftrightarrow> cs_lock s = Some EventLoop)"

lemma cs_invI:
  assumes "gomap_wf (cs_cache s)"
    and "\<And>n p. gomap_get (cs_cache s) n = Some p \<Longrightarrow>
        p < cs_next s \<and> nn (cs_mem s p) = n \<and> rv_of (cs_mem s p) \<noteq> None"
    and "queue_heap (cs_mem s) (cs_deletionQueue s)" and "distinct (cs_deletionQueue s)"
    and "\<And>p. p \<in> set (cs_deletionQueue s) \<Longrightarrow> p < cs_next s"
    and "cs_lockHeld s \<longleftrightarrow> cs_lock s = Some EventLoop"
  shows "cs_inv s"
  using assms by (simp add: cs_inv_def)

lemma cs_invD:
  assumes "cs_inv s"
  shows "gomap_wf (cs_cache s)"
    and "gomap_get (cs_cache s) n = Some p \<Longrightarrow> p < cs_next s"
    and "gomap_get (cs_cache s) n = Some p \<Longrightarrow> nn (cs_mem s p) = n"
    and "gomap_get (cs_cache s) n = Some p \<Longrightarrow> \<exists>v. rv_of (cs_mem s p) = Some v"
    and "queue_heap (cs_mem s) (cs_deletionQueue s)" and "distinct (cs_deletionQueue s)"
    and "p \<in> set (cs_deletionQueue s) \<Longrightarrow> p < cs_next s"
    and "cs_lockHeld s \<longleftrightarrow> cs_lock s = Some EventLoop"
  using assms by (auto simp: cs_inv_def)

lemma cs_inv_new: "cs_inv (newCachedPredictorSource sid name mem nxt)"
  by (simp add: cs_inv_def newCachedPredictorSource_def queue_heap_def)

text \<open>A pointer the source does not hold: it may still be written through.\<close>

definition fresh_for :: "pptr \<Rightarrow> cachedPredictorSource \<Rightarrow> bool" where
  "fresh_for p s \<longleftrightarrow> p < cs_next s \<and> p \<notin> set (cs_deletionQueue s) \<and>
     (\<forall>n. gomap_get (cs_cache s) n \<noteq> Some p)"

lemma set_DeletionTimestamp_simps [simp]:
  "q \<noteq> p \<Longrightarrow> set_DeletionTimestamp p t mem q = mem q"
  "p_DeletionTimestamp (set_DeletionTimestamp p t mem p) = t"
  "p_ResourceVersion (set_DeletionTimestamp p t mem q) = p_ResourceVersion (mem q)"
  "nn (set_DeletionTimestamp p t mem q) = nn (mem q)"
  by (simp_all add: set_DeletionTimestamp_def nn_def)

lemma set_DeletionTimestamp_inv:
  "cs_inv s \<Longrightarrow> fresh_for p s \<Longrightarrow> cs_inv (s\<lparr>cs_mem := set_DeletionTimestamp p t (cs_mem s)\<rparr>)"
proof -
  assume inv: "cs_inv s" and fr: "fresh_for p s"
  have "queue_heap (set_DeletionTimestamp p t (cs_mem s)) (cs_deletionQueue s) \<longleftrightarrow>
        queue_heap (cs_mem s) (cs_deletionQueue s)"
    using fr by (intro queue_heap_cong) (metis fresh_for_def set_DeletionTimestamp_simps(1))
  with inv show ?thesis by (simp add: cs_inv_def)
qed

lemma alloc_inv:
  assumes "cs_inv s" and "alloc v s = (p, t)"
  shows "cs_inv t" and "fresh_for p t" and "cs_mem t p = v" and "cs_cache t = cs_cache s"
    and "\<And>q. q < cs_next s \<Longrightarrow> cs_mem t q = cs_mem s q" and "cs_next s \<le> cs_next t"
    and "cs_lock t = cs_lock s" and "cs_lockHeld t = cs_lockHeld s"
    and "cs_deletionQueue t = cs_deletionQueue s"
proof -
  have t: "p = cs_next s" "t = s\<lparr>cs_mem := (cs_mem s)(p := v), cs_next := Suc (cs_next s)\<rparr>"
    using assms(2) by (auto simp: alloc_def)
  have "queue_heap (cs_mem t) (cs_deletionQueue s) \<longleftrightarrow> queue_heap (cs_mem s) (cs_deletionQueue s)"
    using cs_invD(7)[OF assms(1)] t by (intro queue_heap_cong) auto
  moreover have "q < Suc (cs_next s) \<and> nn (cs_mem t q) = n \<and> rv_of (cs_mem t q) \<noteq> None"
    if "gomap_get (cs_cache s) n = Some q" for n q
    using cs_invD(2,3,4)[OF assms(1) that] t by auto
  ultimately show "cs_inv t"
    using assms(1) t unfolding cs_inv_def by (simp add: less_Suc_eq)
  show "fresh_for p t"
    using t cs_invD(2,7)[OF assms(1)] by (auto simp: fresh_for_def)
qed (use assms(2) in \<open>auto simp: alloc_def\<close>)

section \<open>Offering to the cache\<close>

text \<open>The panic: a newer Predictor with a deletion timestamp under a name that is not cached.\<close>

lemma offerToCache_None_iff:
  "offerToCache now name p s = None \<longleftrightarrow>
     cs_get name s = None \<and> rv_of (cs_mem s p) \<noteq> None \<and> p_DeletionTimestamp (cs_mem s p) \<noteq> None"
  by (auto simp: offerToCache_def cs_get_def compareResourceVersion_def Let_def
      split: option.splits sum.splits bool.splits)

text \<open>Whether an offer is taken is decided by the two resource versions alone.\<close>

definition newer_than_cached :: "NamespacedName \<Rightarrow> pptr \<Rightarrow> cachedPredictorSource \<Rightarrow> bool" where
  "newer_than_cached name p s \<longleftrightarrow>
     (case rv_of (cs_mem s p) of
        None \<Rightarrow> False
      | Some v \<Rightarrow>
          (case cs_get name s of
             None \<Rightarrow> True
           | Some c \<Rightarrow> (case rv_of (cs_mem s c) of None \<Rightarrow> False | Some w \<Rightarrow> w < v)))"

lemma compareResourceVersion_newer:
  "compareResourceVersion (map_option (cs_mem s) (gomap_get (cs_cache s) name)) (cs_mem s p) = Inr True
     \<longleftrightarrow> newer_than_cached name p s"
  by (auto simp: compareResourceVersion_def newer_than_cached_def cs_get_def split: option.splits)

lemma offerToCache_refused:
  "\<not> newer_than_cached name p s \<Longrightarrow> offerToCache now name p s = Some (False, s)"
  unfolding compareResourceVersion_newer[symmetric]
  by (auto simp: offerToCache_def Let_def split: sum.splits bool.splits)

lemma offerToCache_taken:
  assumes "offerToCache now name p s = Some (b, t)"
  shows "b \<longleftrightarrow> newer_than_cached name p s"
    and "b \<Longrightarrow> cs_get name t = Some p"
    and "n \<noteq> name \<or> \<not> b \<Longrightarrow> cs_get n t = cs_get n s"
    and "cs_next t = cs_next s" and "cs_lock t = cs_lock s" and "cs_lockHeld t = cs_lockHeld s"
    and "q \<noteq> p \<Longrightarrow> cs_mem t q = cs_mem s q"
    and "p_ResourceVersion (cs_mem t q) = p_ResourceVersion (cs_mem s q)"
  using assms unfolding compareResourceVersion_newer[symmetric]
  by (auto simp: offerToCache_def cs_get_def Let_def
      split: sum.splits bool.splits option.splits if_splits)

lemma offerToCache_cmp:
  assumes "offerToCache now name p s = Some (True, t)"
  shows "compareResourceVersion (map_option (cs_mem s) (gomap_get (cs_cache s) name)) (cs_mem s p) = Inr True"
  using offerToCache_taken(1)[OF assms] by (simp add: compareResourceVersion_newer)

text \<open>What an accepted offer does to the deletion queue: nothing, or one entry more.\<close>

lemma offerToCache_queue:
  assumes inv: "cs_inv s" and fr: "fresh_for p s" and off: "offerToCache now name p s = Some (True, t)"
  shows "queue_heap (cs_mem t) (cs_deletionQueue t)"
    and "cs_deletionQueue t = cs_deletionQueue s \<or>
         has_ts (cs_mem t) p \<and> mset (cs_deletionQueue t) = mset (p # cs_deletionQueue s)"
proof -
  have eq: "\<forall>q \<in> set (cs_deletionQueue s). cs_mem t q = cs_mem s q"
    using fr offerToCache_taken(7)[OF off] by (metis fresh_for_def)
  have same: "queue_heap (cs_mem t) (cs_deletionQueue s)"
    using cs_invD(5)[OF inv] eq by (subst queue_heap_cong[of _ "cs_mem t" "cs_mem s"]) auto
  have "cs_deletionQueue t = cs_deletionQueue s \<or>
      has_ts (cs_mem t) p \<and>
      cs_deletionQueue t = heap_Push (pdh_Less (cs_mem t)) (pdh_Push (cs_mem t)) (cs_deletionQueue s) p"
    using off offerToCache_cmp[OF off]
    by (auto simp: offerToCache_def Let_def has_ts_def split: option.splits if_splits)
  then show "queue_heap (cs_mem t) (cs_deletionQueue t)"
    and "cs_deletionQueue t = cs_deletionQueue s \<or>
         has_ts (cs_mem t) p \<and> mset (cs_deletionQueue t) = mset (p # cs_deletionQueue s)"
    using same queue_heap_Push[OF same] by auto
qed

lemma offerToCache_cached:
  assumes inv: "cs_inv s" and fr: "fresh_for p s" and name: "nn (cs_mem s p) = name"
    and off: "offerToCache now name p s = Some (True, t)" and q: "gomap_get (cs_cache t) n = Some q"
  shows "q < cs_next t \<and> nn (cs_mem t q) = n \<and> rv_of (cs_mem t q) \<noteq> None"
proof (cases "n = name")
  case True
  have "newer_than_cached name p s" using offerToCache_taken(1)[OF off] by simp
  then have "rv_of (cs_mem s p) \<noteq> None"
    by (auto simp: newer_than_cached_def split: option.splits)
  moreover have "nn (cs_mem t p) = name" "q = p" "p < cs_next t"
    using off offerToCache_cmp[OF off] name q True fr offerToCache_taken(2,4)[OF off]
    by (auto simp: offerToCache_def Let_def cs_get_def fresh_for_def split: option.splits if_splits)
  ultimately show ?thesis using True offerToCache_taken(8)[OF off] by simp
next
  case False
  then have g: "gomap_get (cs_cache s) n = Some q"
    using q offerToCache_taken(3)[OF off, of n] by (simp add: cs_get_def)
  moreover have "q \<noteq> p" using g fr by (auto simp: fresh_for_def)
  ultimately show ?thesis
    using cs_invD(2,3,4)[OF inv g] offerToCache_taken(4,7)[OF off] by auto
qed

lemma offerToCache_inv:
  assumes inv: "cs_inv s" and fr: "fresh_for p s" and name: "nn (cs_mem s p) = name"
    and off: "offerToCache now name p s = Some (b, t)"
  shows "cs_inv t"
proof (cases b)
  case False
  then show ?thesis
    using off inv offerToCache_taken(1)[OF off] offerToCache_refused[of name p s now] by simp
next
  case True
  then have off': "offerToCache now name p s = Some (True, t)" using off by simp
  have queue: "set (cs_deletionQueue t) \<subseteq> insert p (set (cs_deletionQueue s)) \<and> distinct (cs_deletionQueue t)"
    using offerToCache_queue(2)[OF inv fr off'] cs_invD(6)[OF inv] fr
    by (metis distinct.simps(2) fresh_for_def list.simps(15) mset_eq_imp_distinct_iff mset_eq_setD
        order_refl subset_insertI)
  have "gomap_wf (cs_cache t)"
    using off' offerToCache_cmp[OF off'] cs_invD(1)[OF inv]
    by (auto simp: offerToCache_def Let_def split: option.splits if_splits)
  then show ?thesis
    using offerToCache_cached[OF inv fr name off'] queue offerToCache_queue(1)[OF inv fr off']
      cs_invD(7,8)[OF inv] fr offerToCache_taken(4,5,6)[OF off]
    by (intro cs_invI) (auto simp: fresh_for_def)
qed

section \<open>Event loop and status updates interleaved\<close>

text \<open>
  The steps of the source. The event loop may take the lock when it is free and go on while it
  holds it; a status update needs it free. The Predictors that arrive in events and answers are
  objects of their own (allocated by the sender), and an answer is about the name that was asked.
\<close>

inductive cs_step :: "cachedPredictorSource \<Rightarrow> cachedPredictorSource \<Rightarrow> bool" where
  event: "cs_lockHeld s \<or> cs_lock s = None \<Longrightarrow> alloc v s = (p, s1) \<Longrightarrow>
     processEvent now (Some p) et s1 = Some (r, t) \<Longrightarrow> cs_step s t"
| read_event: "readEvent now c s = Some (rr, c', t) \<Longrightarrow> cs_step s t"
| write_event: "writeEvent oc pe s = (wr, t) \<Longrightarrow> cs_step s t"
| status: "cs_lock s = None \<Longrightarrow> alloc v s = (p, s1) \<Longrightarrow> nn v = name \<Longrightarrow>
     UpdateStatus_finish now name (Inr (Some p, rv, ok)) s1 = Some (ur, t) \<Longrightarrow> cs_step s t"
| status_gone: "cs_lock s = None \<Longrightarrow>
     UpdateStatus_finish now name (Inr (None, rv, ok)) s = Some (ur, t) \<Longrightarrow> cs_step s t"

text \<open>
  What a step may do to the entry of a name: keep it, replace it by a newer version, add one, or
  drop one that is in the deletion queue.
\<close>

definition entry_advances :: "NamespacedName \<Rightarrow> cachedPredictorSource \<Rightarrow> cachedPredictorSource \<Rightarrow> bool" where
  "entry_advances n s t \<longleftrightarrow>
     (case (cs_get n s, cs_get n t) of
        (Some p, Some q) \<Rightarrow>
          (p = q \<and> p_ResourceVersion (cs_mem t q) = p_ResourceVersion (cs_mem s p)) \<or>
          (\<exists>v w. rv_of (cs_mem s p) = Some v \<and> rv_of (cs_mem t q) = Some w \<and> v < w)
      | (Some p, None) \<Rightarrow> p \<in> set (cs_deletionQueue s)
      | (None, _) \<Rightarrow> True)"

lemma offerToCache_advances:
  assumes inv: "cs_inv s" and fr: "fresh_for p s" and off: "offerToCache now name p s = Some (b, t)"
  shows "entry_advances n s t"
proof (cases "n = name \<and> b")
  case False
  then have g: "cs_get n t = cs_get n s" using offerToCache_taken(3)[OF off] by blast
  then show ?thesis
    using offerToCache_taken(8)[OF off] by (auto simp: entry_advances_def split: option.splits)
next
  case True
  then have "cs_get n t = Some p" and new: "newer_than_cached n p s"
    using offerToCache_taken(1,2)[OF off] by auto
  then show ?thesis
    using offerToCache_taken(8)[OF off, of p] cs_invD(4)[OF inv]
    by (auto simp: entry_advances_def newer_than_cached_def cs_get_def split: option.splits)
qed

lemma pruneDeletions_total:
  assumes inv: "cs_inv s"
  shows "\<exists>t. pruneDeletions now s = Some t \<and> cs_inv t \<and>
     mset (cs_deletionQueue t) =
       filter_mset (\<lambda>p. now + 20 * Second \<le> ts_key (cs_mem s) p) (mset (cs_deletionQueue s)) \<and>
     (\<forall>n. cs_get n t =
        (case cs_get n s of
           None \<Rightarrow> None
         | Some p \<Rightarrow> if p \<in> set (cs_deletionQueue s) \<and> ts_key (cs_mem s) p < now + 20 * Second
                    then None else Some p)) \<and>
     cs_mem t = cs_mem s \<and> cs_next t = cs_next s \<and> cs_lock t = cs_lock s \<and> cs_lockHeld t = cs_lockHeld s"
proof (cases "cs_deletionQueue s = []")
  case True
  then show ?thesis using inv by (simp add: pruneDeletions_def split: option.splits)
next
  case False
  let ?cut = "now + 20 * Second"
  obtain q c where loop: "prune_loop (cs_mem s) ?cut (cs_deletionQueue s, cs_cache s) = Some (q, c)"
    and q: "queue_heap (cs_mem s) q"
      "mset q = filter_mset (\<lambda>p. ?cut \<le> ts_key (cs_mem s) p) (mset (cs_deletionQueue s))"
    and c: "gomap_wf c"
      "\<And>n. gomap_get c n =
        (if \<exists>p \<in> set (cs_deletionQueue s). ts_key (cs_mem s) p < ?cut \<and> nn (cs_mem s p) = n \<and>
              gomap_get (cs_cache s) n = Some p
         then None else gomap_get (cs_cache s) n)"
    using prune_loop_heap[OF cs_invD(5,6)[OF inv], of ?cut "cs_cache s"] cs_invD(1)[OF inv] by metis
  have setq: "set q \<subseteq> set (cs_deletionQueue s)"
    using arg_cong[OF q(2), of set_mset] by auto
  have "mset q = mset (filter (\<lambda>p. ?cut \<le> ts_key (cs_mem s) p) (cs_deletionQueue s))"
    using q(2) by simp
  then have "distinct q"
    using cs_invD(6)[OF inv] by (metis distinct_filter mset_eq_imp_distinct_iff)
  moreover have "p < cs_next s \<and> nn (cs_mem s p) = n \<and> rv_of (cs_mem s p) \<noteq> None"
    if "gomap_get c n = Some p" for n p
  proof -
    have "gomap_get (cs_cache s) n = Some p" using that c(2)[of n] by (simp split: if_splits)
    then show ?thesis using cs_invD(2,3,4)[OF inv] by (metis option.distinct(1))
  qed
  ultimately have "cs_inv (s\<lparr>cs_deletionQueue := q, cs_cache := c\<rparr>)"
    using cs_invD(7,8)[OF inv] c(1) q(1) setq by (intro cs_invI) auto
  then show ?thesis
    using False loop q(2) c(2) cs_invD(3)[OF inv]
    by (auto simp: pruneDeletions_def cs_get_def split: option.splits)
qed

lemma entry_advances_frame:
  assumes "entry_advances n s1 t" and "cs_cache s1 = cs_cache s" and "cs_deletionQueue s1 = cs_deletionQueue s"
    and "\<And>p. cs_get n s = Some p \<Longrightarrow> p_ResourceVersion (cs_mem s1 p) = p_ResourceVersion (cs_mem s p)"
  shows "entry_advances n s t"
  using assms by (auto simp: entry_advances_def cs_get_def split: option.splits)

lemma entry_advances_refl:
  "cs_cache t = cs_cache s \<Longrightarrow> cs_mem t = cs_mem s \<Longrightarrow> entry_advances n s t"
  by (auto simp: entry_advances_def cs_get_def split: option.splits)

text \<open>The state in which \<open>processEvent\<close> offers the Predictor.\<close>

lemma processEvent_offers:
  assumes inv: "cs_inv s" and fr: "fresh_for p s" and ev: "processEvent now (Some p) et s = Some (r, t)"
  obtains s2 b where "cs_inv s2" and "fresh_for p s2" and "offerToCache now (nn (cs_mem s2 p)) p s2 = Some (b, t)"
    and "cs_cache s2 = cs_cache s" and "cs_deletionQueue s2 = cs_deletionQueue s"
    and "\<And>q. p_ResourceVersion (cs_mem s2 q) = p_ResourceVersion (cs_mem s q)"
    and "r = (if b then Some (nn (cs_mem s p)) else None)" and "cs_lockHeld s2" and "nn (cs_mem s2 p) = nn (cs_mem s p)"
    and "\<And>q. q \<noteq> p \<Longrightarrow> cs_mem s2 q = cs_mem s q"
proof -
  define s1 where "s1 = (if et = EVENT_DELETE \<and> p_DeletionTimestamp (cs_mem s p) \<noteq> None
     then s\<lparr>cs_mem := set_DeletionTimestamp p (Some zero_time) (cs_mem s)\<rparr> else s)"
  define s2 where "s2 = (if \<not> cs_lockHeld s1 then s1\<lparr>cs_lock := Some EventLoop, cs_lockHeld := True\<rparr> else s1)"
  have "cs_inv s1" using inv fr by (simp add: s1_def set_DeletionTimestamp_inv)
  then have "cs_inv s2" by (simp add: s2_def cs_inv_def)
  moreover have "cs_cache s2 = cs_cache s" "cs_deletionQueue s2 = cs_deletionQueue s" "cs_next s2 = cs_next s"
    "cs_lockHeld s2" "\<And>q. p_ResourceVersion (cs_mem s2 q) = p_ResourceVersion (cs_mem s q)"
    "nn (cs_mem s2 p) = nn (cs_mem s p)" "\<And>q. q \<noteq> p \<Longrightarrow> cs_mem s2 q = cs_mem s q"
    by (simp_all add: s2_def s1_def)
  moreover obtain b where "offerToCache now (nn (cs_mem s p)) p s2 = Some (b, t)"
    "r = (if b then Some (nn (cs_mem s p)) else None)"
    using ev
    by (simp only: processEvent_def option.case Let_def s1_def[symmetric] s2_def[symmetric]) auto
  ultimately show thesis using that fr by (simp add: fresh_for_def)
qed

lemma processEvent_step:
  assumes "cs_inv s" and "fresh_for p s" and "processEvent now (Some p) et s = Some (r, t)"
  shows "cs_inv t" and "entry_advances n s t"
proof -
  from processEvent_offers[OF assms] obtain s2 b where s2: "cs_inv s2" "fresh_for p s2"
    "offerToCache now (nn (cs_mem s2 p)) p s2 = Some (b, t)" "cs_cache s2 = cs_cache s"
    "cs_deletionQueue s2 = cs_deletionQueue s"
    "\<And>q. p_ResourceVersion (cs_mem s2 q) = p_ResourceVersion (cs_mem s q)"
    by metis
  show "cs_inv t" using offerToCache_inv[OF s2(1,2) refl s2(3)] .
  show "entry_advances n s t"
    using offerToCache_advances[OF s2(1-3)] s2(4-6) by (rule entry_advances_frame)
qed

lemma readEvent_step:
  assumes inv: "cs_inv s" and rd: "readEvent now c s = Some (rr, c', t)"
  shows "cs_inv t" and "entry_advances n s t"
proof -
  obtain u where u: "pruneDeletions now s = Some u" "cs_inv u" "cs_mem u = cs_mem s"
    "\<And>n. cs_get n u = (case cs_get n s of None \<Rightarrow> None
        | Some p \<Rightarrow> if p \<in> set (cs_deletionQueue s) \<and> ts_key (cs_mem s) p < now + 20 * Second
                   then None else Some p)"
    using pruneDeletions_total[OF inv, of now] by metis
  have "t = s \<or> t = cs_unlock u"
    using rd u(1) by (auto simp: readEvent_def Let_def split: if_splits prod.splits option.splits list.splits)
  moreover have "cs_inv (cs_unlock u)"
    using u(2) by (auto simp: cs_inv_def cs_unlock_def)
  moreover have "entry_advances n s (cs_unlock u)"
    using u(3) u(4)[of n] by (auto simp: entry_advances_def cs_unlock_def cs_get_def split: option.splits if_splits)
  ultimately show "cs_inv t" and "entry_advances n s t"
    using inv entry_advances_refl[of s s n] by auto
qed

lemma writeEvent_step:
  assumes "cs_inv s" and "writeEvent oc pe s = (wr, t)"
  shows "cs_inv t" and "entry_advances n s t"
proof -
  have "t = s \<or> t = cs_unlock s"
    using assms(2) by (auto simp: writeEvent_def Let_def split: if_splits prod.splits bool.splits)
  then show "cs_inv t" and "entry_advances n s t"
    using assms(1) by (auto simp: cs_inv_def cs_unlock_def intro: entry_advances_refl)
qed

text \<open>A status update after its remote call, offering a Predictor of its own.\<close>

lemma locked_offer_step:
  assumes inv: "cs_inv s" and free: "cs_lock s = None" and fr: "fresh_for p s" and name: "nn (cs_mem s p) = name"
    and off: "offerToCache now name p (s\<lparr>cs_lock := Some StatusUpdate\<rparr>) = Some (b, t)"
  shows "cs_inv (t\<lparr>cs_lock := None\<rparr>)" and "entry_advances n s (t\<lparr>cs_lock := None\<rparr>)"
proof -
  let ?s = "s\<lparr>cs_lock := Some StatusUpdate\<rparr>"
  have i: "cs_inv ?s" and f: "fresh_for p ?s" and m: "nn (cs_mem ?s p) = name"
    using inv free fr name by (simp_all add: cs_inv_def fresh_for_def)
  show "cs_inv (t\<lparr>cs_lock := None\<rparr>)"
    using offerToCache_inv[OF i f m off] offerToCache_taken(5,6)[OF off] cs_invD(8)[OF i]
    by (simp add: cs_inv_def)
  have "entry_advances n s t"
    using offerToCache_advances[OF i f off] by (rule entry_advances_frame) simp_all
  then show "entry_advances n s (t\<lparr>cs_lock := None\<rparr>)"
    by (simp add: entry_advances_def cs_get_def split: option.splits)
qed

lemma UpdateStatus_finish_step:
  assumes inv: "cs_inv s" and free: "cs_lock s = None"
    and answer: "\<And>p. newP = Some p \<Longrightarrow> fresh_for p s \<and> nn (cs_mem s p) = name"
    and fin: "UpdateStatus_finish now name (Inr (newP, rv, ok)) s = Some (ur, t)"
  shows "cs_inv t" and "entry_advances n s t"
proof -
  obtain q u b v where u: "cs_inv u" "cs_lock u = None" "fresh_for q u" "nn (cs_mem u q) = name"
    "offerToCache now name q (u\<lparr>cs_lock := Some StatusUpdate\<rparr>) = Some (b, v)" "t = v\<lparr>cs_lock := None\<rparr>"
    "cs_cache u = cs_cache s" "cs_deletionQueue u = cs_deletionQueue s"
    "\<And>p. p < cs_next s \<Longrightarrow> cs_mem u p = cs_mem s p"
  proof (cases newP)
    case None
    obtain q u where a: "alloc (deletedPredictor name rv) s = (q, u)" by fastforce
    note au = alloc_inv[OF inv a]
    have "nn (deletedPredictor name rv) = name"
      by (simp add: deletedPredictor_def nn_def zero_Predictor_def zero_Meta_def)
    then show thesis
      using fin None a au free that[of u q] by (auto simp: UpdateStatus_finish_def)
  next
    case (Some p)
    then show thesis
      using fin answer[OF Some] inv free that[of s p] by (auto simp: UpdateStatus_finish_def)
  qed
  show "cs_inv t" using locked_offer_step(1)[OF u(1-5)] u(6) by simp
  have "p_ResourceVersion (cs_mem u p) = p_ResourceVersion (cs_mem s p)" if "cs_get n s = Some p" for p
    using u(9)[of p] cs_invD(2)[OF inv, of n p] that by (simp add: cs_get_def)
  then show "entry_advances n s t"
    using locked_offer_step(2)[OF u(1-5)] u(6-8) by (auto intro: entry_advances_frame)
qed

lemma cs_step_safe:
  assumes "cs_step s t" and inv: "cs_inv s"
  shows "cs_inv t" and "entry_advances n s t"
proof -
  have alloc_frame: "entry_advances n s t"
    if a: "alloc v s = (p, s1)" and e: "entry_advances n s1 t" for v p s1
    using e alloc_inv(4,5,9)[OF inv a] cs_invD(2)[OF inv, of n]
    by (intro entry_advances_frame[OF e]) (auto simp: cs_get_def)
  from assms(1) have "cs_inv t \<and> entry_advances n s t"
  proof cases
    case (event v p s1 now et r)
    note a = alloc_inv[OF inv event(2)]
    show ?thesis using processEvent_step[OF a(1,2) event(3)] alloc_frame[OF event(2)] by blast
  next
    case (status v p s1 name now rv ok ur)
    note a = alloc_inv[OF inv status(2)]
    have "cs_lock s1 = None" using a(7) status(1) by simp
    then show ?thesis
      using UpdateStatus_finish_step[OF a(1) _ _ status(4)] a(2,3) status(3) alloc_frame[OF status(2)]
      by simp
  next
    case (status_gone now name rv ok ur)
    then show ?thesis using UpdateStatus_finish_step[OF inv status_gone(1) _ status_gone(2)] by simp
  qed (use readEvent_step[OF inv] writeEvent_step[OF inv] in blast)+
  then show "cs_inv t" and "entry_advances n s t" by simp_all
qed

section \<open>Runs that keep the entry of a name\<close>

inductive cs_run :: "NamespacedName \<Rightarrow> cachedPredictorSource \<Rightarrow> cachedPredictorSource \<Rightarrow> bool" where
  run_refl: "cs_run n s s"
| run_step: "cs_run n s t \<Longrightarrow> cs_step t u \<Longrightarrow> cs_get n u \<noteq> None \<Longrightarrow> cs_run n s u"

lemma cs_run_advances:
  assumes "cs_run n s t" and "cs_inv s" and "cs_get n s = Some p"
  shows "cs_inv t \<and> (\<exists>q v w. cs_get n t = Some q \<and> rv_of (cs_mem s p) = Some v \<and>
     rv_of (cs_mem t q) = Some w \<and> v \<le> w \<and> (v = w \<longrightarrow> q = p))"
  using assms
proof (induction rule: cs_run.induct)
  case (run_refl n s)
  then show ?case using cs_invD(4)[of s n p] by (auto simp: cs_get_def)
next
  case (run_step n s t u)
  then obtain q v w where t: "cs_inv t" "cs_get n t = Some q" "rv_of (cs_mem s p) = Some v"
    "rv_of (cs_mem t q) = Some w" "v \<le> w" "v = w \<longrightarrow> q = p" by blast
  obtain x where x: "cs_get n u = Some x" using run_step.hyps(3) by blast
  have "q = x \<and> rv_of (cs_mem u x) = Some w \<or> (\<exists>w'. rv_of (cs_mem u x) = Some w' \<and> w < w')"
    using cs_step_safe(2)[OF run_step.hyps(2) t(1), of n] t(2,4) x by (auto simp: entry_advances_def)
  then show ?case
    using cs_step_safe(1)[OF run_step.hyps(2) t(1)] t(3,5,6) x by auto
qed

section \<open>Properties of the cached source\<close>

text \<open>A Predictor for the concrete runs below.\<close>

definition sample_predictor :: "string \<Rightarrow> gotime option \<Rightarrow> Predictor" where
  "sample_predictor rv ts = zero_Predictor\<lparr>p_Meta := zero_Meta\<lparr>om_Namespace := ''ns'', om_Name := ''m'',
     om_ResourceVersion := rv, om_DeletionTimestamp := ts\<rparr>\<rparr>"

definition sample_name :: NamespacedName where
  "sample_name = \<lparr>nn_Namespace = ''ns'', nn_Name = ''m''\<rparr>"

text \<open>Version 1 in the cache, and version 2 with a deletion timestamp not yet offered.\<close>

definition sample_source :: "gotime option \<Rightarrow> cachedPredictorSource" where
  "sample_source ts = (newCachedPredictorSource ''k'' [] (\<lambda>a. if a = 0 then sample_predictor ''1'' None
      else sample_predictor ''2'' ts) 2)\<lparr>cs_cache := [(sample_name, 0)]\<rparr>"

lemmas sample_simps = sample_predictor_def sample_name_def sample_source_def newCachedPredictorSource_def
  nn_def zero_Predictor_def zero_Meta_def

lemma nn_sample [simp]: "nn (sample_predictor rv ts) = sample_name"
  by (simp add: sample_simps)

lemma sample_predictor_fields [simp]:
  "p_ResourceVersion (sample_predictor rv ts) = rv" "p_DeletionTimestamp (sample_predictor rv ts) = ts"
  "p_Namespace (sample_predictor rv ts) = ''ns''"
  by (simp_all add: sample_simps)

lemma rv_sample [simp]: "ParseInt 64 ''1'' = Some 1" "ParseInt 64 ''2'' = Some 2"
  by code_simp+

lemma sample_source_fields [simp]:
  "cs_get sample_name (sample_source ts) = Some 0" "cs_mem (sample_source ts) 0 = sample_predictor ''1'' None"
  "cs_mem (sample_source ts) (Suc 0) = sample_predictor ''2'' ts" "cs_deletionQueue (sample_source ts) = []"
  "cs_lock (sample_source ts) = None"
  by (simp_all add: sample_source_def newCachedPredictorSource_def cs_get_def)

lemma sample_source_inv: "cs_inv (sample_source ts)"
  by (auto simp: cs_inv_def sample_source_def newCachedPredictorSource_def queue_heap_def split: if_splits)

lemma sample_source_fresh: "fresh_for 1 (sample_source ts)"
  by (simp add: fresh_for_def sample_source_def newCachedPredictorSource_def)

lemma sample_source_newer: "newer_than_cached sample_name 1 (sample_source ts)"
  by (simp add: newer_than_cached_def cs_get_def sample_source_def newCachedPredictorSource_def)

lemma offerToCache_stamp:
  assumes "offerToCache now name p s = Some (True, t)"
  shows "p_DeletionTimestamp (cs_mem t p) = map_option (max (now - 2 * Second)) (p_DeletionTimestamp (cs_mem s p))"
  using assms offerToCache_cmp[OF assms]
  by (auto simp: offerToCache_def Let_def Time_Before_def secondsAgo_def max_def split: option.splits if_splits)

lemma offerToCache_enqueues:
  assumes inv: "cs_inv s" and fr: "fresh_for p s" and off: "offerToCache now name p s = Some (True, t)"
  shows "mset (cs_deletionQueue t) = mset (cs_deletionQueue s) +
     (if has_ts (cs_mem s) p \<and> (\<exists>c. cs_get name s = Some c \<and> \<not> has_ts (cs_mem s) c) then {#p#} else {#})"
proof -
  have "\<forall>c. cs_get name s = Some c \<longrightarrow> c \<noteq> p" using fr by (auto simp: fresh_for_def cs_get_def)
  moreover have "queue_heap (cs_mem t) (cs_deletionQueue s)"
    using cs_invD(5)[OF inv] fr offerToCache_taken(7)[OF off]
    by (subst queue_heap_cong[of _ "cs_mem t" "cs_mem s"]) (metis fresh_for_def, assumption)
  moreover have "has_ts (cs_mem t) p \<longleftrightarrow> has_ts (cs_mem s) p"
    using offerToCache_stamp[OF off] by (simp add: has_ts_def)
  ultimately show ?thesis
    using off offerToCache_cmp[OF off] queue_heap_Push(2)[of "cs_mem t" "cs_deletionQueue s" p]
    by (auto simp: offerToCache_def Let_def has_ts_def cs_get_def split: option.splits if_splits)
qed

text \<open>
  C3. \<open>offerToCache\<close> on a Predictor the source does not hold yet. It panics exactly when the offered
  Predictor is marked deleted, has a numeric resource version and its name is not cached.
  Otherwise it reports whether the offered version is newer than the cached one; the entry of the
  name is then the offered Predictor, no other entry changes, its deletion timestamp is raised
  to at least two seconds before now, it is queued for deletion exactly when it is the first deleted
  version of that name, and the invariant of the source is kept. A refused offer changes nothing.
\<close>

theorem offerToCache_effect:
  assumes "cs_inv s" and "fresh_for p s" and "nn (cs_mem s p) = name"
  shows "case offerToCache now name p s of
      None \<Rightarrow> cs_get name s = None \<and> rv_of (cs_mem s p) \<noteq> None \<and> has_ts (cs_mem s) p
    | Some (b, t) \<Rightarrow>
        \<not> (cs_get name s = None \<and> rv_of (cs_mem s p) \<noteq> None \<and> has_ts (cs_mem s) p) \<and>
        (b \<longleftrightarrow> newer_than_cached name p s) \<and> (\<not> b \<longrightarrow> t = s) \<and> cs_inv t \<and>
        (\<forall>n. cs_get n t = (if b \<and> n = name then Some p else cs_get n s)) \<and>
        (b \<longrightarrow> p_DeletionTimestamp (cs_mem t p) =
                map_option (max (now - 2 * Second)) (p_DeletionTimestamp (cs_mem s p))) \<and>
        mset (cs_deletionQueue t) = mset (cs_deletionQueue s) +
          (if b \<and> has_ts (cs_mem s) p \<and> (\<exists>c. cs_get name s = Some c \<and> \<not> has_ts (cs_mem s) c)
           then {#p#} else {#})"
proof (cases "offerToCache now name p s")
  case None
  then show ?thesis using offerToCache_None_iff[of now name p s] by (simp add: has_ts_def)
next
  case (Some r)
  obtain b t where r: "r = (b, t)" by fastforce
  have off: "offerToCache now name p s = Some (b, t)" using Some r by simp
  have "\<not> (cs_get name s = None \<and> rv_of (cs_mem s p) \<noteq> None \<and> has_ts (cs_mem s) p)"
    using offerToCache_None_iff[of now name p s] off by (simp add: has_ts_def)
  moreover have "\<not> b \<longrightarrow> t = s"
    using off offerToCache_refused[of name p s now] offerToCache_taken(1)[OF off] by auto
  moreover have "cs_get n t = (if b \<and> n = name then Some p else cs_get n s)" for n
    using offerToCache_taken(2,3)[OF off] by auto
  ultimately show ?thesis
    using Some r offerToCache_taken(1)[OF off] offerToCache_inv[OF assms off]
      offerToCache_stamp[of now name p s t] offerToCache_enqueues[OF assms(1,2), of now name t]
    by (cases b) simp_all
qed

theorem offerToCache_effect_witness:
  "(\<exists>t. offerToCache 100 sample_name 1 (sample_source (Some 0)) = Some (True, t) \<and> cs_inv t \<and>
     cs_get sample_name t = Some 1 \<and> mset (cs_deletionQueue t) = {#1#})"
  using offerToCache_effect[OF sample_source_inv[of "Some 0"] sample_source_fresh[of "Some 0"], of sample_name 100]
    sample_source_newer[of "Some 0"] offerToCache_None_iff[of 100 sample_name 1 "sample_source (Some 0)"]
  by (auto simp: sample_source_def newCachedPredictorSource_def has_ts_def cs_get_def split: option.splits prod.splits)


lemma sample_step:
  "cs_step (newCachedPredictorSource ''k'' [] mem 0)
     (snd (the (processEvent 100 (Some 0) EVENT_UPDATE
        (snd (alloc (sample_predictor ''1'' None) (newCachedPredictorSource ''k'' [] mem 0))))))"
  by (rule cs_step.event[where v = "sample_predictor ''1'' None" and p = 0 and now = 100 and et = EVENT_UPDATE])
    (auto simp: newCachedPredictorSource_def alloc_def processEvent_def offerToCache_def compareResourceVersion_def)


text \<open>
  C1. Cached versions never go back: along any run in which the name stays cached, the resource version
  of its entry does not decrease, and while the version is the same the entry is the same object.
\<close>

theorem cached_version_monotone:
  assumes "cs_inv s" and "cs_run n s t" and "cs_get n s = Some p"
  shows "\<exists>q v w. cs_get n t = Some q \<and> rv_of (cs_mem s p) = Some v \<and> rv_of (cs_mem t q) = Some w \<and>
     v \<le> w \<and> (v = w \<longrightarrow> q = p)"
  using cs_run_advances[OF assms(2,1,3)] by blast

lemma sample_run:
  "cs_run sample_name (sample_source None) (sample_source None)"
  by (rule cs_run.run_refl)

theorem cached_version_monotone_witness:
  "\<exists>t q w. cs_run sample_name (sample_source None) t \<and> cs_get sample_name t = Some q \<and>
     rv_of (cs_mem t q) = Some w \<and> 1 \<le> w \<and> q \<noteq> 0"
proof -
  define v where "v = sample_predictor ''2'' None"
  define s1 where "s1 = snd (alloc v (sample_source None))"
  have a: "alloc v (sample_source None) = (2, s1)"
    by (simp add: s1_def alloc_def sample_source_def newCachedPredictorSource_def)
  obtain r t where e: "processEvent 100 (Some 2) EVENT_UPDATE s1 = Some (r, t)" and t: "cs_get sample_name t = Some 2"
    by (simp add: s1_def v_def alloc_def sample_source_def newCachedPredictorSource_def processEvent_def
        offerToCache_def compareResourceVersion_def cs_get_def)
  have "cs_run sample_name (sample_source None) t"
    using cs_run.run_step[OF sample_run cs_step.event[OF _ a e]] t
    by (simp add: sample_source_def newCachedPredictorSource_def)
  with cached_version_monotone[OF sample_source_inv this, of 0] t show ?thesis
    by (auto simp: sample_source_def newCachedPredictorSource_def cs_get_def)
qed

text \<open>
  C4. \<open>pruneDeletions\<close> never panics and terminates; it drops from the queue exactly the deletions whose
  timestamp is before its cutoff (now plus 20 seconds), and from the cache exactly the entries
  that are such deletions; entries that were replaced by a newer object meanwhile stay.
\<close>

theorem pruneDeletions_exact:
  assumes "cs_inv s"
  shows "\<exists>t. pruneDeletions now s = Some t \<and> cs_inv t \<and>
     mset (cs_deletionQueue t) =
       filter_mset (\<lambda>p. now + 20 * Second \<le> ts_key (cs_mem s) p) (mset (cs_deletionQueue s)) \<and>
     (\<forall>n. cs_get n t =
        (case cs_get n s of
           None \<Rightarrow> None
         | Some p \<Rightarrow> if p \<in> set (cs_deletionQueue s) \<and> ts_key (cs_mem s) p < now + 20 * Second
                    then None else Some p)) \<and>
     cs_mem t = cs_mem s \<and> cs_lock t = cs_lock s"
  using pruneDeletions_total[OF assms] by metis

text \<open>The same source once version 2 has been cached as deleted at 98.\<close>

definition sample_deleted :: cachedPredictorSource where
  "sample_deleted = (sample_source (Some 98))\<lparr>cs_cache := [(sample_name, 1)], cs_deletionQueue := [1]\<rparr>"

lemma sample_deleted_inv: "cs_inv sample_deleted"
  by (auto simp: cs_inv_def sample_deleted_def sample_source_def newCachedPredictorSource_def queue_heap_def
      has_ts_def split: if_splits)

theorem pruneDeletions_exact_witness:
  "\<exists>t. pruneDeletions 100 sample_deleted = Some t \<and> cs_get sample_name t = None \<and> cs_deletionQueue t = []"
  using pruneDeletions_exact[OF sample_deleted_inv, of 100]
  by (auto simp: sample_deleted_def sample_source_def newCachedPredictorSource_def cs_get_def ts_key_def Second_def)


text \<open>The sample source in the middle of an event, with the lock.\<close>

lemma sample_locked_inv: "cs_inv (sample_deleted\<lparr>cs_lock := Some EventLoop, cs_lockHeld := True\<rparr>)"
  using sample_deleted_inv by (simp add: cs_inv_def)


text \<open>The complete effect of \<open>processEvent\<close> where it does not panic.\<close>

lemma processEvent_effect:
  assumes inv: "cs_inv s" and fr: "fresh_for p s" and name: "nn (cs_mem s p) = n"
    and cached: "has_ts (cs_mem s) p \<Longrightarrow> cs_get n s \<noteq> None"
  shows "\<exists>t. processEvent now (Some p) et s = Some (if newer_than_cached n p s then Some n else None, t) \<and>
     cs_inv t \<and> cs_next t = cs_next s \<and> cs_lockHeld t \<and>
     (\<forall>m. cs_get m t = (if newer_than_cached n p s \<and> m = n then Some p else cs_get m s)) \<and>
     (\<forall>q. q \<noteq> p \<longrightarrow> cs_mem t q = cs_mem s q) \<and>
     (\<forall>q. p_ResourceVersion (cs_mem t q) = p_ResourceVersion (cs_mem s q)) \<and>
     set (cs_deletionQueue t) \<subseteq> insert p (set (cs_deletionQueue s)) \<and>
     (newer_than_cached n p s \<longrightarrow> p_DeletionTimestamp (cs_mem t p) =
       map_option (\<lambda>ts. max (now - 2 * Second) (if et = EVENT_DELETE then zero_time else ts))
         (p_DeletionTimestamp (cs_mem s p)))"
proof -
  define s1 where "s1 = (if et = EVENT_DELETE \<and> p_DeletionTimestamp (cs_mem s p) \<noteq> None
     then s\<lparr>cs_mem := set_DeletionTimestamp p (Some zero_time) (cs_mem s)\<rparr> else s)"
  define s2 where "s2 = (if \<not> cs_lockHeld s1 then s1\<lparr>cs_lock := Some EventLoop, cs_lockHeld := True\<rparr> else s1)"
  have s2: "cs_cache s2 = cs_cache s" "\<And>q. q \<noteq> p \<Longrightarrow> cs_mem s2 q = cs_mem s q"
    "\<And>q. p_ResourceVersion (cs_mem s2 q) = p_ResourceVersion (cs_mem s q)"
    "cs_next s2 = cs_next s" "cs_lockHeld s2" "cs_deletionQueue s2 = cs_deletionQueue s" "nn (cs_mem s2 p) = n"
    "p_DeletionTimestamp (cs_mem s2 p) =
       map_option (\<lambda>ts. if et = EVENT_DELETE then zero_time else ts) (p_DeletionTimestamp (cs_mem s p))"
    by (auto simp: s2_def s1_def map_option.identity name)
  have "cs_inv s1" using inv fr by (simp add: s1_def set_DeletionTimestamp_inv)
  then have i2: "cs_inv s2" by (simp add: s2_def cs_inv_def)
  have f2: "fresh_for p s2" using fr s2(1,4,6) by (simp add: fresh_for_def)
  have new: "newer_than_cached n p s2 \<longleftrightarrow> newer_than_cached n p s"
    using s2(1,3) by (simp add: newer_than_cached_def cs_get_def cong: option.case_cong)
  obtain b t where off: "offerToCache now n p s2 = Some (b, t)"
    using cached offerToCache_None_iff[of now n p s2] s2(1,8) by (fastforce simp: cs_get_def has_ts_def)
  note tk = offerToCache_taken[OF off]
  have "processEvent now (Some p) et s = Some (if b then Some n else None, t)"
    unfolding processEvent_def option.case Let_def s1_def[symmetric] s2_def[symmetric] name
    by (simp add: off)
  moreover have "b \<longrightarrow> p_DeletionTimestamp (cs_mem t p) =
       map_option (max (now - 2 * Second)) (p_DeletionTimestamp (cs_mem s2 p))"
    using offerToCache_stamp[of now n p s2 t] off by simp
  moreover have "cs_get m t = (if b \<and> m = n then Some p else cs_get m s)" for m
    using tk(2) tk(3)[of m] s2(1) by (auto simp: cs_get_def)
  moreover have "set (cs_deletionQueue t) \<subseteq> insert p (set (cs_deletionQueue s))"
    using offerToCache_enqueues[OF i2 f2, of now n t] off offerToCache_refused[of n p s2 now] tk(1) s2(6)
    by (cases b) (auto dest!: arg_cong[where f = set_mset] split: if_splits)
  ultimately show ?thesis
    using offerToCache_inv[OF i2 f2 s2(7) off] tk(4,6,7,8) tk(1) new s2(2-5,8)
    by (auto simp: option.map_comp comp_def)
qed

text \<open>
  After a DELETE event whose object carries a deletion timestamp and a newer version than the
  cached one, the name is announced and \<open>Get\<close> no longer returns it, at that time or later;
  what \<open>Get\<close> returns for other names does not change.
\<close>

lemma delete_event_hides:
  assumes "cs_inv s" and "fresh_for p s" and "nn (cs_mem s p) = n" and "cs_get n s \<noteq> None"
    and "newer_than_cached n p s" and "has_ts (cs_mem s) p" and "zero_time < now" and "now \<le> later"
  shows "\<exists>t. processEvent now (Some p) EVENT_DELETE s = Some (Some n, t) \<and> cs_Get later n t = None \<and>
     (\<forall>m. m \<noteq> n \<longrightarrow> cs_Get later m t = cs_Get later m s)"
proof -
  obtain t where t: "processEvent now (Some p) EVENT_DELETE s = Some (Some n, t)" "cs_get n t = Some p"
    "\<forall>m. m \<noteq> n \<longrightarrow> cs_get m t = cs_get m s" "\<forall>q. q \<noteq> p \<longrightarrow> cs_mem t q = cs_mem s q"
    "p_DeletionTimestamp (cs_mem t p) = Some (max (now - 2 * Second) zero_time)"
    using processEvent_effect[OF assms(1-4), of now EVENT_DELETE] assms(5,6) by (auto simp: has_ts_def)
  have "cs_Get later n t = None"
    using t(2,5) assms(7,8) by (simp add: cs_Get_def isDeleted_def Second_def)
  moreover have "cs_Get later m t = cs_Get later m s" if "m \<noteq> n" for m
  proof -
    have "cs_get m s \<noteq> Some p" using assms(2) by (simp add: fresh_for_def cs_get_def)
    then show ?thesis using t(3,4) that by (auto simp: cs_Get_def split: option.splits)
  qed
  ultimately show ?thesis using t(1) by blast
qed

theorem delete_event_hides_witness:
  "\<exists>t. processEvent 100 (Some 1) EVENT_DELETE (sample_source (Some 7)) = Some (Some sample_name, t) \<and>
     cs_Get 100 sample_name t = None"
proof -
  have "zero_time < 100" by (simp add: zero_time_def)
  from delete_event_hides[OF sample_source_inv[of "Some 7"] sample_source_fresh[of "Some 7"] _ _
      sample_source_newer[of "Some 7"] _ this order_refl]
  show ?thesis by (auto simp: has_ts_def)
qed

text \<open>
  C7. A DELETE event whose object has no deletion timestamp is handled like an update: the object
  is cached and \<open>Get\<close> goes on returning the Predictor, at any later time. (The guard in
  \<open>processEvent\<close> sets the timestamp only when there is one already.)
\<close>

theorem delete_event_without_timestamp_stays_visible:
  assumes "cs_inv s" and "fresh_for p s" and "nn (cs_mem s p) = n" and "cs_get n s \<noteq> None"
    and "newer_than_cached n p s" and "\<not> has_ts (cs_mem s) p"
  shows "\<exists>t. processEvent now (Some p) EVENT_DELETE s = Some (Some n, t) \<and> cs_Get later n t = Some p"
proof -
  obtain t where "processEvent now (Some p) EVENT_DELETE s = Some (Some n, t)" "cs_get n t = Some p"
    "p_DeletionTimestamp (cs_mem t p) = None"
    using processEvent_effect[OF assms(1-4), of now EVENT_DELETE] assms(5,6) by (auto simp: has_ts_def)
  then show ?thesis by (auto simp: cs_Get_def isDeleted_def)
qed

theorem delete_event_without_timestamp_stays_visible_witness:
  "\<exists>t. processEvent 100 (Some 1) EVENT_DELETE (sample_source None) = Some (Some sample_name, t) \<and>
     cs_Get 1000 sample_name t = Some 1"
  by (rule delete_event_without_timestamp_stays_visible[OF sample_source_inv sample_source_fresh _ _
      sample_source_newer]) (simp_all add: has_ts_def)

text \<open>
  C6. \<open>Find\<close> and \<open>Get\<close> agree: \<open>Find\<close> reports a Predictor of the namespace that satisfies the predicate
  exactly when \<open>Get\<close> returns one under some name of that namespace.
\<close>

theorem cs_Find_iff_Get:
  assumes "cs_inv s"
  shows "cs_Find now namespace predicate s \<longleftrightarrow>
     (\<exists>n p. cs_Get now n s = Some p \<and> nn_Namespace n = namespace \<and> predicate (cs_mem s p))"
proof -
  have mem: "(n, p) \<in> set (cs_cache s) \<longleftrightarrow> cs_get n s = Some p" for n p
    using cs_invD(1)[OF assms] by (simp add: cs_get_def)
  have ns: "p_Namespace (cs_mem s p) = nn_Namespace n" if "cs_get n s = Some p" for n p
    using cs_invD(3)[OF assms, of n p] that by (auto simp: cs_get_def nn_def)
  show ?thesis
    using ns by (fastforce simp: cs_Find_def list_ex_iff mem cs_Get_def split: option.splits if_splits)
qed

theorem cs_Find_iff_Get_witness:
  "cs_Find 100 ''ns'' (\<lambda>_. True) (sample_source None)"
proof -
  have "cs_Get 100 sample_name (sample_source None) = Some 0" "nn_Namespace sample_name = ''ns''"
    by (simp add: cs_Get_def isDeleted_def) (simp add: sample_name_def)
  then show ?thesis
    using cs_Find_iff_Get[OF sample_source_inv[of None], of 100 "''ns''" "\<lambda>_. True"] by blast
qed

end
