(* ===== verification/Watch_Source.thy ===== *)
theory Watch_Source
  imports Cached_Source
begin

text \<open>
  The two predictor sources built on the cached one: refresh-and-watch
  (watchrefresh_predictor_source.go) and event stream (stream_predictor_source.go).

  The remote side (the \<open>PredictorWatcher\<close>, the event stream) is the sequence of answers it gives;
  the answers run out when the program is still waiting for the next one, and a function that is
  still in a loop then has the result \<open>None\<close>, as it has when the code panics. What the rest
  of the program does while the event loop waits for room in the output channel is the
  argument \<open>wait\<close>.
\<close>

section \<open>Shared pieces\<close>

type_synonym loop_state = "out_chan \<times> cachedPredictorSource"

definition empty_name :: NamespacedName where
  "empty_name = \<lparr>nn_Namespace = [], nn_Name = []\<rparr>"

definition new_outChan :: out_chan where
  "new_outChan = \<lparr>oc_buf = [], oc_cap = 128\<rparr>"

text \<open>
  An event for the initial channel content: it goes to the channel as long as there is room and
  then to the overflow slice. The slice is made with the capacity of the channel as its length.
\<close>

definition initial_event ::
  "NamespacedName \<Rightarrow> out_chan \<times> NamespacedName list option \<Rightarrow> out_chan \<times> NamespacedName list option" where
  "initial_event name = (\<lambda>(outChan, initialEvents).
     case initialEvents of
       Some es \<Rightarrow> (outChan, Some (es @ [name]))
     | None \<Rightarrow>
         (case offerChan outChan name of
            (True, outChan') \<Rightarrow> (outChan', None)
          | (False, _) \<Rightarrow> (outChan, Some (replicate (oc_cap outChan) empty_name @ [name]))))"

text \<open>A whole \<open>writeEvent\<close>, waiting included: when it goes on there is room for the event.\<close>

definition write_through :: "(loop_state \<Rightarrow> loop_state) \<Rightarrow> NamespacedName \<Rightarrow> loop_state \<Rightarrow> loop_state" where
  "write_through wait pe = (\<lambda>(oc, s).
     case writeEvent oc pe s of
       (Written oc', s') \<Rightarrow> (oc', s')
     | (WriteWaits, s') \<Rightarrow> (case wait (oc, s') of (oc', s'') \<Rightarrow> (oc'\<lparr>oc_buf := oc_buf oc' @ [pe]\<rparr>, s'')))"

text \<open>\<open>if pep := processEvent(p, et); pep != nil { writeEvent(outChan, pep) }\<close>, and whether it was written.\<close>

definition process_write ::
  "gotime \<Rightarrow> (loop_state \<Rightarrow> loop_state) \<Rightarrow> pptr option \<Rightarrow> EventType \<Rightarrow> loop_state \<Rightarrow> (bool \<times> loop_state) option" where
  "process_write now wait p et = (\<lambda>(oc, s).
     case processEvent now p et s of
       None \<Rightarrow> None
     | Some (None, s') \<Rightarrow> Some (False, oc, s')
     | Some (Some pe, s') \<Rightarrow> Some (True, write_through wait pe (oc, s')))"

section \<open>Refresh and watch (watchrefresh\_predictor\_source.go)\<close>

datatype watch_error = ERR_TOO_OLD | WatchError string

text \<open>The items of a list answer become objects of their own.\<close>

fun alloc_items :: "Predictor list \<Rightarrow> cachedPredictorSource \<Rightarrow> pptr list \<times> cachedPredictorSource" where
  "alloc_items [] s = ([], s)"
| "alloc_items (v # vs) s =
     (let (p, s1) = alloc v s; (ps, s2) = alloc_items vs s1 in (p # ps, s2))"

fun watch_populate ::
  "pptr list \<Rightarrow> cachedPredictorSource \<times> out_chan \<times> NamespacedName list option
     \<Rightarrow> cachedPredictorSource \<times> out_chan \<times> NamespacedName list option" where
  "watch_populate [] st = st"
| "watch_populate (p # ps) (w, chans) =
     (let name = nn (cs_mem w p)
      in watch_populate ps (w\<lparr>cs_cache := gomap_set name p (cs_cache w)\<rparr>, initial_event name chans))"

datatype start_error = AlreadyStarted | RefreshFailed string

text \<open>
  \<open>StartWatch\<close> up to the start of its goroutine: the channel, the overflow events the goroutine
  sends first and the resource version it watches from.
\<close>

definition watch_StartWatch ::
  "string + PredictorList \<Rightarrow> cachedPredictorSource
     \<Rightarrow> (start_error + (out_chan \<times> NamespacedName list option \<times> string)) \<times> cachedPredictorSource" where
  "watch_StartWatch refreshed w =
     (case cs_start w of
        None \<Rightarrow> (Inl AlreadyStarted, w)
      | Some w1 \<Rightarrow>
          (case refreshed of
             Inl err \<Rightarrow> (Inl (RefreshFailed err), w1\<lparr>cs_started := False\<rparr>)
           | Inr list \<Rightarrow>
               (let (ps, w2) = alloc_items (pl_Items list) w1;
                    (w3, outChan, initialEvents) = watch_populate ps (w2, new_outChan, None)
                in (Inr (outChan, initialEvents, pl_ResourceVersion list), w3))))"

text \<open>The refresh loop: repeat after a failure.\<close>

fun refresh_retry :: "(string + PredictorList) list \<Rightarrow> (PredictorList \<times> (string + PredictorList) list) option" where
  "refresh_retry [] = None"
| "refresh_retry (Inr list # answers) = Some (list, answers)"
| "refresh_retry (Inl err # answers) = refresh_retry answers"

fun refresh_items ::
  "gotime \<Rightarrow> (loop_state \<Rightarrow> loop_state) \<Rightarrow> pptr list \<Rightarrow> NamespacedName list \<Rightarrow> loop_state
     \<Rightarrow> (NamespacedName list \<times> loop_state) option" where
  "refresh_items now wait [] present st = Some (present, st)"
| "refresh_items now wait (p # ps) present st =
     (case process_write now wait (Some p) EVENT_UPDATE st of
        None \<Rightarrow> None
      | Some (_, st') \<Rightarrow> refresh_items now wait ps (nn (cs_mem (snd st') p) # present) st')"

fun refresh_deletes ::
  "gotime \<Rightarrow> (loop_state \<Rightarrow> loop_state) \<Rightarrow> string \<Rightarrow> NamespacedName list \<Rightarrow> loop_state \<Rightarrow> loop_state option" where
  "refresh_deletes now wait rv [] st = Some st"
| "refresh_deletes now wait rv (n # ns) (oc, w) =
     (let (p, w') = alloc (deletedPredictor n rv) w
      in case process_write now wait (Some p) EVENT_DELETE (oc, w') of
           None \<Rightarrow> None
         | Some (_, st) \<Rightarrow> refresh_deletes now wait rv ns st)"

definition refreshCache ::
  "gotime \<Rightarrow> (loop_state \<Rightarrow> loop_state) \<Rightarrow> (string + PredictorList) list \<Rightarrow> loop_state
     \<Rightarrow> (string \<times> (string + PredictorList) list \<times> loop_state) option" where
  "refreshCache now wait answers = (\<lambda>(outChan, w).
     case refresh_retry answers of
       None \<Rightarrow> None
     | Some (list, answers') \<Rightarrow>
         (let (ps, w1) = alloc_items (pl_Items list) w
          in case refresh_items now wait ps [] (outChan, w1) of
               None \<Rightarrow> None
             | Some (present, outChan', w2) \<Rightarrow>
                 (let toDelete = filter (\<lambda>n. n \<notin> set present) (map fst (cs_cache w2))
                  in map_option (\<lambda>st. (pl_ResourceVersion list, answers', st))
                       (refresh_deletes now wait (pl_ResourceVersion list) toDelete (outChan', w2)))))"

text \<open>
  The goroutine: establish a watch (giving up the lock before), then handle its events until it
  is closed. \<open>watches\<close> are the answers to the calls of \<open>Watch\<close>.
\<close>

fun watch_establish ::
  "gotime \<Rightarrow> (loop_state \<Rightarrow> loop_state) \<Rightarrow> (watch_error + in_chan) list \<Rightarrow> (string + PredictorList) list
     \<Rightarrow> string \<Rightarrow> loop_state
     \<Rightarrow> (in_chan \<times> (watch_error + in_chan) list \<times> (string + PredictorList) list \<times> string \<times> loop_state) option" where
  "watch_establish now wait [] answers rv st = None"
| "watch_establish now wait (Inr inChan # watches) answers rv st = Some (inChan, watches, answers, rv, st)"
| "watch_establish now wait (Inl (WatchError e) # watches) answers rv st =
     watch_establish now wait watches answers rv st"
| "watch_establish now wait (Inl ERR_TOO_OLD # watches) answers rv st =
     (case refreshCache now wait answers st of
        None \<Rightarrow> None
      | Some (rv', answers', st') \<Rightarrow> watch_establish now wait watches answers' rv' st')"

definition watch_begin :: "loop_state \<Rightarrow> loop_state" where
  "watch_begin = (\<lambda>(oc, w). (oc, if cs_lockHeld w then cs_unlock w else w))"

text \<open>One event of an established watch, with the resource version to watch from.\<close>

definition watch_event ::
  "gotime \<Rightarrow> (loop_state \<Rightarrow> loop_state) \<Rightarrow> PredictorStreamEvent \<Rightarrow> string \<times> loop_state \<Rightarrow> (string \<times> loop_state) option" where
  "watch_event now wait pse = (\<lambda>(rv, st).
     case process_write now wait (pse_Predictor pse) (pse_EventType pse) st of
       None \<Rightarrow> None
     | Some (True, st') \<Rightarrow>
         (case pse_Predictor pse of
            None \<Rightarrow> None
          | Some p \<Rightarrow> Some (p_ResourceVersion (cs_mem (snd st') p), st'))
     | Some (False, st') \<Rightarrow> Some (rv, st'))"

section \<open>Event stream (stream\_predictor\_source.go)\<close>

text \<open>What the \<open>select\<close> of \<open>StartWatch\<close> comes back with.\<close>

datatype stream_select = StreamEvent PredictorStreamEvent | StreamClosed | StreamDone string | StreamQuiet

datatype stream_error = StreamAlreadyStarted | StreamChannelClosed | StreamContext string

fun stream_initial ::
  "gotime \<Rightarrow> stream_select list \<Rightarrow> out_chan \<times> NamespacedName list option \<Rightarrow> cachedPredictorSource
     \<Rightarrow> ((stream_error + (out_chan \<times> NamespacedName list option)) \<times> cachedPredictorSource) option" where
  "stream_initial now [] chans s = None"
| "stream_initial now (StreamClosed # sels) chans s = Some (Inl StreamChannelClosed, s)"
| "stream_initial now (StreamDone e # sels) chans s = Some (Inl (StreamContext e), s)"
| "stream_initial now (StreamQuiet # sels) chans s = Some (Inr chans, s)"
| "stream_initial now (StreamEvent e # sels) chans s =
     (case processEvent now (pse_Predictor e) (pse_EventType e) s of
        None \<Rightarrow> None
      | Some (None, s') \<Rightarrow> stream_initial now sels chans s'
      | Some (Some pe, s') \<Rightarrow> stream_initial now sels (initial_event pe chans) s')"

definition stream_StartWatch ::
  "gotime \<Rightarrow> stream_select list \<Rightarrow> cachedPredictorSource
     \<Rightarrow> ((stream_error + (out_chan \<times> NamespacedName list option)) \<times> cachedPredictorSource) option" where
  "stream_StartWatch now sels s =
     (case cs_start s of
        None \<Rightarrow> Some (Inl StreamAlreadyStarted, s)
      | Some s1 \<Rightarrow> stream_initial now sels (new_outChan, None) s1)"

text \<open>One turn of the goroutine's loop after \<open>readEvent\<close> has returned an event.\<close>

definition stream_event ::
  "gotime \<Rightarrow> (loop_state \<Rightarrow> loop_state) \<Rightarrow> PredictorStreamEvent \<Rightarrow> loop_state \<Rightarrow> loop_state option" where
  "stream_event now wait pse st =
     map_option snd (process_write now wait (pse_Predictor pse) (pse_EventType pse) st)"

section \<open>The initial events\<close>

lemma initial_event_simps [simp]:
  "initial_event name (oc, Some es) = (oc, Some (es @ [name]))"
  "length (oc_buf oc) < oc_cap oc \<Longrightarrow> initial_event name (oc, None) = (oc\<lparr>oc_buf := oc_buf oc @ [name]\<rparr>, None)"
  "\<not> length (oc_buf oc) < oc_cap oc \<Longrightarrow>
     initial_event name (oc, None) = (oc, Some (replicate (oc_cap oc) empty_name @ [name]))"
  by (simp_all add: initial_event_def offerChan_def)

lemma initial_event_fold:
  assumes "length (oc_buf oc) \<le> oc_cap oc"
  shows "fold initial_event names (oc, None) =
     (oc\<lparr>oc_buf := oc_buf oc @ take (oc_cap oc - length (oc_buf oc)) names\<rparr>,
      if length names \<le> oc_cap oc - length (oc_buf oc) then None
      else Some (replicate (oc_cap oc) empty_name @ drop (oc_cap oc - length (oc_buf oc)) names))"
proof -
  have over: "fold initial_event ns (c, Some es) = (c, Some (es @ ns))" for ns c es
    by (induction ns arbitrary: es) simp_all
  show ?thesis
    using assms
  proof (induction names arbitrary: oc)
    case Nil
    then show ?case by simp
  next
    case (Cons n ns)
    show ?case
    proof (cases "length (oc_buf oc) < oc_cap oc")
      case True
      then have r: "oc_cap oc - length (oc_buf oc) = Suc (oc_cap oc - Suc (length (oc_buf oc)))" by simp
      show ?thesis
        using Cons.IH[of "oc\<lparr>oc_buf := oc_buf oc @ [n]\<rparr>"] True
        by (simp add: r)
    next
      case False
      then show ?thesis using Cons.prems by (simp add: over)
    qed
  qed
qed

lemma watch_populate_fold:
  "watch_populate ps (w, chans) =
     (w\<lparr>cs_cache := fold (\<lambda>p. gomap_set (nn (cs_mem w p)) p) ps (cs_cache w)\<rparr>,
      fold initial_event (map (\<lambda>p. nn (cs_mem w p)) ps) chans)"
  by (induction ps arbitrary: w chans) (simp_all add: Let_def)

lemma alloc_items_effect:
  assumes "cs_inv s" and "alloc_items vs s = (ps, t)"
  shows "cs_inv t \<and> ps = [cs_next s ..< cs_next s + length vs] \<and> cs_next t = cs_next s + length vs \<and>
     map (cs_mem t) ps = vs \<and> cs_cache t = cs_cache s \<and> cs_deletionQueue t = cs_deletionQueue s \<and>
     (\<forall>q < cs_next s. cs_mem t q = cs_mem s q) \<and> cs_lock t = cs_lock s \<and> cs_lockHeld t = cs_lockHeld s \<and>
     cs_started t = cs_started s"
  using assms
proof (induction vs arbitrary: s ps)
  case Nil
  then show ?case by simp
next
  case (Cons v vs)
  obtain s1 where a: "alloc v s = (cs_next s, s1)" and s1: "cs_next s1 = Suc (cs_next s)" "cs_started s1 = cs_started s"
    by (simp add: alloc_def)
  obtain qs where q: "alloc_items vs s1 = (qs, t)" "ps = cs_next s # qs"
    using Cons.prems(2) a by (auto split: prod.splits)
  note ih = Cons.IH[OF alloc_inv(1)[OF Cons.prems(1) a] q(1)]
  have "[cs_next s ..< cs_next s + length (v # vs)] = cs_next s # [cs_next s1 ..< cs_next s1 + length vs]"
    using s1(1) by (simp add: upt_conv_Cons del: upt_Suc)
  then show ?case
    using ih q(2) s1 alloc_inv(3-9)[OF Cons.prems(1) a] by (auto simp del: upt_Suc)
qed

lemma gomap_fold_set:
  "gomap_get (fold (\<lambda>p. gomap_set (f p) p) ps c) n =
     (case find (\<lambda>p. f p = n) (rev ps) of Some p \<Rightarrow> Some p | None \<Rightarrow> gomap_get c n)"
  by (induction ps rule: rev_induct) auto

lemma find_append: "find P (xs @ ys) = (case find P xs of None \<Rightarrow> find P ys | Some x \<Rightarrow> Some x)"
  by (induction xs) auto

lemma find_rev_distinct:
  assumes "distinct (map f ps)"
  shows "find (\<lambda>p. f p = n) (rev ps) = find (\<lambda>p. f p = n) ps"
proof -
  have none: "find (\<lambda>p. f p = n) (rev xs) = None \<longleftrightarrow> n \<notin> f ` set xs" for xs
    by (auto simp: find_None_iff)
  show ?thesis
    using assms none by (induction ps) (auto simp: find_append split: option.splits, metis option.distinct(1))
qed

lemma find_map_inj:
  "find P (map f xs) = map_option f (find (\<lambda>x. P (f x)) xs)"
  by (induction xs) auto

text \<open>
  C8. \<open>StartWatch\<close> of the watch source on a fresh source and an answered refresh. The cache is fully
  populated: a name is cached exactly when the list has it, with the listed Predictor. One event per
  listed Predictor, in order, is announced; the first 128 are in the channel at once. If there
  are more, the goroutine first sends 128 events with an empty name and then the remaining ones.
\<close>

theorem watch_StartWatch_populates:
  assumes "cs_inv w" and "\<not> cs_started w" and "cs_cache w = []" and "distinct (map nn (pl_Items list))"
  shows "\<exists>outChan initialEvents w'.
     watch_StartWatch (Inr list) w = (Inr (outChan, initialEvents, pl_ResourceVersion list), w') \<and>
     cs_started w' \<and> cs_lockHeld w' = cs_lockHeld w \<and>
     (\<forall>n. map_option (cs_mem w') (cs_get n w') = find (\<lambda>v. nn v = n) (pl_Items list)) \<and>
     oc_buf outChan = take 128 (map nn (pl_Items list)) \<and>
     initialEvents = (if length (pl_Items list) \<le> 128 then None
        else Some (replicate 128 empty_name @ drop 128 (map nn (pl_Items list))))"
proof -
  let ?w1 = "w\<lparr>cs_started := True\<rparr>"
  obtain ps w2 where a: "alloc_items (pl_Items list) ?w1 = (ps, w2)" by fastforce
  have "cs_inv ?w1" using assms(1) by (simp add: cs_inv_def)
  note eff = alloc_items_effect[OF this a]
  define names where "names = map (\<lambda>p. nn (cs_mem w2 p)) ps"
  have items: "map (cs_mem w2) ps = pl_Items list" using eff by blast
  have names: "names = map nn (pl_Items list)" by (simp add: names_def flip: items)
  have len: "length ps = length (pl_Items list)" using eff by (metis length_map)
  have "find (\<lambda>p. nn (cs_mem w2 p) = n) (rev ps) = find (\<lambda>p. nn (cs_mem w2 p) = n) ps" for n
  proof -
    have "distinct (map (\<lambda>p. nn (cs_mem w2 p)) ps)" using assms(4) names names_def by simp
    then show ?thesis by (rule find_rev_distinct)
  qed
  then have get: "map_option (cs_mem w2) (gomap_get (fold (\<lambda>p. gomap_set (nn (cs_mem w2 p)) p) ps []) n) =
      find (\<lambda>v. nn v = n) (pl_Items list)" for n
    by (auto simp: gomap_fold_set find_map_inj split: option.splits simp flip: items)
  define oc where "oc = new_outChan\<lparr>oc_buf := take 128 names\<rparr>"
  define ie where "ie = (if length names \<le> 128 then None else Some (replicate 128 empty_name @ drop 128 names))"
  have chans: "fold initial_event names (new_outChan, None) = (oc, ie)"
    using initial_event_fold[of new_outChan names] by (simp add: oc_def ie_def new_outChan_def)
  define w3 where "w3 = w2\<lparr>cs_cache := fold (\<lambda>p. gomap_set (nn (cs_mem w2 p)) p) ps []\<rparr>"
  have "cs_cache w2 = []" using eff assms(3) by simp
  then have "watch_StartWatch (Inr list) w = (Inr (oc, ie, pl_ResourceVersion list), w3)"
    using assms(2) a chans
    by (simp add: watch_StartWatch_def cs_start_def watch_populate_fold w3_def flip: names_def)
  moreover have "cs_started w3" "cs_lockHeld w3 = cs_lockHeld w" using eff by (simp_all add: w3_def)
  moreover have "map_option (cs_mem w3) (cs_get n w3) = find (\<lambda>v. nn v = n) (pl_Items list)" for n
    using get[of n] by (simp add: w3_def cs_get_def)
  moreover have "oc_buf oc = take 128 (map nn (pl_Items list))" by (simp add: oc_def names)
  moreover have "ie = (if length (pl_Items list) \<le> 128 then None
        else Some (replicate 128 empty_name @ drop 128 (map nn (pl_Items list))))"
    by (simp add: ie_def names)
  ultimately show ?thesis by blast
qed

text \<open>A list with one Predictor.\<close>

definition sample_list :: PredictorList where
  "sample_list = \<lparr>pl_ResourceVersion = ''2'', pl_Items = [sample_predictor ''1'' None]\<rparr>"

theorem watch_StartWatch_populates_witness:
  "\<exists>outChan w'. watch_StartWatch (Inr sample_list) (newCachedPredictorSource ''k'' [] (\<lambda>_. zero_Predictor) 0) =
      (Inr (outChan, None, ''2''), w') \<and> oc_buf outChan = [sample_name] \<and>
      map_option (cs_mem w') (cs_get sample_name w') = Some (sample_predictor ''1'' None)"
proof -
  let ?w = "newCachedPredictorSource ''k'' [] (\<lambda>_. zero_Predictor) 0"
  have "\<not> cs_started ?w" "cs_cache ?w = []" "distinct (map nn (pl_Items sample_list))"
    by (simp_all add: newCachedPredictorSource_def sample_list_def)
  from watch_StartWatch_populates[OF cs_inv_new this]
  obtain oc ie w' where r: "watch_StartWatch (Inr sample_list) ?w = (Inr (oc, ie, pl_ResourceVersion sample_list), w')"
    "oc_buf oc = take 128 (map nn (pl_Items sample_list))"
    "map_option (cs_mem w') (cs_get sample_name w') = find (\<lambda>v. nn v = sample_name) (pl_Items sample_list)"
    "ie = (if length (pl_Items sample_list) \<le> 128 then None
        else Some (replicate 128 empty_name @ drop 128 (map nn (pl_Items sample_list))))" by metis
  then show ?thesis by (simp add: sample_list_def)
qed

section \<open>Refreshing the cache while status updates go on\<close>

text \<open>What others may do to the source while the event loop waits: complete status updates.\<close>

inductive status_step :: "cachedPredictorSource \<Rightarrow> cachedPredictorSource \<Rightarrow> bool" where
  updated: "cs_lock s = None \<Longrightarrow> alloc v s = (p, s1) \<Longrightarrow> nn v = name \<Longrightarrow>
     UpdateStatus_finish now name (Inr (Some p, rv, ok)) s1 = Some (ur, t) \<Longrightarrow> status_step s t"
| gone: "cs_lock s = None \<Longrightarrow>
     UpdateStatus_finish now name (Inr (None, rv, ok)) s = Some (ur, t) \<Longrightarrow> status_step s t"

text \<open>
  The source evolves: no entry is lost, and an entry is either the same unchanged object or one
  of a newer version.
\<close>

definition cache_evolves :: "cachedPredictorSource \<Rightarrow> cachedPredictorSource \<Rightarrow> bool" where
  "cache_evolves s t \<longleftrightarrow> cs_inv t \<and> cs_next s \<le> cs_next t \<and>
     (\<forall>q < cs_next s. nn (cs_mem t q) = nn (cs_mem s q)) \<and>
     (\<forall>n p. cs_get n s = Some p \<longrightarrow> (\<exists>q a b. cs_get n t = Some q \<and> rv_of (cs_mem s p) = Some a \<and>
        rv_of (cs_mem t q) = Some b \<and> a \<le> b \<and> (a = b \<longrightarrow> q = p \<and> cs_mem t p = cs_mem s p)))"

text \<open>Pointers the source does not hold stay out of it, and their objects unchanged.\<close>

definition keeps_fresh :: "pptr set \<Rightarrow> cachedPredictorSource \<Rightarrow> cachedPredictorSource \<Rightarrow> bool" where
  "keeps_fresh except s t \<longleftrightarrow>
     (\<forall>q. fresh_for q s \<and> q \<notin> except \<longrightarrow> fresh_for q t \<and> cs_mem t q = cs_mem s q)"

lemma cache_evolves_refl: "cs_inv s \<Longrightarrow> cache_evolves s s"
  using cs_invD(4)[of s] by (fastforce simp: cache_evolves_def cs_get_def)

lemma cache_evolves_trans:
  assumes st: "cache_evolves s t" and tu: "cache_evolves t u"
  shows "cache_evolves s u"
proof -
  have "\<exists>r a c. cs_get n u = Some r \<and> rv_of (cs_mem s p) = Some a \<and> rv_of (cs_mem u r) = Some c \<and> a \<le> c \<and>
      (a = c \<longrightarrow> r = p \<and> cs_mem u p = cs_mem s p)" if g: "cs_get n s = Some p" for n p
  proof -
    obtain q a b where q: "cs_get n t = Some q" "rv_of (cs_mem s p) = Some a" "rv_of (cs_mem t q) = Some b" "a \<le> b"
      "a = b \<longrightarrow> q = p \<and> cs_mem t p = cs_mem s p" using st g unfolding cache_evolves_def by blast
    obtain r c where "cs_get n u = Some r" "rv_of (cs_mem u r) = Some c" "b \<le> c"
      "b = c \<longrightarrow> r = q \<and> cs_mem u q = cs_mem t q"
      using tu q(1,3) unfolding cache_evolves_def by (metis option.inject)
    then show ?thesis using q by (intro exI[of _ r] exI[of _ a] exI[of _ c]) auto
  qed
  then show ?thesis using st tu by (auto simp: cache_evolves_def)
qed

lemma keeps_fresh_trans:
  "keeps_fresh A s t \<Longrightarrow> keeps_fresh B t u \<Longrightarrow> keeps_fresh (A \<union> B) s u"
  unfolding keeps_fresh_def by (metis UnI1 UnI2)

text \<open>An operation that at most puts one pointer, new to the source, into it.\<close>

lemma evolves_by_one:
  assumes inv: "cs_inv s" and inv': "cs_inv t" and nxt: "cs_next s \<le> cs_next t" and fr: "fresh_for p s \<or> cs_next s \<le> p"
    and get: "\<And>n. cs_get n t = cs_get n s \<or> cs_get n t = Some p" and adv: "\<And>n. entry_advances n s t"
    and queue: "set (cs_deletionQueue t) \<subseteq> insert p (set (cs_deletionQueue s))"
    and mem: "\<And>q. q < cs_next s \<Longrightarrow> q \<noteq> p \<Longrightarrow> cs_mem t q = cs_mem s q"
    and name: "nn (cs_mem t p) = nn (cs_mem s p)"
  shows "cache_evolves s t" and "keeps_fresh {p} s t"
proof -
  have "\<exists>q a b. cs_get n t = Some q \<and> rv_of (cs_mem s c) = Some a \<and> rv_of (cs_mem t q) = Some b \<and> a \<le> b \<and>
      (a = b \<longrightarrow> q = c \<and> cs_mem t c = cs_mem s c)" if c: "cs_get n s = Some c" for n c
  proof -
    obtain a where a: "rv_of (cs_mem s c) = Some a" and lt: "c < cs_next s"
      using cs_invD(2,4)[OF inv, of n c] c by (auto simp: cs_get_def)
    have ne: "c \<noteq> p" using fr c lt by (auto simp: fresh_for_def cs_get_def)
    have m: "cs_mem t c = cs_mem s c" using mem lt ne by blast
    show ?thesis using get[of n] adv[of n] c a m ne by (auto simp: entry_advances_def)
  qed
  moreover have "nn (cs_mem t q) = nn (cs_mem s q)" if "q < cs_next s" for q
    using mem[OF that] name by (cases "q = p") auto
  ultimately show "cache_evolves s t" using inv' nxt by (simp add: cache_evolves_def)
  show "keeps_fresh {p} s t"
    unfolding keeps_fresh_def
  proof (intro allI impI)
    fix q assume q: "fresh_for q s \<and> q \<notin> {p}"
    then have "q < cs_next s" "q \<notin> set (cs_deletionQueue s)" "\<And>n. cs_get n s \<noteq> Some q"
      by (simp_all add: fresh_for_def cs_get_def)
    then show "fresh_for q t \<and> cs_mem t q = cs_mem s q"
      using q mem[of q] nxt queue get by (auto simp: fresh_for_def simp flip: cs_get_def) (metis option.inject)+
  qed
qed

lemma offerToCache_nn:
  "offerToCache now name p s = Some (b, t) \<Longrightarrow> nn (cs_mem t q) = nn (cs_mem s q)"
  by (auto simp: offerToCache_def Let_def split: sum.splits bool.splits option.splits if_splits)

lemma processEvent_nn:
  "processEvent now (Some p) et s = Some (r, t) \<Longrightarrow> nn (cs_mem t q) = nn (cs_mem s q)"
  by (auto simp: processEvent_def Let_def dest!: offerToCache_nn[where q = q] split: if_splits)

lemma locked_offer_evolves:
  assumes inv: "cs_inv s" and free: "cs_lock s = None" and fr: "fresh_for p s" and name: "nn (cs_mem s p) = name"
    and off: "offerToCache now name p (s\<lparr>cs_lock := Some StatusUpdate\<rparr>) = Some (b, t)"
  shows "cache_evolves s (t\<lparr>cs_lock := None\<rparr>)" and "keeps_fresh {p} s (t\<lparr>cs_lock := None\<rparr>)"
proof -
  let ?s = "s\<lparr>cs_lock := Some StatusUpdate\<rparr>" and ?t = "t\<lparr>cs_lock := None\<rparr>"
  note tk = offerToCache_taken[OF off]
  have i: "cs_inv ?s" and f: "fresh_for p ?s"
    using inv free fr by (simp_all add: cs_inv_def fresh_for_def)
  have get: "cs_get n ?t = cs_get n s \<or> cs_get n ?t = Some p" for n
    using tk(2) tk(3)[of n] by (auto simp: cs_get_def)
  have queue: "set (cs_deletionQueue ?t) \<subseteq> insert p (set (cs_deletionQueue s))"
    using offerToCache_enqueues[OF i f, of now name t] off offerToCache_refused[of name p ?s now] tk(1)
    by (cases b) (auto dest!: arg_cong[where f = set_mset] split: if_splits)
  have "cs_next s \<le> cs_next ?t" "\<And>q. q < cs_next s \<Longrightarrow> q \<noteq> p \<Longrightarrow> cs_mem ?t q = cs_mem s q"
    using tk(4,7) by simp_all
  then show "cache_evolves s ?t" and "keeps_fresh {p} s ?t"
    using evolves_by_one[OF inv locked_offer_step(1)[OF inv free fr name off] _ _ get
        locked_offer_step(2)[OF inv free fr name off] queue] fr offerToCache_nn[OF off, of p] by simp_all
qed

lemma cache_evolves_alloc:
  assumes "cs_inv s" and "alloc v s = (p, t)"
  shows "cache_evolves s t" and "keeps_fresh {} s t"
proof -
  note a = alloc_inv[OF assms]
  show "cache_evolves s t"
    using a(1,4,5,6) cs_invD(2,4)[OF assms(1)] unfolding cache_evolves_def cs_get_def by fastforce
  show "keeps_fresh {} s t"
    using a(4,5,6,9) by (auto simp: keeps_fresh_def fresh_for_def)
qed

lemma UpdateStatus_finish_offers:
  "UpdateStatus_finish now name (Inr (Some p, rv, ok)) s = Some (ur, t) \<longleftrightarrow>
     ur = Inr ok \<and> (\<exists>b u. offerToCache now name p (s\<lparr>cs_lock := Some StatusUpdate\<rparr>) = Some (b, u) \<and>
       t = u\<lparr>cs_lock := None\<rparr>)"
  by (auto simp: UpdateStatus_finish_def)

lemma UpdateStatus_finish_gone:
  assumes "alloc (deletedPredictor name rv) s = (p, s1)"
  shows "UpdateStatus_finish now name (Inr (None, rv, ok)) s = UpdateStatus_finish now name (Inr (Some p, rv, False)) s1"
  using assms by (simp add: UpdateStatus_finish_def)

lemma nn_deletedPredictor [simp]: "nn (deletedPredictor name rv) = name"
  by (simp add: deletedPredictor_def nn_def zero_Predictor_def zero_Meta_def)

lemma status_step_evolves:
  assumes "status_step s t" and inv: "cs_inv s"
  shows "cache_evolves s t" and "keeps_fresh {} s t"
proof -
  from assms(1) obtain v p s1 now name rv ok ur where free: "cs_lock s = None" and a: "alloc v s = (p, s1)"
    and name: "nn v = name" and fin: "UpdateStatus_finish now name (Inr (Some p, rv, ok)) s1 = Some (ur, t)"
  proof cases
    case (gone now name rv ok ur)
    obtain p s1 where "alloc (deletedPredictor name rv) s = (p, s1)" by fastforce
    then show thesis using gone that[of "deletedPredictor name rv" p s1 name] UpdateStatus_finish_gone by simp
  qed blast
  note ai = alloc_inv[OF inv a]
  obtain b u where off: "offerToCache now name p (s1\<lparr>cs_lock := Some StatusUpdate\<rparr>) = Some (b, u)"
    and t: "t = u\<lparr>cs_lock := None\<rparr>" using fin by (auto simp: UpdateStatus_finish_offers)
  have "cs_lock s1 = None" "nn (cs_mem s1 p) = name" using ai(3,7) free name by simp_all
  note ev = locked_offer_evolves[OF ai(1) this(1) ai(2) this(2) off]
  show "cache_evolves s t"
    using cache_evolves_trans[OF cache_evolves_alloc(1)[OF inv a] ev(1)] t by simp
  have "p \<notin> {q. fresh_for q s}" using a by (auto simp: alloc_def fresh_for_def)
  then show "keeps_fresh {} s t"
    using keeps_fresh_trans[OF cache_evolves_alloc(2)[OF inv a] ev(2)] t by (auto simp: keeps_fresh_def)
qed

lemma status_steps_evolve:
  assumes "status_step\<^sup>*\<^sup>* s t" and inv: "cs_inv s"
  shows "cache_evolves s t \<and> keeps_fresh {} s t"
  using assms(1)
proof (induction rule: rtranclp_induct)
  case base
  then show ?case using inv by (simp add: cache_evolves_refl keeps_fresh_def)
next
  case (step t u)
  then have "cs_inv t" by (simp add: cache_evolves_def)
  from status_step_evolves[OF step.hyps(2) this] step.IH show ?case
    using cache_evolves_trans keeps_fresh_trans[of "{}" s t "{}" u] by auto
qed

lemma write_through_evolves:
  assumes inv: "cs_inv s" and waits: "\<And>st. status_step\<^sup>*\<^sup>* (snd st) (snd (wait st))"
    and w: "write_through wait pe (oc, s) = (oc', t)"
  shows "cache_evolves s t \<and> keeps_fresh {} s t"
proof -
  obtain wr u where we: "writeEvent oc pe s = (wr, u)" by fastforce
  have u: "cs_inv u" "cache_evolves s u" "keeps_fresh {} s u"
  proof -
    have eq: "u = s \<or> u = cs_unlock s"
      using we by (auto simp: writeEvent_def Let_def split: if_splits prod.splits bool.splits)
    show "cs_inv u" by (rule writeEvent_step(1)[OF inv we])
    then show "cache_evolves s u" and "keeps_fresh {} s u"
      using eq cache_evolves_refl[OF inv]
      by (auto simp: cache_evolves_def keeps_fresh_def fresh_for_def cs_unlock_def cs_get_def)
  qed
  have "t = u \<or> t = snd (wait (oc, u))"
    using w we by (auto simp: write_through_def split: write_result.splits prod.splits)
  moreover have "cache_evolves u (snd (wait (oc, u))) \<and> keeps_fresh {} u (snd (wait (oc, u)))"
    using status_steps_evolve[OF _ u(1)] waits[of "(oc, u)"] by simp
  ultimately show ?thesis
    using u(2,3) cache_evolves_trans keeps_fresh_trans[of "{}" s u "{}"] by fastforce
qed

text \<open>Nobody else uses the source meanwhile.\<close>

definition quiet :: "(loop_state \<Rightarrow> loop_state) \<Rightarrow> bool" where
  "quiet wait \<longleftrightarrow> (\<forall>st. snd (wait st) = snd st)"

lemma write_through_quiet:
  assumes q: "quiet wait" and w: "write_through wait pe (oc, s) = (oc', t)"
  shows "cs_get m t = cs_get m s" and "cs_mem t = cs_mem s"
proof -
  obtain wr u where we: "writeEvent oc pe s = (wr, u)" by fastforce
  have eq: "u = s \<or> u = cs_unlock s"
    using we by (auto simp: writeEvent_def Let_def split: if_splits prod.splits bool.splits)
  have "t = u \<or> t = snd (wait (oc, u))"
    using w we by (auto simp: write_through_def split: write_result.splits prod.splits)
  then have "t = u" using q by (auto simp: quiet_def)
  then show "cs_get m t = cs_get m s" and "cs_mem t = cs_mem s"
    using eq by (auto simp: cs_unlock_def cs_get_def)
qed

text \<open>
  One event handled and announced, others interleaved: the name has an entry of at least the offered
  version afterwards, and if the offer was taken and nothing newer came, it is the offered object.
\<close>

lemma process_write_step:
  assumes inv: "cs_inv s" and fr: "fresh_for p s" and name: "nn (cs_mem s p) = n" and v: "rv_of (cs_mem s p) = Some v"
    and cached: "has_ts (cs_mem s) p \<Longrightarrow> cs_get n s \<noteq> None"
    and waits: "\<And>st. status_step\<^sup>*\<^sup>* (snd st) (snd (wait st))"
  shows "\<exists>b oc' t. process_write now wait (Some p) et (oc, s) = Some (b, oc', t) \<and> cache_evolves s t \<and>
     keeps_fresh {p} s t \<and> (\<exists>q w. cs_get n t = Some q \<and> rv_of (cs_mem t q) = Some w \<and> v \<le> w \<and>
       (newer_than_cached n p s \<and> w = v \<longrightarrow> q = p \<and> p_DeletionTimestamp (cs_mem t p) =
         map_option (\<lambda>ts. max (now - 2 * Second) (if et = EVENT_DELETE then zero_time else ts))
           (p_DeletionTimestamp (cs_mem s p)))) \<and>
     (quiet wait \<longrightarrow> (newer_than_cached n p s \<longrightarrow> cs_get n t = Some p \<and> rv_of (cs_mem t p) = Some v) \<and>
       (\<forall>m. m \<noteq> n \<longrightarrow> cs_get m t = cs_get m s) \<and> (\<forall>q. q \<noteq> p \<longrightarrow> cs_mem t q = cs_mem s q))"
proof -
  define new where "new = newer_than_cached n p s"
  obtain u where u: "processEvent now (Some p) et s = Some (if new then Some n else None, u)"
    "cs_inv u" "cs_next u = cs_next s" "\<And>m. cs_get m u = (if new \<and> m = n then Some p else cs_get m s)"
    "\<And>q. q \<noteq> p \<Longrightarrow> cs_mem u q = cs_mem s q"
    "\<And>q. p_ResourceVersion (cs_mem u q) = p_ResourceVersion (cs_mem s q)"
    "set (cs_deletionQueue u) \<subseteq> insert p (set (cs_deletionQueue s))"
    "new \<Longrightarrow> p_DeletionTimestamp (cs_mem u p) =
       map_option (\<lambda>ts. max (now - 2 * Second) (if et = EVENT_DELETE then zero_time else ts))
         (p_DeletionTimestamp (cs_mem s p))"
    using processEvent_effect[OF inv fr name cached, of now et] unfolding new_def by blast
  have su: "cache_evolves s u" "keeps_fresh {p} s u"
    using evolves_by_one[OF inv u(2) _ _ _ processEvent_step(2)[OF inv fr u(1)] u(7) u(5) processEvent_nn[OF u(1)]]
      u(3,4) fr by auto
  have entry: "\<exists>q w. cs_get n u = Some q \<and> rv_of (cs_mem u q) = Some w \<and> v \<le> w \<and> (new \<longrightarrow> q = p)"
  proof (cases new)
    case True
    then show ?thesis using u(4,6) v by auto
  next
    case False
    then obtain c w where "cs_get n s = Some c" "rv_of (cs_mem s c) = Some w" "v \<le> w"
      using v cs_invD(4)[OF inv, of n]
      by (cases "cs_get n s") (auto simp: new_def newer_than_cached_def cs_get_def not_less)
    then show ?thesis using u(4,6) False by auto
  qed
  show ?thesis
  proof (cases new)
    case True
    obtain oc' t where w: "write_through wait n (oc, u) = (oc', t)" by fastforce
    have pw: "process_write now wait (Some p) et (oc, s) = Some (True, oc', t)"
      using u(1) True w by (simp add: process_write_def)
    have ut: "cache_evolves u t" "keeps_fresh {} u t" using write_through_evolves[OF u(2) waits w] by simp_all
    have gp: "cs_get n u = Some p" and rp: "rv_of (cs_mem u p) = Some v" using u(4,6) True v by simp_all
    from ut(1) gp rp obtain q w where "cs_get n t = Some q" "rv_of (cs_mem t q) = Some w" "v \<le> w"
      "v = w \<longrightarrow> q = p \<and> cs_mem t p = cs_mem u p" unfolding cache_evolves_def by (metis option.inject)
    moreover have "cs_get m t = cs_get m u \<and> cs_mem t = cs_mem u" if "quiet wait" for m
      using write_through_quiet[OF that w] by simp
    ultimately show ?thesis
      using pw gp rp u(4,5) u(8)[OF True] cache_evolves_trans[OF su(1) ut(1)] keeps_fresh_trans[OF su(2) ut(2)]
      by (auto simp: new_def)
  next
    case False
    then show ?thesis using u(1,4,5) su entry unfolding new_def[symmetric] by (auto simp: process_write_def)
  qed
qed

lemma cache_evolves_at_least:
  assumes "cache_evolves s t" and "cs_get n s = Some p" and "rv_of (cs_mem s p) = Some a" and "v \<le> a"
  shows "\<exists>q w. cs_get n t = Some q \<and> rv_of (cs_mem t q) = Some w \<and> v \<le> w"
  using assms unfolding cache_evolves_def by (metis option.inject order_trans)

lemma refresh_items_step:
  assumes waits: "\<And>st. status_step\<^sup>*\<^sup>* (snd st) (snd (wait st))"
    and "cs_inv s" and "distinct ps"
    and "\<And>p. p \<in> set ps \<Longrightarrow> fresh_for p s \<and> p_DeletionTimestamp (cs_mem s p) = None \<and> rv_of (cs_mem s p) \<noteq> None"
  shows "\<exists>present' oc' t. refresh_items now wait ps present (oc, s) = Some (present', oc', t) \<and> cache_evolves s t \<and>
     set present' = set present \<union> (\<lambda>p. nn (cs_mem s p)) ` set ps \<and>
     (\<forall>p \<in> set ps. \<exists>q v w. cs_get (nn (cs_mem s p)) t = Some q \<and> rv_of (cs_mem s p) = Some v \<and>
        rv_of (cs_mem t q) = Some w \<and> v \<le> w) \<and>
     (quiet wait \<longrightarrow> (\<forall>m. m \<notin> (\<lambda>p. nn (cs_mem s p)) ` set ps \<longrightarrow> cs_get m t = cs_get m s) \<and>
        (\<forall>q. q \<notin> set ps \<longrightarrow> cs_mem t q = cs_mem s q))"
  using assms(2-4)
proof (induction ps arbitrary: present oc s)
  case Nil
  then show ?case by (simp add: cache_evolves_refl)
next
  case (Cons p ps)
  obtain v where p: "fresh_for p s" "p_DeletionTimestamp (cs_mem s p) = None" "rv_of (cs_mem s p) = Some v"
    using Cons.prems(3)[of p] by auto
  have pn: "p < cs_next s" using p(1) by (simp add: fresh_for_def)
  obtain b oc1 u q w where u: "process_write now wait (Some p) EVENT_UPDATE (oc, s) = Some (b, oc1, u)"
    "cache_evolves s u" "keeps_fresh {p} s u" "cs_get (nn (cs_mem s p)) u = Some q" "rv_of (cs_mem u q) = Some w" "v \<le> w"
    "quiet wait \<Longrightarrow> (\<forall>m. m \<noteq> nn (cs_mem s p) \<longrightarrow> cs_get m u = cs_get m s) \<and> (\<forall>q. q \<noteq> p \<longrightarrow> cs_mem u q = cs_mem s q)"
    using process_write_step[OF Cons.prems(1) p(1) refl p(3) _ waits, where now = now and et = EVENT_UPDATE and oc = oc]
      p(2) unfolding has_ts_def by blast
  have iu: "cs_inv u" and nnp: "nn (cs_mem u p) = nn (cs_mem s p)"
    using u(2) pn by (simp_all add: cache_evolves_def)
  have keep: "fresh_for x u \<and> cs_mem u x = cs_mem s x" if "x \<in> set ps" for x
    using u(3) Cons.prems(2) Cons.prems(3)[of x] that by (auto simp: keeps_fresh_def)
  obtain present' oc' t where t: "refresh_items now wait ps (nn (cs_mem u p) # present) (oc1, u) = Some (present', oc', t)"
    "cache_evolves u t" "set present' = set (nn (cs_mem u p) # present) \<union> (\<lambda>p. nn (cs_mem u p)) ` set ps"
    "\<And>p. p \<in> set ps \<Longrightarrow> \<exists>q v w. cs_get (nn (cs_mem u p)) t = Some q \<and> rv_of (cs_mem u p) = Some v \<and>
        rv_of (cs_mem t q) = Some w \<and> v \<le> w"
    "quiet wait \<Longrightarrow> (\<forall>m. m \<notin> (\<lambda>p. nn (cs_mem u p)) ` set ps \<longrightarrow> cs_get m t = cs_get m u) \<and>
        (\<forall>q. q \<notin> set ps \<longrightarrow> cs_mem t q = cs_mem u q)"
    using Cons.IH[OF iu, of "nn (cs_mem u p) # present" oc1] Cons.prems(2,3) keep by auto
  have "refresh_items now wait (p # ps) present (oc, s) = Some (present', oc', t)" using u(1) t(1) by simp
  moreover have "set present' = set present \<union> (\<lambda>p. nn (cs_mem s p)) ` set (p # ps)"
    using t(3) nnp keep by auto
  moreover have "\<exists>q v w. cs_get (nn (cs_mem s x)) t = Some q \<and> rv_of (cs_mem s x) = Some v \<and>
        rv_of (cs_mem t q) = Some w \<and> v \<le> w" if "x \<in> set (p # ps)" for x
    using that t(4)[of x] keep[of x] cache_evolves_at_least[OF t(2) u(4,5,6)] p(3) by auto
  moreover have "quiet wait \<longrightarrow> (\<forall>m. m \<notin> (\<lambda>p. nn (cs_mem s p)) ` set (p # ps) \<longrightarrow> cs_get m t = cs_get m s) \<and>
        (\<forall>q. q \<notin> set (p # ps) \<longrightarrow> cs_mem t q = cs_mem s q)"
    using u(7) t(5) keep by auto
  ultimately show ?case using cache_evolves_trans[OF u(2) t(2)] by blast
qed

text \<open>What a refresh makes of the entry of a name it found cached but not listed.\<close>

definition entry_gone :: "gotime \<Rightarrow> int \<Rightarrow> NamespacedName \<Rightarrow> cachedPredictorSource \<Rightarrow> cachedPredictorSource \<Rightarrow> bool" where
  "entry_gone now l n s t \<longleftrightarrow> (\<forall>p a. cs_get n s = Some p \<and> rv_of (cs_mem s p) = Some a \<and> a < l \<longrightarrow>
     (\<exists>q. cs_get n t = Some q \<and> rv_of (cs_mem t q) = Some l \<and>
        p_DeletionTimestamp (cs_mem t q) = Some (max (now - 2 * Second) zero_time)))"

lemma entry_gone_frame:
  assumes "entry_gone now l n u t" and "cs_get n u = cs_get n s" and "\<And>p. cs_get n s = Some p \<Longrightarrow> cs_mem u p = cs_mem s p"
  shows "entry_gone now l n s t"
  using assms by (auto simp: entry_gone_def)

lemma refresh_deletes_step:
  assumes waits: "\<And>st. status_step\<^sup>*\<^sup>* (snd st) (snd (wait st))" and l: "ParseInt 64 rv = Some l"
    and "cs_inv s" and "distinct ns" and "\<And>n. n \<in> set ns \<Longrightarrow> cs_get n s \<noteq> None"
  shows "\<exists>oc' t. refresh_deletes now wait rv ns (oc, s) = Some (oc', t) \<and> cache_evolves s t \<and>
     (\<forall>n \<in> set ns. \<exists>q w. cs_get n t = Some q \<and> rv_of (cs_mem t q) = Some w \<and> l \<le> w) \<and>
     (quiet wait \<longrightarrow> (\<forall>n. n \<notin> set ns \<longrightarrow> cs_get n t = cs_get n s) \<and>
        (\<forall>n \<in> set ns. entry_gone now l n s t) \<and> (\<forall>q < cs_next s. cs_mem t q = cs_mem s q))"
  using assms(3-5)
proof (induction ns arbitrary: oc s)
  case Nil
  then show ?case by (simp add: cache_evolves_refl)
next
  case (Cons n ns)
  obtain p s1 where a: "alloc (deletedPredictor n rv) s = (p, s1)" by fastforce
  note ai = alloc_inv[OF Cons.prems(1) a]
  have pn: "p = cs_next s" "cs_next s1 = Suc (cs_next s)" using a by (auto simp: alloc_def)
  have p: "nn (cs_mem s1 p) = n" "rv_of (cs_mem s1 p) = Some l" "p_DeletionTimestamp (cs_mem s1 p) = Some zero_time"
    using ai(3) l by (simp_all add: deletedPredictor_def zero_Predictor_def zero_Meta_def nn_def)
  have get1: "cs_get m s1 = cs_get m s" for m using ai(4) by (simp add: cs_get_def)
  obtain c where c: "cs_get n s = Some c" using Cons.prems(3)[of n] by auto
  have cached: "cs_get n s1 \<noteq> None" using c get1 by simp
  have cn: "c < cs_next s" using cs_invD(2)[OF Cons.prems(1)] c by (simp add: cs_get_def)
  obtain b oc1 u q w where u: "process_write now wait (Some p) EVENT_DELETE (oc, s1) = Some (b, oc1, u)"
    "cache_evolves s1 u" "cs_get n u = Some q" "rv_of (cs_mem u q) = Some w" "l \<le> w"
    "newer_than_cached n p s1 \<and> w = l \<longrightarrow> q = p \<and> p_DeletionTimestamp (cs_mem u p) = Some (max (now - 2 * Second) zero_time)"
    "quiet wait \<longrightarrow> (newer_than_cached n p s1 \<longrightarrow> cs_get n u = Some p \<and> rv_of (cs_mem u p) = Some l) \<and>
       (\<forall>m. m \<noteq> n \<longrightarrow> cs_get m u = cs_get m s) \<and> (\<forall>x. x \<noteq> p \<longrightarrow> cs_mem u x = cs_mem s1 x)"
    using process_write_step[OF ai(1,2) p(1,2) cached waits, where now = now and et = EVENT_DELETE and oc = oc]
    unfolding get1 p(3) option.map if_cancel by blast
  have su: "cache_evolves s u" using cache_evolves_trans[OF cache_evolves_alloc(1)[OF Cons.prems(1) a] u(2)] .
  have "cs_inv u" "\<And>m. m \<in> set ns \<Longrightarrow> cs_get m u \<noteq> None"
    using su Cons.prems(3) by (fastforce simp: cache_evolves_def)+
  then obtain oc' t where t: "refresh_deletes now wait rv ns (oc1, u) = Some (oc', t)" "cache_evolves u t"
    "\<forall>n \<in> set ns. \<exists>q w. cs_get n t = Some q \<and> rv_of (cs_mem t q) = Some w \<and> l \<le> w"
    "quiet wait \<longrightarrow> (\<forall>n. n \<notin> set ns \<longrightarrow> cs_get n t = cs_get n u) \<and>
        (\<forall>n \<in> set ns. entry_gone now l n u t) \<and> (\<forall>q < cs_next u. cs_mem t q = cs_mem u q)"
    using Cons.IH[of u oc1] Cons.prems(2) by auto
  have r: "refresh_deletes now wait rv (n # ns) (oc, s) = Some (oc', t)" using a u(1) t(1) by simp
  have unxt: "Suc (cs_next s) \<le> cs_next u" using u(2) pn by (simp add: cache_evolves_def)
  have mem_s: "cs_mem u x = cs_mem s x" if "quiet wait" "x < cs_next s" for x
    using u(7) that ai(5)[of x] pn(1) by simp
  have gone: "entry_gone now l n s t" if qw: "quiet wait"
    unfolding entry_gone_def
  proof (intro allI impI)
    fix c' a' assume x: "cs_get n s = Some c' \<and> rv_of (cs_mem s c') = Some a' \<and> a' < l"
    then have "newer_than_cached n p s1"
      using p(2) c cn ai(5)[of c] by (simp add: newer_than_cached_def get1)
    then have "cs_get n u = Some p" "rv_of (cs_mem u p) = Some l"
      "p_DeletionTimestamp (cs_mem u p) = Some (max (now - 2 * Second) zero_time)"
      using u(3,4,6,7) qw by auto
    moreover have "cs_get n t = cs_get n u" "cs_mem t p = cs_mem u p"
      using t(4) qw Cons.prems(2) pn unxt by auto
    ultimately show "\<exists>q. cs_get n t = Some q \<and> rv_of (cs_mem t q) = Some l \<and>
        p_DeletionTimestamp (cs_mem t q) = Some (max (now - 2 * Second) zero_time)" by auto
  qed
  have "entry_gone now l m s t" if "quiet wait" "m \<in> set ns" for m
  proof (rule entry_gone_frame)
    show "entry_gone now l m u t" using t(4) that by blast
    show "cs_get m u = cs_get m s" using u(7) that Cons.prems(2) by auto
    show "cs_mem u x = cs_mem s x" if "cs_get m s = Some x" for x
      using mem_s[OF \<open>quiet wait\<close>] cs_invD(2)[OF Cons.prems(1)] that by (simp add: cs_get_def)
  qed
  then have "quiet wait \<longrightarrow> (\<forall>m. m \<notin> set (n # ns) \<longrightarrow> cs_get m t = cs_get m s) \<and>
        (\<forall>m \<in> set (n # ns). entry_gone now l m s t) \<and> (\<forall>x < cs_next s. cs_mem t x = cs_mem s x)"
    using gone t(4) u(7) mem_s unxt by auto
  then show ?case
    using r t(3) cache_evolves_trans[OF su t(2)] cache_evolves_at_least[OF t(2) u(3,4,5)] by auto
qed

lemma alloc_items_evolves:
  assumes "cs_inv s" and "alloc_items vs s = (ps, t)"
  shows "cache_evolves s t" and "\<And>p. p \<in> set ps \<Longrightarrow> fresh_for p t"
proof -
  note e = alloc_items_effect[OF assms]
  show "cache_evolves s t"
    using e cs_invD(2,4)[OF assms(1)] unfolding cache_evolves_def cs_get_def by fastforce
  show "fresh_for p t" if "p \<in> set ps" for p
    using e that cs_invD(2)[OF assms(1)] cs_invD(7)[OF assms(1)] by (fastforce simp: fresh_for_def)
qed

text \<open>The first half of a refresh: the listed Predictors are offered.\<close>

lemma refresh_listed:
  assumes inv: "cs_inv w" and dist: "distinct (map nn (pl_Items list))"
    and ok: "\<And>v. v \<in> set (pl_Items list) \<Longrightarrow> p_DeletionTimestamp v = None \<and> rv_of v \<noteq> None"
    and waits: "\<And>st. status_step\<^sup>*\<^sup>* (snd st) (snd (wait st))"
  shows "\<exists>ps w1 present oc1 w2. alloc_items (pl_Items list) w = (ps, w1) \<and>
    refresh_items now wait ps [] (oc, w1) = Some (present, oc1, w2) \<and> cache_evolves w w2 \<and>
    set present = nn ` set (pl_Items list) \<and>
    (\<forall>v \<in> set (pl_Items list). \<exists>q x y. cs_get (nn v) w2 = Some q \<and> rv_of v = Some x \<and> rv_of (cs_mem w2 q) = Some y \<and> x \<le> y) \<and>
    (quiet wait \<longrightarrow> (\<forall>n. n \<notin> nn ` set (pl_Items list) \<longrightarrow> cs_get n w2 = cs_get n w) \<and>
       (\<forall>q < cs_next w. cs_mem w2 q = cs_mem w q))"
proof -
  obtain ps w1 where a: "alloc_items (pl_Items list) w = (ps, w1)" by fastforce
  note e = alloc_items_effect[OF inv a] and ev = alloc_items_evolves[OF inv a]
  have vs: "map (cs_mem w1) ps = pl_Items list" using e by blast
  have i1: "cs_inv w1" "distinct ps" "cs_cache w1 = cs_cache w" "\<And>q. q < cs_next w \<Longrightarrow> q \<notin> set ps \<and> cs_mem w1 q = cs_mem w q"
    using e by auto
  have set_vs: "set (pl_Items list) = cs_mem w1 ` set ps" by (simp flip: vs)
  have "fresh_for p w1 \<and> p_DeletionTimestamp (cs_mem w1 p) = None \<and> rv_of (cs_mem w1 p) \<noteq> None" if "p \<in> set ps" for p
    using ev(2) ok[of "cs_mem w1 p"] that by (auto simp: set_vs)
  from refresh_items_step[OF waits i1(1,2) this, where present = "[]" and oc = oc and now = now]
  obtain present oc1 w2 where r: "refresh_items now wait ps [] (oc, w1) = Some (present, oc1, w2)" "cache_evolves w1 w2"
    "set present = nn ` set (pl_Items list)"
    "\<forall>p \<in> set ps. \<exists>q v w. cs_get (nn (cs_mem w1 p)) w2 = Some q \<and> rv_of (cs_mem w1 p) = Some v \<and>
        rv_of (cs_mem w2 q) = Some w \<and> v \<le> w"
    "quiet wait \<longrightarrow> (\<forall>m. m \<notin> nn ` set (pl_Items list) \<longrightarrow> cs_get m w2 = cs_get m w1) \<and>
        (\<forall>q. q \<notin> set ps \<longrightarrow> cs_mem w2 q = cs_mem w1 q)" by (auto simp: set_vs image_image)
  have "quiet wait \<longrightarrow> (\<forall>n. n \<notin> nn ` set (pl_Items list) \<longrightarrow> cs_get n w2 = cs_get n w) \<and>
       (\<forall>q < cs_next w. cs_mem w2 q = cs_mem w q)"
    using r(5) i1(3,4) by (simp add: cs_get_def)
  moreover have "cache_evolves w w2" by (rule cache_evolves_trans[OF ev(1) r(2)])
  moreover have "\<forall>v \<in> set (pl_Items list). \<exists>q x y. cs_get (nn v) w2 = Some q \<and> rv_of v = Some x \<and>
      rv_of (cs_mem w2 q) = Some y \<and> x \<le> y"
    using r(4) by (simp add: set_vs)
  ultimately show ?thesis using a r(1,3) by blast
qed

text \<open>
  C9. \<open>refreshCache\<close> brings the cache up to the list. Let the refresh be answered (after any number of
  failures) with a list of undeleted Predictors with distinct names and numeric versions, and let others
  only complete status updates while the event loop waits. Then it returns the list's resource
  version without a panic, keeps the invariant and every version monotone, every listed Predictor is
  cached in at least the listed version, and every other name cached before is cached in at least
  the version of the list. If nobody else used the source, each of those other names with an
  older version is now deleted: \<open>Get\<close> does not return it.
\<close>

theorem refreshCache_synchronizes:
  assumes "cs_inv w" and "refresh_retry answers = Some (list, answers')"
    and "distinct (map nn (pl_Items list))" and "ParseInt 64 (pl_ResourceVersion list) = Some l"
    and "\<And>v. v \<in> set (pl_Items list) \<Longrightarrow> p_DeletionTimestamp v = None \<and> rv_of v \<noteq> None"
    and "\<And>st. status_step\<^sup>*\<^sup>* (snd st) (snd (wait st))" and "zero_time < now" and "now \<le> later"
  shows "\<exists>oc' t. refreshCache now wait answers (oc, w) = Some (pl_ResourceVersion list, answers', oc', t) \<and>
     cache_evolves w t \<and>
     (\<forall>v \<in> set (pl_Items list). \<exists>q x y. cs_get (nn v) t = Some q \<and> rv_of v = Some x \<and>
        rv_of (cs_mem t q) = Some y \<and> x \<le> y) \<and>
     (\<forall>n. cs_get n w \<noteq> None \<and> n \<notin> nn ` set (pl_Items list) \<longrightarrow>
        (\<exists>q y. cs_get n t = Some q \<and> rv_of (cs_mem t q) = Some y \<and> l \<le> y)) \<and>
     (quiet wait \<longrightarrow> (\<forall>n p a. cs_get n w = Some p \<and> n \<notin> nn ` set (pl_Items list) \<and>
        rv_of (cs_mem w p) = Some a \<and> a < l \<longrightarrow> cs_Get later n t = None))"
proof -
  obtain ps w1 oc1 present w2 where r: "alloc_items (pl_Items list) w = (ps, w1)"
    "refresh_items now wait ps [] (oc, w1) = Some (present, oc1, w2)" "cache_evolves w w2"
    "set present = nn ` set (pl_Items list)"
    "\<And>v. v \<in> set (pl_Items list) \<Longrightarrow> \<exists>q x y. cs_get (nn v) w2 = Some q \<and> rv_of v = Some x \<and> rv_of (cs_mem w2 q) = Some y \<and> x \<le> y"
    "\<And>n. quiet wait \<Longrightarrow> n \<notin> nn ` set (pl_Items list) \<Longrightarrow> cs_get n w2 = cs_get n w"
    "\<And>q. quiet wait \<Longrightarrow> q < cs_next w \<Longrightarrow> cs_mem w2 q = cs_mem w q"
    using refresh_listed[OF assms(1,3,5,6), where oc = oc and now = now] by metis
  define ns where "ns = filter (\<lambda>n. n \<notin> set present) (map fst (cs_cache w2))"
  have inv2: "cs_inv w2" using r(3) by (simp add: cache_evolves_def)
  have ns: "distinct ns" "\<And>n. n \<in> set ns \<longleftrightarrow> cs_get n w2 \<noteq> None \<and> n \<notin> nn ` set (pl_Items list)"
    using cs_invD(1)[OF inv2] r(4) by (auto simp: ns_def cs_get_def gomap_get_keys)
  obtain oc' t where t: "refresh_deletes now wait (pl_ResourceVersion list) ns (oc1, w2) = Some (oc', t)" "cache_evolves w2 t"
    "\<And>n. n \<in> set ns \<Longrightarrow> \<exists>q w. cs_get n t = Some q \<and> rv_of (cs_mem t q) = Some w \<and> l \<le> w"
    "\<And>n. quiet wait \<Longrightarrow> n \<in> set ns \<Longrightarrow> entry_gone now l n w2 t"
    using refresh_deletes_step[OF assms(6,4) inv2 ns(1), where oc = oc1 and now = now] ns(2) by metis
  have "refreshCache now wait answers (oc, w) = Some (pl_ResourceVersion list, answers', oc', t)"
    using assms(2) r(1,2) t(1) by (simp add: refreshCache_def Let_def ns_def)
  moreover have "\<exists>q x y. cs_get (nn v) t = Some q \<and> rv_of v = Some x \<and> rv_of (cs_mem t q) = Some y \<and> x \<le> y"
    if "v \<in> set (pl_Items list)" for v
    using r(5)[OF that] cache_evolves_at_least[OF t(2)] by blast
  moreover have mem_ns: "n \<in> set ns" if "cs_get n w \<noteq> None" "n \<notin> nn ` set (pl_Items list)" for n
    using ns(2) r(3) that unfolding cache_evolves_def by blast
  moreover have "cs_Get later n t = None" if qw: "quiet wait" and n: "cs_get n w = Some p" "n \<notin> nn ` set (pl_Items list)"
    "rv_of (cs_mem w p) = Some a" "a < l" for n p a
  proof -
    have "cs_get n w2 = Some p" "rv_of (cs_mem w2 p) = Some a"
      using r(6)[OF qw n(2)] r(7)[OF qw, of p] n(1,3) cs_invD(2)[OF assms(1)] by (simp_all add: cs_get_def)
    then obtain q where "cs_get n t = Some q" "p_DeletionTimestamp (cs_mem t q) = Some (max (now - 2 * Second) zero_time)"
      using t(4)[OF qw mem_ns[of n]] n by (auto simp: entry_gone_def)
    then show ?thesis using assms(7,8) by (simp add: cs_Get_def isDeleted_def Second_def)
  qed
  ultimately show ?thesis using cache_evolves_trans[OF r(3) t(2)] t(3) by blast
qed

theorem refreshCache_synchronizes_witness:
  "\<exists>oc' t. refreshCache 100 id [Inl ''down'', Inr \<lparr>pl_ResourceVersion = ''2'', pl_Items = []\<rparr>] (new_outChan, sample_source None)
      = Some (''2'', [], oc', t) \<and> cs_Get 100 sample_name t = None"
proof -
  have "refresh_retry [Inl ''down'', Inr \<lparr>pl_ResourceVersion = ''2'', pl_Items = []\<rparr>] =
      Some (\<lparr>pl_ResourceVersion = ''2'', pl_Items = []\<rparr>, [])" by simp
  from refreshCache_synchronizes[OF sample_source_inv[of None] this, where wait = id and now = 100 and later = 100
      and oc = new_outChan and l = 2]
  obtain oc' t where "refreshCache 100 id [Inl ''down'', Inr \<lparr>pl_ResourceVersion = ''2'', pl_Items = []\<rparr>]
      (new_outChan, sample_source None) = Some (''2'', [], oc', t)"
    "\<forall>n p a. cs_get n (sample_source None) = Some p \<and> rv_of (cs_mem (sample_source None) p) = Some a \<and> a < 2 \<longrightarrow>
      cs_Get 100 n t = None"
    by (auto simp: quiet_def zero_time_def)
  moreover from this(2) have "cs_Get 100 sample_name t = None"
    by (metis rv_sample(1) sample_predictor_fields(1) sample_source_fields(1,2) one_less_numeral_iff semiring_norm(76))
  ultimately show ?thesis by blast
qed

end
