(* ===== verification/Go_Encoding.thy ===== *)
theory Go_Encoding
  imports Prelude "HOL-Library.Word"
begin

unbundle bit_operations_syntax

text \<open>
  The encoders of the Go standard library behind the names of concrete models:
  \<open>encoding/json.Marshal\<close> on the values the controller marshals (with the HTML-safe string escaping
  that \<open>Marshal\<close> uses), \<open>crypto/sha1.Sum\<close> and \<open>encoding/hex.EncodeToString\<close>.
\<close>

section \<open>Hexadecimal\<close>

definition hex_digit :: "nat \<Rightarrow> char" where
  "hex_digit n = (if n < 10 then char_of (48 + n) else char_of (87 + n))"

definition hex_byte :: "nat \<Rightarrow> string" where
  "hex_byte b = [hex_digit (b div 16), hex_digit (b mod 16)]"

definition hex_EncodeToString :: "nat list \<Rightarrow> string" where
  "hex_EncodeToString bs = concat (map hex_byte bs)"

definition is_hex_digit :: "char \<Rightarrow> bool" where
  "is_hex_digit c \<longleftrightarrow> c \<in> set ''0123456789abcdef''"

section \<open>JSON\<close>

text \<open>
  \<open>utf8.DecodeRuneInString\<close>: the length of the rune at the start of the string and its code point;
  \<open>None\<close> for a byte that starts no valid encoding (width 1, \<open>RuneError\<close>).
\<close>

definition cont_byte :: "nat \<Rightarrow> bool" where
  "cont_byte b \<longleftrightarrow> 128 \<le> b \<and> b \<le> 191"

definition decode_rune :: "nat list \<Rightarrow> (nat \<times> nat) option" where
  "decode_rune s =
     (case s of
        [] \<Rightarrow> None
      | a # r \<Rightarrow>
          if a < 128 then Some (1, a)
          else if 194 \<le> a \<and> a \<le> 223 then
            (case r of b # _ \<Rightarrow> if cont_byte b then Some (2, (a - 192) * 64 + (b - 128)) else None | [] \<Rightarrow> None)
          else if 224 \<le> a \<and> a \<le> 239 then
            (case r of
               b # c # _ \<Rightarrow>
                 if cont_byte b \<and> cont_byte c \<and> (a = 224 \<longrightarrow> 160 \<le> b) \<and> (a = 237 \<longrightarrow> b \<le> 159)
                 then Some (3, (a - 224) * 4096 + (b - 128) * 64 + (c - 128)) else None
             | _ \<Rightarrow> None)
          else if 240 \<le> a \<and> a \<le> 244 then
            (case r of
               b # c # d # _ \<Rightarrow>
                 if cont_byte b \<and> cont_byte c \<and> cont_byte d \<and> (a = 240 \<longrightarrow> 144 \<le> b) \<and> (a = 244 \<longrightarrow> b \<le> 143)
                 then Some (4, (a - 240) * 262144 + (b - 128) * 4096 + (c - 128) * 64 + (d - 128)) else None
             | _ \<Rightarrow> None)
          else None)"

lemma decode_rune_width: "decode_rune s = Some (n, c) \<Longrightarrow> 0 < n \<and> n \<le> length s"
  by (auto simp: decode_rune_def split: list.splits if_splits)

definition backslash :: char where
  "backslash = CHR 0x5C"

definition json_escape_byte :: "nat \<Rightarrow> string" where
  "json_escape_byte b =
     (if b = 34 \<or> b = 92 then [backslash, char_of b]
      else if b = 10 then [backslash, CHR ''n'']
      else if b = 13 then [backslash, CHR ''r'']
      else if b = 9 then [backslash, CHR ''t'']
      else if b = 8 then [backslash, CHR ''b'']
      else if b = 12 then [backslash, CHR ''f'']
      else if b < 32 \<or> b = 38 \<or> b = 60 \<or> b = 62 then [backslash] @ ''u00'' @ hex_byte b
      else [char_of b])"

function json_escape :: "nat list \<Rightarrow> string" where
  "json_escape s =
     (case s of
        [] \<Rightarrow> []
      | b # _ \<Rightarrow>
          if b < 128 then json_escape_byte b @ json_escape (drop 1 s)
          else (case decode_rune s of
                  None \<Rightarrow> [backslash] @ ''ufffd'' @ json_escape (drop 1 s)
                | Some (n, c) \<Rightarrow>
                    if c = 0x2028 then [backslash] @ ''u2028'' @ json_escape (drop n s)
                    else if c = 0x2029 then [backslash] @ ''u2029'' @ json_escape (drop n s)
                    else map char_of (take n s) @ json_escape (drop n s)))"
  by pat_completeness auto
termination
  by (relation "measure length") (auto dest: decode_rune_width split: list.splits)

declare json_escape.simps [simp del]

text \<open>JSON values as the encoder writes them; the members of an object are in writing order.\<close>

datatype json = JString string | JBool bool | JArray "json list" | JObject "(string \<times> json) list"

definition json_string :: "string \<Rightarrow> string" where
  "json_string s = ''\"'' @ json_escape (map of_char s) @ ''\"''"

fun json_encode :: "json \<Rightarrow> string" where
  "json_encode (JString s) = json_string s"
| "json_encode (JBool b) = (if b then ''true'' else ''false'')"
| "json_encode (JArray vs) = ''['' @ join_with '','' (map json_encode vs) @ '']''"
| "json_encode (JObject ms) =
     ''{'' @ join_with '','' (map (\<lambda>(k, v). json_string k @ '':'' @ json_encode v) ms) @ ''}''"

text \<open>A field with \<open>omitempty\<close> of pointer type.\<close>

definition omitempty :: "string \<Rightarrow> ('a \<Rightarrow> json) \<Rightarrow> 'a option \<Rightarrow> (string \<times> json) list" where
  "omitempty k f v = (case v of None \<Rightarrow> [] | Some x \<Rightarrow> [(k, f x)])"

text \<open>A map with string keys is written in the order of its keys.\<close>

fun string_leq :: "string \<Rightarrow> string \<Rightarrow> bool" where
  "string_leq [] b = True"
| "string_leq (x # a) [] = False"
| "string_leq (x # a) (y # b) =
     ((of_char x :: nat) < of_char y \<or> x = y \<and> string_leq a b)"

fun insert_key :: "string \<times> 'a \<Rightarrow> (string \<times> 'a) list \<Rightarrow> (string \<times> 'a) list" where
  "insert_key e [] = [e]"
| "insert_key e (f # fs) = (if string_leq (fst e) (fst f) then e # f # fs else f # insert_key e fs)"

definition sort_keys :: "(string \<times> 'a) list \<Rightarrow> (string \<times> 'a) list" where
  "sort_keys m = foldr insert_key m []"

definition json_map :: "(string, string) gomap \<Rightarrow> json" where
  "json_map m = JObject (map (\<lambda>(k, v). (k, JString v)) (sort_keys m))"

section \<open>SHA-1\<close>

type_synonym u32 = "32 word"

definition be_bytes :: "nat \<Rightarrow> int \<Rightarrow> nat list" where
  "be_bytes n v = map (\<lambda>i. nat ((v div 256 ^ (n - 1 - i)) mod 256)) [0..<n]"

definition sha1_pad :: "nat list \<Rightarrow> nat list" where
  "sha1_pad bs =
     bs @ [128] @ replicate ((119 - length bs mod 64) mod 64) 0 @ be_bytes 8 ((8 * int (length bs)) mod 2 ^ 64)"

fun word_of_bytes :: "nat list \<Rightarrow> u32" where
  "word_of_bytes [a, b, c, d] = of_int (((int a * 256 + int b) * 256 + int c) * 256 + int d)"
| "word_of_bytes _ = 0"

fun chunks :: "nat \<Rightarrow> nat \<Rightarrow> 'a list \<Rightarrow> 'a list list" where
  "chunks n 0 xs = []"
| "chunks n (Suc k) xs = take n xs # chunks n k (drop n xs)"

text \<open>The message schedule, newest word first.\<close>

fun sha1_extend :: "nat \<Rightarrow> u32 list \<Rightarrow> u32 list" where
  "sha1_extend 0 ws = ws"
| "sha1_extend (Suc k) ws =
     sha1_extend k (word_rotl 1 (ws ! 2 XOR ws ! 7 XOR ws ! 13 XOR ws ! 15) # ws)"

definition sha1_f :: "nat \<Rightarrow> u32 \<Rightarrow> u32 \<Rightarrow> u32 \<Rightarrow> u32" where
  "sha1_f t b c d =
     (if t < 20 then b AND c OR NOT b AND d
      else if t < 40 then b XOR c XOR d
      else if t < 60 then (b OR c) AND d OR b AND c
      else b XOR c XOR d)"

definition sha1_k :: "nat \<Rightarrow> u32" where
  "sha1_k t =
     (if t < 20 then 0x5A827999 else if t < 40 then 0x6ED9EBA1 else if t < 60 then 0x8F1BBCDC else 0xCA62C1D6)"

type_synonym sha1_state = "u32 \<times> u32 \<times> u32 \<times> u32 \<times> u32"

fun sha1_rounds :: "nat \<Rightarrow> u32 list \<Rightarrow> sha1_state \<Rightarrow> sha1_state" where
  "sha1_rounds t [] st = st"
| "sha1_rounds t (w # ws) (a, b, c, d, e) =
     sha1_rounds (Suc t) ws
       (word_rotl 5 a + sha1_f t b c d + e + w + sha1_k t, a, word_rotl 30 b, c, d)"

definition sha1_block :: "nat list \<Rightarrow> sha1_state \<Rightarrow> sha1_state" where
  "sha1_block blk = (\<lambda>(a, b, c, d, e).
     let ws = rev (sha1_extend 64 (rev (map word_of_bytes (chunks 4 16 blk))))
     in case sha1_rounds 0 ws (a, b, c, d, e) of
          (a', b', c', d', e') \<Rightarrow> (a + a', b + b', c + c', d + d', e + e'))"

definition sha1_init :: sha1_state where
  "sha1_init = (0x67452301, 0xEFCDAB89, 0x98BADCFE, 0x10325476, 0xC3D2E1F0)"

definition sha1_Sum :: "nat list \<Rightarrow> nat list" where
  "sha1_Sum bs =
     (let p = sha1_pad bs
      in case fold sha1_block (chunks 64 (length p div 64) p) sha1_init of
           (a, b, c, d, e) \<Rightarrow> concat (map (\<lambda>w. be_bytes 4 (uint w)) [a, b, c, d, e]))"

section \<open>Lemmas\<close>

lemma length_be_bytes [simp]: "length (be_bytes n v) = n"
  by (simp add: be_bytes_def)

lemma length_sha1_Sum [simp]: "length (sha1_Sum bs) = 20"
  by (simp add: sha1_Sum_def Let_def split: prod.splits)

lemma sha1_Sum_bytes: "b \<in> set (sha1_Sum bs) \<Longrightarrow> b < 256"
  by (auto simp: sha1_Sum_def Let_def be_bytes_def nat_less_iff split: prod.splits)

lemma length_hex_EncodeToString [simp]: "length (hex_EncodeToString bs) = 2 * length bs"
  by (induction bs) (auto simp: hex_EncodeToString_def hex_byte_def)

lemma hex_digit_is_hex: "n < 16 \<Longrightarrow> is_hex_digit (hex_digit n)"
proof -
  assume "n < 16"
  then have "n \<in> set [0..<16]" by simp
  moreover have "\<forall>n \<in> set [0..<16]. is_hex_digit (hex_digit n)" by code_simp
  ultimately show ?thesis by blast
qed

lemma hex_EncodeToString_chars:
  "(\<And>b. b \<in> set bs \<Longrightarrow> b < 256) \<Longrightarrow> c \<in> set (hex_EncodeToString bs) \<Longrightarrow> is_hex_digit c"
  by (fastforce simp: hex_EncodeToString_def hex_byte_def intro!: hex_digit_is_hex)

end
