(* ===== verification/Source_Names.thy ===== *)
theory Source_Names
  imports Api_Types Go_Encoding
begin

text \<open>
  The naming scheme by which Predictors of several sources share one reconciler and one model-mesh:
  source prefixes of namespaces (\<open>ResolveSource\<close> of pkg/predictor\_source/predictor\_source.go,
  \<open>prefixName\<close> of controllers/predictor\_controller.go), concrete model names (\<open>Hash\<close> and
  \<open>concreteModelName\<close> of predictor\_controller.go) and the two etcd listeners that turn
  model-mesh registry keys back into reconcile requests (pkg/mmesh/modelmesh\_events.go).
\<close>

section \<open>Source prefixes\<close>

definition ResolveSource :: "NamespacedName \<Rightarrow> string \<Rightarrow> NamespacedName \<times> string" where
  "ResolveSource name defaultSource =
     (let namespace = nn_Namespace name;
          i = LastIndex namespace ''_'';
          name' = name\<lparr>nn_Namespace := drop (nat (i + 1)) namespace\<rparr>
      in if i \<le> 0 then (name', defaultSource) else (name', take (nat i) namespace))"

text \<open>The request \<open>prefixName\<close> maps an object to.\<close>

definition prefixName :: "string \<Rightarrow> ObjectMeta \<Rightarrow> NamespacedName" where
  "prefixName pre o' = \<lparr>nn_Namespace = pre @ ''_'' @ om_Namespace o', nn_Name = om_Name o'\<rparr>"

definition InferenceServiceCRSourceId :: string where
  "InferenceServiceCRSourceId = ''isvc''"

definition PredictorCRSourceId :: string where
  "PredictorCRSourceId = ''ksp''"

section \<open>Concrete model names\<close>

text \<open>The JSON of a Predictor spec, field by field with the tags of its structs.\<close>

definition json_ModelType :: "ModelType \<Rightarrow> json" where
  "json_ModelType t = JObject ((''name'', JString (mt_Name t)) # omitempty ''version'' JString (mt_Version t))"

definition json_Storage :: "Storage \<Rightarrow> json" where
  "json_Storage s = JObject
     (omitempty ''path'' JString (ss_Path s) @
      omitempty ''schemaPath'' JString (ss_SchemaPath s) @
      omitempty ''parameters'' json_map (ss_Parameters s) @
      omitempty ''key'' JString (ss_StorageKey s) @
      omitempty ''persistentVolumeClaim''
        (\<lambda>v. JObject ((''claimName'', JString (pvcs_ClaimName v)) #
                      (if pvcs_ReadOnly v then [(''readOnly'', JBool True)] else [])))
        (st_PersistentVolumeClaim s) @
      omitempty ''s3''
        (\<lambda>v. JObject ((''secretKey'', JString (s3_SecretKey v)) # omitempty ''bucket'' JString (s3_Bucket v)))
        (st_S3 s))"

definition GpuRequest_string :: "GpuRequest \<Rightarrow> string" where
  "GpuRequest_string g = (case g of Required \<Rightarrow> ''required'' | Preferred \<Rightarrow> ''preferred'')"

definition json_PredictorSpec :: "PredictorSpec \<Rightarrow> json" where
  "json_PredictorSpec s = JObject
     (omitempty ''serviceAccountName'' JString (ps_ServiceAccountName s) @
      [(''modelType'', json_ModelType (m_Type s)), (''path'', JString (m_Path s))] @
      omitempty ''schemaPath'' JString (m_SchemaPath s) @
      omitempty ''storage'' json_Storage (m_Storage s) @
      omitempty ''gpu'' (\<lambda>g. JString (GpuRequest_string g)) (ps_Gpu s) @
      omitempty ''runtime''
        (\<lambda>r. JObject (case pr_RuntimeRef r of None \<Rightarrow> [] | Some ref \<Rightarrow> [(''name'', JString (rr_Name ref))]))
        (ps_Runtime s) @
      omitempty ''protocolVersion'' JString (ps_ProtocolVersion s))"

definition Hash :: "PredictorSpec \<Rightarrow> string" where
  "Hash predictorSpec =
     (let b = json_encode (json_PredictorSpec predictorSpec)
      in hex_EncodeToString (take 5 (sha1_Sum (map of_char b))))"

definition concreteModelName :: "Predictor \<Rightarrow> string \<Rightarrow> string" where
  "concreteModelName predictor sourceId = p_Name predictor @ ''__'' @ sourceId @ ''-'' @ Hash (p_Spec predictor)"

section \<open>Registry events of model-mesh\<close>

datatype KeyEventType = UPDATE | DELETE | INITIALIZED

text \<open>
  The listener on the model registry: the event it sends, if any. The key is read through slice
  expressions and indices, all guarded.
\<close>

definition model_event :: "string \<Rightarrow> KeyEventType \<Rightarrow> string \<Rightarrow> NamespacedName option" where
  "model_event namespace eventType key =
     (if eventType = UPDATE then
        (let ownerIdx = LastIndex key ''__'' + 2
         in if 2 < ownerIdx then
              (let hashIdx = int (length key) - 11
               in if ownerIdx < hashIdx \<and> key ! nat hashIdx = CHR ''-'' then
                    (let sourceId = take (nat (hashIdx - ownerIdx)) (drop (nat ownerIdx) key);
                         predictorName = take (nat (ownerIdx - 2)) key
                     in Some \<lparr>nn_Namespace = sourceId @ ''_'' @ namespace, nn_Name = predictorName\<rparr>)
                  else None)
            else None)
      else None)"

text \<open>
  The listener on the vmodel registry. \<open>value\<close> is \<open>None\<close> for a nil value; \<open>ownerID\<close> is what
  \<open>ownerIDFromVModelRecord\<close> makes of a record (\<open>None\<close>: it does not parse).
\<close>

definition vmodel_event ::
  "(string \<Rightarrow> string option) \<Rightarrow> string \<Rightarrow> KeyEventType \<Rightarrow> string \<Rightarrow> string option \<Rightarrow> NamespacedName option" where
  "vmodel_event ownerID namespace eventType key val =
     (if eventType \<noteq> UPDATE \<and> (eventType \<noteq> DELETE \<or> val = None) then None
      else (case ownerID (case val of None \<Rightarrow> [] | Some v \<Rightarrow> v) of
              None \<Rightarrow> None
            | Some owner \<Rightarrow>
                Some \<lparr>nn_Namespace = (if owner \<noteq> [] then owner @ ''_'' @ namespace else namespace), nn_Name = key\<rparr>))"

section \<open>Lemmas\<close>

lemma last_index_char: "c \<notin> set b \<Longrightarrow> last_index (a @ c # b) [c] = Some (length a)"
proof (induction a)
  case Nil
  have "\<not> Contains b [c]" using Nil by (auto simp: Contains_iff)
  then have "last_index b [c] = None" by (simp add: last_index_None)
  then show ?case by (simp add: HasPrefix_def)
qed simp

lemma last_index_char_None: "c \<notin> set s \<Longrightarrow> last_index s [c] = None"
  by (subst last_index_None) (auto simp: Contains_iff)

lemma last_index_double: "c \<notin> set b \<Longrightarrow> last_index (a @ c # c # b) [c, c] = Some (length a)"
proof (induction a)
  case Nil
  have "\<not> Contains (c # b) [c, c]" using Nil by (auto simp: Contains_iff Cons_eq_append_conv)
  then have "last_index (c # b) [c, c] = None" by (simp only: last_index_None not_False_eq_True list.simps)
  then show ?case by (simp add: HasPrefix_def)
qed simp

lemma length_Hash [simp]: "length (Hash s) = 10"
  by (simp add: Hash_def Let_def)

lemma Hash_chars: "c \<in> set (Hash s) \<Longrightarrow> is_hex_digit c"
  unfolding Hash_def Let_def
  by (rule hex_EncodeToString_chars) (auto dest: in_set_takeD intro: sha1_Sum_bytes)

lemma ResolveSource_prefix:
  assumes "CHR ''_'' \<notin> set namespace" and "src \<noteq> []"
  shows "ResolveSource \<lparr>nn_Namespace = src @ ''_'' @ namespace, nn_Name = name\<rparr> defaultSource =
     (\<lparr>nn_Namespace = namespace, nn_Name = name\<rparr>, src)"
  using assms last_index_char[of "CHR ''_''" namespace src]
  by (simp add: ResolveSource_def LastIndex_def nat_add_distrib)

lemma ResolveSource_plain:
  assumes "CHR ''_'' \<notin> set (nn_Namespace name)"
  shows "ResolveSource name defaultSource = (name, defaultSource)"
  using last_index_char_None[OF assms] by (simp add: ResolveSource_def LastIndex_def)

lemma model_event_concrete:
  assumes name: "p_Name p \<noteq> []" and src: "src \<noteq> []" "CHR ''_'' \<notin> set src"
  shows "model_event namespace UPDATE (concreteModelName p src) =
     Some \<lparr>nn_Namespace = src @ ''_'' @ namespace, nn_Name = p_Name p\<rparr>"
proof -
  let ?key = "concreteModelName p src"
  have "CHR ''_'' \<notin> set (src @ ''-'' @ Hash (p_Spec p))"
    using src(2) Hash_chars[of "CHR ''_''" "p_Spec p"] by (auto simp: is_hex_digit_def)
  then have idx: "LastIndex ?key ''__'' = int (length (p_Name p))"
    using last_index_double[of "CHR ''_''" "src @ ''-'' @ Hash (p_Spec p)" "p_Name p"]
    by (simp add: concreteModelName_def LastIndex_def)
  have len: "int (length ?key) - 11 = int (length (p_Name p) + 2 + length src)"
    by (simp add: concreteModelName_def)
  have "?key ! (length (p_Name p) + 2 + length src) = CHR ''-''"
    by (simp add: concreteModelName_def nth_append)
  then show ?thesis
    using name src(1) unfolding model_event_def idx len Let_def
    by (simp add: concreteModelName_def nat_add_distrib)
qed

section \<open>Properties of the naming scheme\<close>

text \<open>
  The request an InferenceService watch enqueues resolves back to the object's own namespace and name
  and to the source prefix it was enqueued with, whatever the default source (Kubernetes
  namespaces contain no underscore).
\<close>

lemma ResolveSource_prefixName:
  assumes "CHR ''_'' \<notin> set (om_Namespace obj)" and "pre \<noteq> []"
  shows "ResolveSource (prefixName pre obj) defaultSource =
     (\<lparr>nn_Namespace = om_Namespace obj, nn_Name = om_Name obj\<rparr>, pre)"
  using ResolveSource_prefix[OF assms] by (simp add: prefixName_def)

theorem ResolveSource_prefixName_witness:
  "ResolveSource (prefixName InferenceServiceCRSourceId (zero_Meta\<lparr>om_Namespace := ''ns'', om_Name := ''m''\<rparr>)) PredictorCRSourceId =
     (\<lparr>nn_Namespace = ''ns'', nn_Name = ''m''\<rparr>, InferenceServiceCRSourceId)"
  using ResolveSource_prefixName[of "zero_Meta\<lparr>om_Namespace := ''ns'', om_Name := ''m''\<rparr>" InferenceServiceCRSourceId]
  by (simp add: InferenceServiceCRSourceId_def)

text \<open>
  C13. A registry event of model-mesh for the concrete model of a Predictor leads back to that Predictor:
  the listener recovers name and source from the key \<open>name__source-hash\<close>, and \<open>ResolveSource\<close> turns the
  enqueued request into the Predictor's own name, namespace and source. This holds for every Predictor
  name, also one with underscores or dashes, and uses that \<open>Hash\<close> always has ten hexadecimal digits.
\<close>

theorem model_event_roundtrip:
  assumes "p_Name p \<noteq> []" and "sourceId \<noteq> []" and "CHR ''_'' \<notin> set sourceId"
    and "CHR ''_'' \<notin> set namespace"
  shows "map_option (\<lambda>n. ResolveSource n defaultSource)
      (model_event namespace UPDATE (concreteModelName p sourceId)) =
     Some (\<lparr>nn_Namespace = namespace, nn_Name = p_Name p\<rparr>, sourceId)"
  using model_event_concrete[OF assms(1-3), of namespace] ResolveSource_prefix[OF assms(4,2)] by simp

theorem model_event_roundtrip_witness:
  "map_option (\<lambda>n. ResolveSource n PredictorCRSourceId)
      (model_event ''ns'' UPDATE (concreteModelName (zero_Predictor\<lparr>p_Meta := zero_Meta\<lparr>om_Name := ''my__model''\<rparr>\<rparr>) PredictorCRSourceId)) =
     Some (\<lparr>nn_Namespace = ''ns'', nn_Name = ''my__model''\<rparr>, PredictorCRSourceId)"
  using model_event_roundtrip[of "zero_Predictor\<lparr>p_Meta := zero_Meta\<lparr>om_Name := ''my__model''\<rparr>\<rparr>" PredictorCRSourceId "''ns''" PredictorCRSourceId]
  by (simp add: PredictorCRSourceId_def zero_Predictor_def)

end
