(* ===== verification/Type_Labels.thy ===== *)
theory Type_Labels
  imports Api_Types Go_Encoding
begin

text \<open>
  Placement labels (controllers/modelmesh/model\_type\_labels.go and \<open>generateLabelsEnvVar\<close> of
  constraints.go): the labels a serving runtime carries and the one label expression a Predictor asks
  for. The fields of \<open>ServingRuntimeSpec\<close> are those the controller reads; the protocol constants
  of kserve are the record \<open>ks_protocols\<close>. A \<open>sets.Set[string]\<close> is a list without duplicates.
\<close>

record SupportedModelFormat =
  smf_Name :: string
  smf_Version :: "string option"
  smf_AutoSelect :: "bool option"

record ks_protocols =
  ks_ProtocolV1 :: string
  ks_ProtocolV2 :: string
  ks_ProtocolGRPCV2 :: string
  ks_ProtocolUnknown :: string

type_synonym sset = "string list"

abbreviation sset_insert :: "string \<Rightarrow> sset \<Rightarrow> sset" where
  "sset_insert \<equiv> List.insert"

definition sset_union :: "sset \<Rightarrow> sset \<Rightarrow> sset" where
  "sset_union a b = fold List.insert b a"

text \<open>\<open>sets.List\<close>: the members in ascending order.\<close>

definition sset_List :: "sset \<Rightarrow> string list" where
  "sset_List s = map fst (sort_keys (map (\<lambda>k. (k, ())) s))"

section \<open>Labels of a runtime\<close>

definition mt_labels :: "SupportedModelFormat list \<Rightarrow> sset" where
  "mt_labels formats =
     fold (\<lambda>t mtSet.
        if smf_AutoSelect t = Some True then
          (let mtSet' = sset_insert (''mt:'' @ smf_Name t) mtSet
           in case smf_Version t of
                None \<Rightarrow> mtSet'
              | Some v \<Rightarrow> sset_insert (''mt:'' @ smf_Name t @ '':'' @ v) mtSet')
        else mtSet) formats []"

definition pv_labels :: "ks_protocols \<Rightarrow> bool \<Rightarrow> string list \<Rightarrow> sset" where
  "pv_labels ks restProxyEnabled protocolVersions =
     fold (\<lambda>pv pvSet.
        (let pvSet' = sset_insert (''pv:'' @ pv) pvSet
         in if restProxyEnabled \<and> pv = ks_ProtocolGRPCV2 ks
            then sset_insert (''pv:'' @ ks_ProtocolV2 ks) pvSet' else pvSet')) protocolVersions []"

definition GetServingRuntimeLabelSets ::
  "ks_protocols \<Rightarrow> SupportedModelFormat list \<Rightarrow> string list \<Rightarrow> bool \<Rightarrow> string \<Rightarrow> sset \<times> sset \<times> string" where
  "GetServingRuntimeLabelSets ks formats protocolVersions restProxyEnabled rtName =
     (mt_labels formats, pv_labels ks restProxyEnabled protocolVersions, ''rt:'' @ rtName)"

definition GetServingRuntimeLabelSet ::
  "ks_protocols \<Rightarrow> SupportedModelFormat list \<Rightarrow> string list \<Rightarrow> bool \<Rightarrow> string \<Rightarrow> sset" where
  "GetServingRuntimeLabelSet ks formats protocolVersions restProxyEnabled rtName =
     (let (s1, s2, l) = GetServingRuntimeLabelSets ks formats protocolVersions restProxyEnabled rtName
      in sset_insert l (sset_union s1 s2))"

definition generateLabelsEnvVar ::
  "ks_protocols \<Rightarrow> SupportedModelFormat list \<Rightarrow> string list \<Rightarrow> bool \<Rightarrow> string \<Rightarrow> string" where
  "generateLabelsEnvVar ks formats protocolVersions restProxyEnabled rtName =
     join_with '','' (sset_List (GetServingRuntimeLabelSet ks formats protocolVersions restProxyEnabled rtName))"

text \<open>The label in the default constraint, which no runtime carries (cluster\_config.go).\<close>

definition ModelTypeLabelThatNoRuntimeSupports :: string where
  "ModelTypeLabelThatNoRuntimeSupports = ''_no_runtime''"

section \<open>Label of a Predictor\<close>

text \<open>
  Reading \<open>runtime.Name\<close> goes through the embedded \<open>RuntimeRef\<close> pointer: \<open>None\<close> is the nil dereference when
  a runtime section is there without a reference.
\<close>

definition GetPredictorTypeLabel :: "Predictor \<Rightarrow> string option" where
  "GetPredictorTypeLabel p =
     (let mt = m_Type (p_Spec p);
          label = ''mt:'' @ mt_Name mt;
          label = (case mt_Version mt of None \<Rightarrow> label | Some v \<Rightarrow> label @ '':'' @ v);
          label = (case ps_ProtocolVersion (p_Spec p) of None \<Rightarrow> label | Some pv \<Rightarrow> label @ ''|pv:'' @ pv)
      in case ps_Runtime (p_Spec p) of
           None \<Rightarrow> Some label
         | Some r \<Rightarrow>
             (case pr_RuntimeRef r of
                None \<Rightarrow> None
              | Some ref \<Rightarrow> if rr_Name ref \<noteq> [] then Some (''rt:'' @ rr_Name ref) else Some label))"

section \<open>Lemmas\<close>

lemma set_sset_insert [simp]: "set (sset_insert x s) = insert x (set s)"
  by simp

lemma set_sset_union [simp]: "set (sset_union a b) = set a \<union> set b"
  by (induction b arbitrary: a) (auto simp: sset_union_def)

lemma set_insert_key [simp]: "set (insert_key e m) = insert e (set m)"
  by (induction m) auto

lemma set_sort_keys [simp]: "set (sort_keys m) = set m"
  by (induction m) (auto simp: sort_keys_def)

lemma set_sset_List [simp]: "set (sset_List s) = set s"
  by (force simp: sset_List_def)

lemma set_fold_insert:
  "set (fold (\<lambda>t acc. if P t then f t acc else acc) ts acc0) = set acc0 \<union> (\<Union>t \<in> {t \<in> set ts. P t}. g t)"
  if "\<And>t acc. P t \<Longrightarrow> set (f t acc) = set acc \<union> g t"
  using that by (induction ts arbitrary: acc0) auto

lemma set_mt_labels:
  "set (mt_labels formats) =
     (\<Union>t \<in> {t \<in> set formats. smf_AutoSelect t = Some True}.
        {''mt:'' @ smf_Name t} \<union> (case smf_Version t of None \<Rightarrow> {} | Some v \<Rightarrow> {''mt:'' @ smf_Name t @ '':'' @ v}))"
proof -
  have "set (mt_labels formats) = set [] \<union> (\<Union>t \<in> {t \<in> set formats. smf_AutoSelect t = Some True}.
        {''mt:'' @ smf_Name t} \<union> (case smf_Version t of None \<Rightarrow> {} | Some v \<Rightarrow> {''mt:'' @ smf_Name t @ '':'' @ v}))"
    unfolding mt_labels_def by (rule set_fold_insert) (auto simp: Let_def split: option.splits)
  then show ?thesis by simp
qed

lemma set_pv_labels:
  "set (pv_labels ks rest pvs) =
     (\<lambda>pv. ''pv:'' @ pv) ` (set pvs \<union> (if rest \<and> ks_ProtocolGRPCV2 ks \<in> set pvs then {ks_ProtocolV2 ks} else {}))"
proof -
  have "set (fold (\<lambda>pv pvSet.
        (let pvSet' = sset_insert (''pv:'' @ pv) pvSet
         in if rest \<and> pv = ks_ProtocolGRPCV2 ks then sset_insert (''pv:'' @ ks_ProtocolV2 ks) pvSet' else pvSet')) pvs acc) =
     set acc \<union> (\<lambda>pv. ''pv:'' @ pv) ` (set pvs \<union> (if rest \<and> ks_ProtocolGRPCV2 ks \<in> set pvs then {ks_ProtocolV2 ks} else {}))" for acc
    by (induction pvs arbitrary: acc) (auto simp: Let_def)
  then show ?thesis by (simp add: pv_labels_def)
qed

lemma set_GetServingRuntimeLabelSet:
  "set (GetServingRuntimeLabelSet ks formats pvs rest rtName) =
     set (mt_labels formats) \<union> set (pv_labels ks rest pvs) \<union> {''rt:'' @ rtName}"
  by (auto simp: GetServingRuntimeLabelSet_def GetServingRuntimeLabelSets_def)

end
