(* ===== verification/Registry.thy ===== *)
theory Registry
  imports Watch_Source Type_Labels
begin

text \<open>
  Predictor registries: the interface \<open>PredictorRegistry\<close> of predictor\_source.go and its
  implementations for Predictor resources (predictor\_registry.go) and for the cached sources; the one for
  InferenceServices is in a theory of its own. The Kubernetes client is a record of functions from
  requests to answers.

  \<open>Find\<close> calls its predicate on a sequence of Predictors; that sequence is what a registry gives
  here (\<open>None\<close> in it: the implementation returns true at that point because an object could not
  be turned into a Predictor), and \<open>registry_Find\<close> runs a predicate with state over it.
\<close>

section \<open>The interface\<close>

record PredictorRegistry =
  rg_Get :: "NamespacedName \<Rightarrow> api_error + Predictor option"
  rg_Items :: "string \<Rightarrow> api_error + Predictor option list"
  rg_UpdateStatus :: "Predictor \<Rightarrow> api_error + bool"

definition find_body :: "('s \<Rightarrow> Predictor \<Rightarrow> ('s \<times> bool) option) \<Rightarrow> 's \<Rightarrow> Predictor option \<Rightarrow> ('s \<times> bool) option" where
  "find_body f s item = (case item of None \<Rightarrow> Some (s, True) | Some p \<Rightarrow> f s p)"

definition registry_Find ::
  "api_error + Predictor option list \<Rightarrow> ('s \<Rightarrow> Predictor \<Rightarrow> ('s \<times> bool) option) \<Rightarrow> 's \<Rightarrow> (api_error + 's \<times> bool) option" where
  "registry_Find items f s =
     (case items of
        Inl err \<Rightarrow> Some (Inl err)
      | Inr xs \<Rightarrow> map_option Inr (visit_loop (find_body f) s xs))"

text \<open>
  What the scaling logic relies on: a Predictor that \<open>Get\<close> returns is among those \<open>Find\<close> shows to its
  predicate, with the same metadata and spec, unless \<open>Find\<close> gives up with true before.
\<close>

locale predictor_registry =
  fixes get :: "'r \<Rightarrow> NamespacedName \<Rightarrow> api_error + Predictor option"
    and items :: "'r \<Rightarrow> string \<Rightarrow> api_error + Predictor option list"
    and valid :: "'r \<Rightarrow> bool"
  assumes items_complete: "valid r \<Longrightarrow> items r (nn_Namespace n) = Inr xs \<Longrightarrow> get r n = Inr (Some p) \<Longrightarrow>
     None \<in> set xs \<or> (\<exists>q. Some q \<in> set xs \<and> p_Spec q = p_Spec p \<and> p_Meta q = p_Meta p)"
begin

lemma find_false_means_none:
  assumes "valid r" and "registry_Find (items r (nn_Namespace n)) f s = Some (Inr (t, False))"
    and "get r n = Inr (Some p)"
    and stateless: "\<And>s s' p q b. p_Spec p = p_Spec q \<Longrightarrow> p_Meta p = p_Meta q \<Longrightarrow>
      (\<exists>v. f s p = Some (v, b)) \<longleftrightarrow> (\<exists>v. f s' q = Some (v, b))"
  shows "\<exists>v. f s' p = Some (v, False)"
proof -
  obtain xs where xs: "items r (nn_Namespace n) = Inr xs" "visit_loop (find_body f) s xs = Some (t, False)"
    using assms(2) by (auto simp: registry_Find_def split: sum.splits)
  have "None \<notin> set xs" using visit_loop_not_found[OF xs(2)] by (force simp: find_body_def)
  then obtain q where "Some q \<in> set xs" "p_Spec q = p_Spec p" "p_Meta q = p_Meta p"
    using items_complete[OF assms(1) xs(1) assms(3)] by blast
  then obtain u v where "f u q = Some (v, False)" using visit_loop_not_found[OF xs(2), of "Some q"] by (auto simp: find_body_def)
  then show ?thesis using stateless[OF \<open>p_Spec q = p_Spec p\<close> \<open>p_Meta q = p_Meta p\<close>, of u False s'] by blast
qed

end

section \<open>Predictor resources (predictor\_registry.go)\<close>

record predictor_client =
  pcl_Get :: "NamespacedName \<Rightarrow> api_error + Predictor"
  pcl_List :: "string \<Rightarrow> api_error + Predictor list"
  pcl_StatusUpdate :: "Predictor \<Rightarrow> api_error option"

definition cr_Get :: "predictor_client \<Rightarrow> NamespacedName \<Rightarrow> api_error + Predictor option" where
  "cr_Get client name = (case pcl_Get client name of Inl err \<Rightarrow> Inl err | Inr p \<Rightarrow> Inr (Some p))"

definition cr_Find_items :: "predictor_client \<Rightarrow> string \<Rightarrow> api_error + Predictor option list" where
  "cr_Find_items client namespace =
     (case pcl_List client namespace of Inl err \<Rightarrow> Inl err | Inr ps \<Rightarrow> Inr (map Some ps))"

definition cr_UpdateStatus :: "predictor_client \<Rightarrow> Predictor \<Rightarrow> api_error + bool" where
  "cr_UpdateStatus client predictor =
     (case pcl_StatusUpdate client predictor of
        None \<Rightarrow> Inr True
      | Some Conflict \<Rightarrow> Inr False
      | Some err \<Rightarrow> Inl err)"

definition PredictorCRRegistry :: "predictor_client \<Rightarrow> PredictorRegistry" where
  "PredictorCRRegistry client =
     \<lparr>rg_Get = cr_Get client, rg_Items = cr_Find_items client, rg_UpdateStatus = cr_UpdateStatus client\<rparr>"

text \<open>A client whose list and get requests read the same store.\<close>

definition predictor_client_consistent :: "predictor_client \<Rightarrow> bool" where
  "predictor_client_consistent client \<longleftrightarrow>
     (\<forall>n p ps. pcl_Get client n = Inr p \<and> pcl_List client (nn_Namespace n) = Inr ps \<longrightarrow> p \<in> set ps)"

interpretation cr: predictor_registry cr_Get cr_Find_items predictor_client_consistent
  by unfold_locales
    (fastforce simp: cr_Get_def cr_Find_items_def predictor_client_consistent_def split: sum.splits)

section \<open>Cached sources\<close>

definition cached_Get :: "gotime \<times> cachedPredictorSource \<Rightarrow> NamespacedName \<Rightarrow> api_error + Predictor option" where
  "cached_Get = (\<lambda>(now, s) name. Inr (map_option (cs_mem s) (cs_Get now name s)))"

definition cached_Find_items :: "gotime \<times> cachedPredictorSource \<Rightarrow> string \<Rightarrow> api_error + Predictor option list" where
  "cached_Find_items = (\<lambda>(now, s) namespace.
     Inr (map Some (filter (\<lambda>p. \<not> isDeleted now p \<and> p_Namespace p = namespace) (map (\<lambda>(_, a). cs_mem s a) (cs_cache s)))))"

lemma cs_Get_cached:
  assumes "cs_inv s" and "cs_Get now n s = Some p"
  shows "(n, p) \<in> set (cs_cache s)" and "\<not> isDeleted now (cs_mem s p)" and "p_Namespace (cs_mem s p) = nn_Namespace n"
proof -
  have g: "gomap_get (cs_cache s) n = Some p" and d: "\<not> isDeleted now (cs_mem s p)"
    using assms(2) by (auto simp: cs_Get_def cs_get_def split: option.splits if_splits)
  show "(n, p) \<in> set (cs_cache s)" using g by (rule map_of_SomeD)
  show "\<not> isDeleted now (cs_mem s p)" by (rule d)
  show "p_Namespace (cs_mem s p) = nn_Namespace n" using cs_invD(3)[OF assms(1) g] by (auto simp: nn_def)
qed

interpretation cached: predictor_registry cached_Get cached_Find_items "\<lambda>(now, s). cs_inv s"
  by unfold_locales
    (force simp: cached_Get_def cached_Find_items_def dest: cs_Get_cached split: prod.splits)

end
