(* ===== verification/Predictor_Controller.thy ===== *)
theory Predictor_Controller
  imports Source_Names Registry
begin

text \<open>
  The Predictor reconciler (controllers/predictor\_controller.go). model-mesh (its gRPC client) and the
  registry are arguments: functions from the request to the answer. The calls the reconciler makes
  are returned in order, with its result. \<open>None\<close> as a result is a Go panic; \<open>now\<close> is the clock.
\<close>

section \<open>Messages of model-mesh\<close>

datatype ModelStatus =
    ModelStatusInfo_NOT_FOUND
  | ModelStatusInfo_NOT_LOADED
  | ModelStatusInfo_LOADING
  | ModelStatusInfo_LOADED
  | ModelStatusInfo_LOADING_FAILED
  | ModelStatusInfo_UNKNOWN
  | ModelStatusInfo_other int

datatype VModelStatus =
    VModelStatusInfo_NOT_FOUND
  | VModelStatusInfo_DEFINED
  | VModelStatusInfo_TRANSITIONING
  | VModelStatusInfo_TRANSITION_FAILED
  | VModelStatusInfo_UNKNOWN
  | VModelStatusInfo_other int

record ModelCopyInfo =
  mci_Location :: string
  mci_CopyStatus :: ModelStatus
  mci_Time :: "64 word"

record ModelStatusInfo =
  msi_Status :: ModelStatus
  msi_Errors :: "string list"
  msi_ModelCopyInfos :: "ModelCopyInfo option list"

record VModelStatusInfo =
  vms_Status :: VModelStatus
  vms_ActiveModelId :: string
  vms_TargetModelId :: string
  vms_ActiveModelStatus :: "ModelStatusInfo option"
  vms_TargetModelStatus :: "ModelStatusInfo option"

datatype grpc_code = Unavailable | AlreadyExists | OtherCode int

record grpc_error =
  ge_Code :: grpc_code
  ge_Message :: string

record SetVModelRequest =
  svr_VModelId :: string
  svr_Owner :: string
  svr_TargetModelId :: string
  svr_AutoDeleteTargetModel :: bool
  svr_LoadNow :: bool
  svr_ModelType :: string
  svr_ModelPath :: string
  svr_ModelKey :: string

record mm_client =
  mc_GetVModelStatus :: "string \<Rightarrow> string \<Rightarrow> grpc_error + VModelStatusInfo"
  mc_SetVModel :: "SetVModelRequest \<Rightarrow> grpc_error + VModelStatusInfo"
  mc_DeleteVModel :: "string \<Rightarrow> string \<Rightarrow> grpc_error option"

definition isNoAddresses :: "grpc_error \<Rightarrow> bool" where
  "isNoAddresses err \<longleftrightarrow> ge_Code err = Unavailable \<and> Contains (ge_Message err) ''produced zero addresses''"

section \<open>Validation and model fields\<close>

definition validatePredictor :: "Predictor \<Rightarrow> string" where
  "validatePredictor predictor =
     (case m_Storage (p_Spec predictor) of
        None \<Rightarrow> []
      | Some storage \<Rightarrow>
          if ss_Path storage \<noteq> None \<and> m_Path (p_Spec predictor) \<noteq> [] then
            ''Only one of spec.path and spec.storage.path can be specified''
          else if ss_SchemaPath storage \<noteq> None \<and> m_SchemaPath (p_Spec predictor) \<noteq> None then
            ''Only one of spec.schemaPath and spec.storage.schemaPath can be specified''
          else if st_PersistentVolumeClaim storage \<noteq> None then
            ''spec.storage.PersistentVolumeClaim is not supported''
          else if st_S3 storage \<noteq> None \<and> (ss_Path storage \<noteq> None \<or> ss_SchemaPath storage \<noteq> None \<or>
                    ss_Parameters storage \<noteq> None \<or> ss_StorageKey storage \<noteq> None) then
            ''spec.storage.s3 cannot be specified with any other keys in spec.storage''
          else [])"

definition extractModelFields ::
  "Predictor \<Rightarrow> string \<times> string option \<times> string option \<times> (string, string) gomap" where
  "extractModelFields predictor =
     (case m_Storage (p_Spec predictor) of
        None \<Rightarrow> ([], None, None, [])
      | Some storage \<Rightarrow>
          (let path = (case ss_Path storage of Some v \<Rightarrow> v | None \<Rightarrow> m_Path (p_Spec predictor));
               schemaPath = (case ss_SchemaPath storage of Some v \<Rightarrow> Some v | None \<Rightarrow> m_SchemaPath (p_Spec predictor));
               storageKey = (case ss_StorageKey storage of
                               Some v \<Rightarrow> Some v
                             | None \<Rightarrow> map_option s3_SecretKey (st_S3 storage));
               storageParams = (case ss_Parameters storage of
                                  Some m \<Rightarrow> m
                                | None \<Rightarrow>
                                    (case st_S3 storage of
                                       None \<Rightarrow> []
                                     | Some s3 \<Rightarrow> (case s3_Bucket s3 of None \<Rightarrow> [] | Some b \<Rightarrow> [(''bucket'', b)])))
           in (path, schemaPath, storageKey, storageParams)))"

record ModelKeyInfo =
  mki_StorageKey :: "string option"
  mki_StorageParams :: "(string, string) gomap"
  mki_ModelType :: ModelType
  mki_SchemaPath :: "string option"

definition json_ModelKeyInfo :: "ModelKeyInfo \<Rightarrow> json" where
  "json_ModelKeyInfo k = JObject
     (omitempty ''storage_key'' JString (mki_StorageKey k) @
      (if mki_StorageParams k = [] then [] else [(''storage_params'', json_map (mki_StorageParams k))]) @
      [(''model_type'', json_ModelType (mki_ModelType k))] @
      omitempty ''schema_path'' JString (mki_SchemaPath k))"

text \<open>The request \<open>setVModel\<close> sends.\<close>

definition setVModel :: "Predictor \<Rightarrow> bool \<Rightarrow> string \<Rightarrow> SetVModelRequest option" where
  "setVModel predictor loadNow sourceId =
     (let (path, schemaPath, storageKey, storageParams) = extractModelFields predictor;
          mki = \<lparr>mki_StorageKey = storageKey, mki_StorageParams = storageParams,
                 mki_ModelType = m_Type (p_Spec predictor), mki_SchemaPath = schemaPath\<rparr>
      in map_option (\<lambda>label.
           \<lparr>svr_VModelId = p_Name predictor, svr_Owner = sourceId,
            svr_TargetModelId = concreteModelName predictor sourceId,
            svr_AutoDeleteTargetModel = True, svr_LoadNow = loadNow,
            svr_ModelType = label, svr_ModelPath = path,
            svr_ModelKey = json_encode (json_ModelKeyInfo mki)\<rparr>)
           (GetPredictorTypeLabel predictor))"

section \<open>Status\<close>

definition modelStateMap :: "ModelStatus \<Rightarrow> ModelState" where
  "modelStateMap s =
     (case s of
        ModelStatusInfo_NOT_LOADED \<Rightarrow> Standby
      | ModelStatusInfo_LOADING \<Rightarrow> Loading
      | ModelStatusInfo_LOADED \<Rightarrow> Loaded
      | ModelStatusInfo_LOADING_FAILED \<Rightarrow> FailedToLoad
      | _ \<Rightarrow> NoModelState)"

definition transitionStatusMap :: "VModelStatus \<Rightarrow> TransitionStatus" where
  "transitionStatusMap s =
     (case s of
        VModelStatusInfo_DEFINED \<Rightarrow> UpToDate
      | VModelStatusInfo_TRANSITIONING \<Rightarrow> InProgress
      | VModelStatusInfo_TRANSITION_FAILED \<Rightarrow> BlockedByFailedLoad
      | _ \<Rightarrow> NoTransitionStatus)"

definition noHomeMessage :: string where
  "noHomeMessage = ''There are no running instances that meet the label requirements of type ''"

text \<open>The slice \<open>msg[len:len+3]\<close> panics (\<open>None\<close>) when the message is shorter.\<close>

definition decodeModelState :: "ModelStatusInfo option \<Rightarrow> (ModelState \<times> FailureReason \<times> string) option" where
  "decodeModelState status =
     (case status of
        None \<Rightarrow> Some (Pending, NoFailureReason, [])
      | Some info \<Rightarrow>
          (let state = modelStateMap (msi_Status info);
               (reason, msg) = (case msi_Errors info of
                                  [] \<Rightarrow> (NoFailureReason, [])
                                | e # _ \<Rightarrow> (ModelLoadFailed, e))
           in if state \<noteq> FailedToLoad then Some (state, reason, msg)
              else if \<not> HasPrefix msg noHomeMessage then Some (FailedToLoad, ModelLoadFailed, msg)
              else if \<not> HasSuffix msg (''['' @ ModelTypeLabelThatNoRuntimeSupports @ '']'') then
                Some (Loading, RuntimeUnhealthy, ''Waiting for supporting runtime Pod to become available'')
              else if length msg < length noHomeMessage + 3 then None
              else if take 3 (drop (length noHomeMessage) msg) = ''rt:'' then
                Some (FailedToLoad, RuntimeNotRecognized, ''Specified runtime name not recognized'')
              else
                Some (FailedToLoad, NoSupportingRuntime,
                      ''No ServingRuntime supports specified model type and/or protocol'')))"

definition setStatusFailureInfo :: "PredictorStatus \<Rightarrow> FailureInfo option \<Rightarrow> bool \<times> PredictorStatus" where
  "setStatusFailureInfo crStatus info =
     (if info = pst_LastFailureInfo crStatus then (False, crStatus)
      else (True, crStatus\<lparr>pst_LastFailureInfo := info\<rparr>))"

type_synonym copy_counts = "int \<times> int \<times> int \<times> int"

definition countModelCopyStates :: "ModelStatusInfo option \<Rightarrow> copy_counts \<Rightarrow> copy_counts" where
  "countModelCopyStates statusInfo counts =
     (case statusInfo of
        None \<Rightarrow> counts
      | Some si \<Rightarrow>
          fold (\<lambda>info (loading, loaded, failed, total).
             case info of
               None \<Rightarrow> (loading, loaded, failed, total)
             | Some i \<Rightarrow>
                 (case mci_CopyStatus i of
                    ModelStatusInfo_LOADING \<Rightarrow> (loading + 1, loaded, failed, total + 1)
                  | ModelStatusInfo_LOADED \<Rightarrow> (loading, loaded + 1, failed, total + 1)
                  | ModelStatusInfo_LOADING_FAILED \<Rightarrow> (loading, loaded, failed + 1, total + 1)
                  | _ \<Rightarrow> (loading, loaded, failed, total + 1))) (msi_ModelCopyInfos si) counts)"

text \<open>\<open>v1.Unix\<close>: seconds since 1970 are 62135596800 seconds after the zero time.\<close>

definition unix_time :: "int \<Rightarrow> int \<Rightarrow> gotime" where
  "unix_time sec nsec = (62135596800 + sec) * Second + nsec"

definition is_failed_copy :: "ModelCopyInfo option \<Rightarrow> bool" where
  "is_failed_copy info =
     (case info of None \<Rightarrow> False | Some i \<Rightarrow> mci_CopyStatus i = ModelStatusInfo_LOADING_FAILED)"

text \<open>The failure info for a target model that is not loaded and has a failure reason.\<close>

definition target_failure ::
  "gotime \<Rightarrow> PredictorStatus \<Rightarrow> string \<Rightarrow> ModelStatusInfo \<Rightarrow> FailureReason \<Rightarrow> string \<Rightarrow> FailureInfo" where
  "target_failure now status targetModelId targetModelStatus reason message =
     (let fi = \<lparr>fi_Location = [], fi_Reason = reason, fi_Message = message, fi_ModelId = targetModelId, fi_Time = None\<rparr>
      in if reason = ModelLoadFailed then
           (case find is_failed_copy (msi_ModelCopyInfos targetModelStatus) of
              Some (Some info) \<Rightarrow>
                (let fi' = fi\<lparr>fi_Location := mci_Location info\<rparr>
                 in if mci_Time info \<noteq> 0
                    then fi'\<lparr>fi_Time := Some (unix_time (uint (mci_Time info div 1000))
                                                      (uint ((mci_Time info mod 1000) * 1000000)))\<rparr>
                    else fi')
            | _ \<Rightarrow> fi)
         else
           (case pst_LastFailureInfo status of
              None \<Rightarrow> fi\<lparr>fi_Time := Some now\<rparr>
            | Some lfi \<Rightarrow>
                (case fi_Time lfi of
                   None \<Rightarrow> fi\<lparr>fi_Time := Some now\<rparr>
                 | Some t \<Rightarrow> if time_Sub now t > 20 * Second then fi\<lparr>fi_Time := Some now\<rparr>
                             else fi\<lparr>fi_Time := Some t\<rparr>)))"

definition available :: "PredictorStatus \<Rightarrow> bool" where
  "available status \<longleftrightarrow> pst_ActiveModelState status \<noteq> NoModelState \<and>
     pst_ActiveModelState status \<noteq> FailedToLoad \<and> \<not> WaitingForRuntime status"

text \<open>
  \<open>updatePredictorStatusFromVModel\<close> in the order of its assignments: the model states, transition and
  failure when they are included, availability, endpoints and copy counts.
\<close>

definition counted :: "FailureReason \<Rightarrow> bool" where
  "counted reason \<longleftrightarrow> reason = NoFailureReason \<or> reason = ModelLoadFailed"

definition update_model_states ::
  "PredictorStatus \<Rightarrow> VModelStatusInfo
     \<Rightarrow> (bool \<times> PredictorStatus \<times> copy_counts \<times> ModelStatusInfo option \<times> FailureReason \<times> string) option" where
  "update_model_states status vModelState =
     (case decodeModelState (vms_ActiveModelStatus vModelState) of
        None \<Rightarrow> None
      | Some (ams, amfr, amm) \<Rightarrow>
          (let (changed, status1) =
                 (if ams = NoModelState then (False, status)
                  else if pst_ActiveModelState status \<noteq> ams then (True, status\<lparr>pst_ActiveModelState := ams\<rparr>)
                  else (False, status));
               tmsBefore = pst_TargetModelState status1;
               counts = (if counted amfr then countModelCopyStates (vms_ActiveModelStatus vModelState) (0, 0, 0, 0)
                         else (0, 0, 0, 0))
           in if vms_ActiveModelId vModelState = vms_TargetModelId vModelState then
                Some (changed \<or> tmsBefore \<noteq> NoModelState, status1\<lparr>pst_TargetModelState := NoModelState\<rparr>, counts,
                      vms_ActiveModelStatus vModelState, amfr, amm)
              else
                (case vms_TargetModelStatus vModelState of
                   None \<Rightarrow> Some (changed, status1, counts, None, NoFailureReason, [])
                 | Some target \<Rightarrow>
                     (case decodeModelState (Some target) of
                        None \<Rightarrow> None
                      | Some (tms, reason, msg) \<Rightarrow>
                          Some (changed \<or> tmsBefore \<noteq> tms, status1\<lparr>pst_TargetModelState := tms\<rparr>,
                                (if counted reason then countModelCopyStates (Some target) counts else counts),
                                Some target, reason, msg)))))"

text \<open>The transition status and the failure info to set, the variables \<open>ts\<close> and \<open>fi\<close> of the code.\<close>

definition new_transition :: "VModelStatusInfo \<Rightarrow> ModelStatusInfo option \<Rightarrow> TransitionStatus" where
  "new_transition v target =
     (if transitionStatusMap (vms_Status v) = BlockedByFailedLoad \<and>
         map_option msi_Status target = Some ModelStatusInfo_LOADING
      then InProgress else transitionStatusMap (vms_Status v))"

definition new_failure ::
  "gotime \<Rightarrow> VModelStatusInfo \<Rightarrow> PredictorStatus \<Rightarrow> ModelStatusInfo option \<Rightarrow> FailureReason \<Rightarrow> string \<Rightarrow> FailureInfo option" where
  "new_failure now v s target r m =
     (case target of
        None \<Rightarrow> None
      | Some tm \<Rightarrow>
          if msi_Status tm = ModelStatusInfo_LOADED then None
          else if r = NoFailureReason then (if WaitingForRuntime s then pst_LastFailureInfo s else None)
          else Some (target_failure now s (vms_TargetModelId v) tm r m))"

definition update_transition ::
  "gotime \<Rightarrow> VModelStatusInfo \<Rightarrow> PredictorStatus \<Rightarrow> ModelStatusInfo option \<Rightarrow> FailureReason \<Rightarrow> string
     \<Rightarrow> bool \<times> PredictorStatus" where
  "update_transition now vModelState status target reason message =
     (let ts = new_transition vModelState target;
          (changed, status1) = (if pst_TransitionStatus status \<noteq> ts then (True, status\<lparr>pst_TransitionStatus := ts\<rparr>)
                                else (False, status));
          fi = new_failure now vModelState status1 target reason message;
          (changed', status2) = setStatusFailureInfo status1 fi
      in (changed \<or> changed', status2))"

definition update_endpoints_counts ::
  "string \<times> string \<Rightarrow> copy_counts \<Rightarrow> PredictorStatus \<Rightarrow> bool \<times> PredictorStatus" where
  "update_endpoints_counts endpoints counts status =
     (let (endpoint, httpEndpoint) = endpoints;
          (_, _, failed, total) = counts;
          status0 = status\<lparr>pst_Available := available status\<rparr>;
          (c1, status1) = (if pst_GrpcEndpoint status0 \<noteq> endpoint \<or> pst_HTTPEndpoint status0 \<noteq> httpEndpoint
                           then (True, status0\<lparr>pst_GrpcEndpoint := endpoint, pst_HTTPEndpoint := httpEndpoint\<rparr>)
                           else (False, status0));
          (c2, status2) = (if failed \<noteq> pst_FailedCopies status1 \<or> total \<noteq> pst_TotalCopies status1
                           then (True, status1\<lparr>pst_FailedCopies := failed, pst_TotalCopies := total\<rparr>)
                           else (False, status1))
      in (c1 \<or> c2, status2))"

definition updatePredictorStatusFromVModel ::
  "gotime \<Rightarrow> string \<times> string \<Rightarrow> PredictorStatus \<Rightarrow> VModelStatusInfo \<Rightarrow> bool \<Rightarrow> (bool \<times> PredictorStatus) option" where
  "updatePredictorStatusFromVModel now endpoints status vModelState includeTransitionAndFailure =
     (case update_model_states status vModelState of
        None \<Rightarrow> None
      | Some (changed, status1, counts, target, reason, message) \<Rightarrow>
          (let (changed1, status2) = (if includeTransitionAndFailure
                                      then update_transition now vModelState status1 target reason message
                                      else (False, status1));
               (changed2, status3) = update_endpoints_counts endpoints counts status2
           in Some (changed \<or> changed1 \<or> changed2, status3)))"

section \<open>Reconciliation\<close>

text \<open>What the reconciler sees of a namespace's \<open>MMService\<close>: its client and its inference endpoints.\<close>

record mms_view =
  mv_MMClient :: "mm_client option"
  mv_InferenceEndpoints :: "string \<times> string"

datatype pc_call =
    CallGetVModelStatus string string
  | CallSetVModel SetVModelRequest
  | CallDeleteVModel string string
  | CallUpdateStatus Predictor

datatype ctrl_result = Done | Requeue | RequeueAfter duration

datatype pc_error =
    FetchFailed api_error
  | GetVModelStatusFailed grpc_error
  | VModelExists grpc_error
  | SetVModelFailed grpc_error
  | UpdateStatusFailed api_error
  | DeleteVModelFailed grpc_error

type_synonym reconcile_outcome = "((pc_error + ctrl_result) \<times> pc_call list) option"

definition getMMClient :: "(string, mms_view) gomap \<Rightarrow> string \<Rightarrow> mm_client option" where
  "getMMClient services namespace =
     (case gomap_get services namespace of None \<Rightarrow> None | Some v \<Rightarrow> mv_MMClient v)"

definition service_endpoints :: "(string, mms_view) gomap \<Rightarrow> string \<Rightarrow> string \<times> string" where
  "service_endpoints services namespace =
     (case gomap_get services namespace of None \<Rightarrow> ([], []) | Some v \<Rightarrow> mv_InferenceEndpoints v)"

definition handlePredictorNotFound ::
  "mm_client option \<Rightarrow> NamespacedName \<Rightarrow> string \<Rightarrow> (pc_error + ctrl_result) \<times> pc_call list" where
  "handlePredictorNotFound mmc name sourceId =
     (case mmc of
        None \<Rightarrow> (Inr (RequeueAfter (10 * Second)), [])
      | Some c \<Rightarrow>
          (let call = [CallDeleteVModel (nn_Name name) sourceId]
           in case mc_DeleteVModel c (nn_Name name) sourceId of
                Some err \<Rightarrow>
                  if isNoAddresses err then
                    (if sourceId = InferenceServiceCRSourceId then (Inr Done, call)
                     else (Inr (RequeueAfter (10 * Second)), call))
                  else (Inl (DeleteVModelFailed err), call)
              | None \<Rightarrow> (Inr Done, call)))"

text \<open>
  The two branches on the spec's validity give: whether to update the status, the new status, whether
  the client still counts as connected, the pending error and the calls made.
\<close>

type_synonym reconcile_stage = "bool \<times> PredictorStatus \<times> bool \<times> pc_error option \<times> pc_call list"

definition invalid_failure :: "Predictor \<Rightarrow> string \<Rightarrow> string \<Rightarrow> FailureInfo" where
  "invalid_failure predictor sourceId message =
     \<lparr>fi_Location = [], fi_Reason = InvalidPredictorSpec, fi_Message = message,
      fi_ModelId = concreteModelName predictor sourceId, fi_Time = None\<rparr>"

definition reconcile_invalid ::
  "gotime \<Rightarrow> (string, mms_view) gomap \<Rightarrow> NamespacedName \<Rightarrow> string \<Rightarrow> Predictor \<Rightarrow> string \<Rightarrow> reconcile_stage option" where
  "reconcile_invalid now services nname sourceId predictor message =
     (let status = p_Status predictor;
          synced =
            (case getMMClient services (nn_Namespace nname) of
               None \<Rightarrow> Some (False, status, False, None, [])
             | Some c \<Rightarrow>
                 (let call = [CallGetVModelStatus (p_Name predictor) sourceId]
                  in case mc_GetVModelStatus c (p_Name predictor) sourceId of
                       Inl err \<Rightarrow>
                         if isNoAddresses err then Some (False, status, False, None, call)
                         else Some (False, status, True, Some (GetVModelStatusFailed err), call)
                     | Inr vModelState \<Rightarrow>
                         map_option (\<lambda>(changed, status'). (changed, status', True, None, call))
                           (updatePredictorStatusFromVModel now (service_endpoints services (nn_Namespace nname))
                              status vModelState False)))
      in case synced of
           None \<Rightarrow> None
         | Some (update, status1, connected, err, calls) \<Rightarrow>
             (let (c1, status2) = setStatusFailureInfo status1 (Some (invalid_failure predictor sourceId message));
                  (c2, status3) = (if pst_TransitionStatus status2 \<noteq> InvalidSpec
                                   then (True, status2\<lparr>pst_TransitionStatus := InvalidSpec\<rparr>) else (False, status2))
              in Some (update \<or> c1 \<or> c2, status3, connected, err, calls)))"

definition load_now :: "Predictor \<Rightarrow> bool" where
  "load_now predictor \<longleftrightarrow>
     (let status = p_Status predictor
      in p_DeletionTimestamp predictor = None \<and>
         (pst_ActiveModelState status = Pending \<or> pst_ActiveModelState status = FailedToLoad \<or>
          pst_TargetModelState status \<noteq> NoModelState \<or>
          (pst_ActiveModelState status = Loading \<and> WaitingForRuntime status)))"

definition reconcile_valid ::
  "gotime \<Rightarrow> (string, mms_view) gomap \<Rightarrow> NamespacedName \<Rightarrow> string \<Rightarrow> Predictor \<Rightarrow> reconcile_stage option" where
  "reconcile_valid now services nname sourceId predictor =
     (let status = p_Status predictor
      in case getMMClient services (nn_Namespace nname) of
           None \<Rightarrow> Some (False, status, False, None, [])
         | Some c \<Rightarrow>
             (case setVModel predictor (load_now predictor) sourceId of
                None \<Rightarrow> None
              | Some req \<Rightarrow>
                  (let call = [CallSetVModel req]
                   in case mc_SetVModel c req of
                        Inr vModelState \<Rightarrow>
                          map_option (\<lambda>(changed, status'). (changed, status', True, None, call))
                            (updatePredictorStatusFromVModel now (service_endpoints services (nn_Namespace nname))
                               status vModelState True)
                      | Inl err \<Rightarrow>
                          if isNoAddresses err then
                            (let (changed, status') = setStatusFailureInfo status
                                   (Some \<lparr>fi_Location = [], fi_Reason = RuntimeUnhealthy,
                                          fi_Message = ''Waiting for runtime Pod to become available'',
                                          fi_ModelId = concreteModelName predictor sourceId, fi_Time = None\<rparr>)
                             in Some (changed, status', True, None, call))
                          else if ge_Code err = AlreadyExists then
                            (let (changed, status') = setStatusFailureInfo status
                                   (Some \<lparr>fi_Location = [], fi_Reason = InvalidPredictorSpec,
                                          fi_Message = ''Predictor already exists with the same name from a different source'',
                                          fi_ModelId = [], fi_Time = None\<rparr>)
                             in Some (changed, status', True, Some (VModelExists err), call))
                          else Some (False, status, True, Some (SetVModelFailed err), call))))"

text \<open>The common end: the status update, the pending error, and when to come back.\<close>

definition reconcile_finish ::
  "PredictorRegistry \<Rightarrow> Predictor \<Rightarrow> reconcile_stage \<Rightarrow> (pc_error + ctrl_result) \<times> pc_call list" where
  "reconcile_finish registry predictor = (\<lambda>(updateStatus, status, connected, finalErr, calls).
     let after = (\<lambda>err calls'.
           case err of
             Some e \<Rightarrow> (Inl e, calls')
           | None \<Rightarrow>
               if \<not> connected \<or> WaitingForRuntime status then (Inr (RequeueAfter (3 * Second)), calls')
               else if pst_ActiveModelState status = Loading then (Inr (RequeueAfter (1 * Second)), calls')
               else (Inr Done, calls'))
     in if updateStatus then
          (let p = predictor\<lparr>p_Status := status\<rparr>;
               calls' = calls @ [CallUpdateStatus p]
           in case rg_UpdateStatus registry p of
                Inl err \<Rightarrow> after (Some (UpdateStatusFailed err)) calls'
              | Inr False \<Rightarrow> (Inr Requeue, calls')
              | Inr True \<Rightarrow> after finalErr calls')
        else after finalErr calls)"

definition ReconcilePredictor ::
  "gotime \<Rightarrow> (string, mms_view) gomap \<Rightarrow> NamespacedName \<Rightarrow> string \<Rightarrow> PredictorRegistry \<Rightarrow> reconcile_outcome" where
  "ReconcilePredictor now services nname sourceId registry =
     (case rg_Get registry nname of
        Inr None \<Rightarrow> Some (handlePredictorNotFound (getMMClient services (nn_Namespace nname)) nname sourceId)
      | Inl NotFound \<Rightarrow> Some (handlePredictorNotFound (getMMClient services (nn_Namespace nname)) nname sourceId)
      | Inl err \<Rightarrow> Some (Inl (FetchFailed err), [])
      | Inr (Some predictor) \<Rightarrow>
          (let message = validatePredictor predictor
           in map_option (reconcile_finish registry predictor)
                (if message \<noteq> [] then reconcile_invalid now services nname sourceId predictor message
                 else reconcile_valid now services nname sourceId predictor)))"

text \<open>\<open>Reconcile\<close>: resolve the source and look up its registry; unknown sources are ignored.\<close>

definition Reconcile_Predictor ::
  "gotime \<Rightarrow> (string, mms_view) gomap \<Rightarrow> (string, PredictorRegistry) gomap \<Rightarrow> NamespacedName \<Rightarrow> reconcile_outcome" where
  "Reconcile_Predictor now services registryLookup req =
     (let (nname, src) = ResolveSource req PredictorCRSourceId
      in case gomap_get registryLookup src of
           None \<Rightarrow> Some (Inr Done, [])
         | Some registry \<Rightarrow> ReconcilePredictor now services nname src registry)"

section \<open>Decoding model states\<close>

lemma no_bracket_in_noHomeMessage: "CHR ''['' \<notin> set noHomeMessage"
  by (simp add: noHomeMessage_def)

lemma noHome_slice_in_range:
  assumes "HasPrefix msg noHomeMessage" and "HasSuffix msg (''['' @ ModelTypeLabelThatNoRuntimeSupports @ '']'')"
  shows "length noHomeMessage + 3 \<le> length msg"
proof (rule ccontr)
  assume short: "\<not> length noHomeMessage + 3 \<le> length msg"
  obtain t where t: "msg = noHomeMessage @ t" using assms(1) unfolding HasPrefix_iff by blast
  obtain u where u: "msg = u @ CHR ''['' # ''_no_runtime]''"
    using assms(2) unfolding HasSuffix_iff by (auto simp: ModelTypeLabelThatNoRuntimeSupports_def)
  have "length u < length noHomeMessage" using short arg_cong[OF u, of length] by simp
  moreover have "msg ! length u = CHR ''[''" unfolding u by simp
  ultimately have "noHomeMessage ! length u = CHR ''[''" unfolding t by (simp add: nth_append)
  then show False using no_bracket_in_noHomeMessage \<open>length u < length noHomeMessage\<close> nth_mem by metis
qed

lemma decodeModelState_no_error:
  "msi_Errors info = [] \<Longrightarrow> decodeModelState (Some info) =
     Some (modelStateMap (msi_Status info),
           if modelStateMap (msi_Status info) = FailedToLoad then ModelLoadFailed else NoFailureReason, [])"
  by (simp add: decodeModelState_def HasPrefix_def noHomeMessage_def)

lemma decodeModelState_error:
  assumes "msi_Errors info = e # es"
  shows "decodeModelState (Some info) =
     Some (if modelStateMap (msi_Status info) \<noteq> FailedToLoad then (modelStateMap (msi_Status info), ModelLoadFailed, e)
           else if \<not> HasPrefix e noHomeMessage then (FailedToLoad, ModelLoadFailed, e)
           else if \<not> HasSuffix e (''['' @ ModelTypeLabelThatNoRuntimeSupports @ '']'') then
             (Loading, RuntimeUnhealthy, ''Waiting for supporting runtime Pod to become available'')
           else if take 3 (drop (length noHomeMessage) e) = ''rt:'' then
             (FailedToLoad, RuntimeNotRecognized, ''Specified runtime name not recognized'')
           else (FailedToLoad, NoSupportingRuntime,
                 ''No ServingRuntime supports specified model type and/or protocol''))"
  using assms noHome_slice_in_range[of e] by (auto simp: decodeModelState_def)

lemma decodeModelState_total: "\<exists>st r m. decodeModelState s = Some (st, r, m)"
proof (cases s)
  case None
  then show ?thesis by (simp add: decodeModelState_def)
next
  case (Some info)
  then show ?thesis
    using decodeModelState_no_error[of info] decodeModelState_error[of info]
    by (cases "msi_Errors info") (auto intro: prod_cases3)
qed

text \<open>
  \<open>decodeModelState\<close> never panics: the slice of the message after \<open>noHomeMessage\<close> is always in range.
  A reported loading failure stays \<open>FailedToLoad\<close> with a reason, except when model-mesh says that no
  running instance meets the labels of a type that some runtime supports: then the state is \<open>Loading\<close> with
  reason \<open>RuntimeUnhealthy\<close>, and only then is the reason \<open>RuntimeUnhealthy\<close>. Every other state is the
  mapped one.
\<close>

lemma decodeModelState_spec:
  "\<exists>st r m. decodeModelState (Some info) = Some (st, r, m) \<and>
     (let msg = (case msi_Errors info of [] \<Rightarrow> [] | e # _ \<Rightarrow> e);
          failed = (msi_Status info = ModelStatusInfo_LOADING_FAILED);
          waiting = (failed \<and> HasPrefix msg noHomeMessage \<and> \<not> HasSuffix msg ''[_no_runtime]'')
      in st = (if waiting then Loading else modelStateMap (msi_Status info)) \<and>
         (r = RuntimeUnhealthy \<longleftrightarrow> waiting) \<and>
         (r = NoFailureReason \<longleftrightarrow> \<not> failed \<and> msi_Errors info = []) \<and>
         (r = RuntimeNotRecognized \<or> r = NoSupportingRuntime \<longleftrightarrow>
            failed \<and> HasPrefix msg noHomeMessage \<and> HasSuffix msg ''[_no_runtime]''))"
proof -
  have failed: "modelStateMap (msi_Status info) = FailedToLoad \<longleftrightarrow> msi_Status info = ModelStatusInfo_LOADING_FAILED"
    by (cases "msi_Status info") (simp_all add: modelStateMap_def)
  have label: "''['' @ ModelTypeLabelThatNoRuntimeSupports @ '']'' = ''[_no_runtime]''"
    by (simp add: ModelTypeLabelThatNoRuntimeSupports_def)
  have np: "\<not> HasPrefix [] noHomeMessage" by (simp add: HasPrefix_def noHomeMessage_def)
  show ?thesis
  proof (cases "msi_Errors info")
    case Nil
    then show ?thesis using decodeModelState_no_error[OF Nil] failed np by (simp add: Let_def)
  next
    case (Cons e es)
    have ms: "modelStateMap ModelStatusInfo_LOADING_FAILED = FailedToLoad" by (simp add: modelStateMap_def)
    show ?thesis
      using decodeModelState_error[OF Cons] failed Cons ms unfolding label by (simp add: Let_def)
  qed
qed

section \<open>Status updates\<close>

definition active_after :: "PredictorStatus \<Rightarrow> ModelState \<Rightarrow> ModelState" where
  "active_after s ams = (if ams = NoModelState then pst_ActiveModelState s else ams)"

definition active_counts :: "VModelStatusInfo \<Rightarrow> FailureReason \<Rightarrow> copy_counts" where
  "active_counts v amfr =
     (if counted amfr then countModelCopyStates (vms_ActiveModelStatus v) (0, 0, 0, 0) else (0, 0, 0, 0))"

lemma update_model_states_eq:
  assumes "decodeModelState (vms_ActiveModelStatus v) = Some (ams, amfr, amm)"
  shows "vms_ActiveModelId v = vms_TargetModelId v \<Longrightarrow> update_model_states s v =
      Some (active_after s ams \<noteq> pst_ActiveModelState s \<or> pst_TargetModelState s \<noteq> NoModelState,
            s\<lparr>pst_ActiveModelState := active_after s ams, pst_TargetModelState := NoModelState\<rparr>,
            active_counts v amfr, vms_ActiveModelStatus v, amfr, amm)"
    and "vms_ActiveModelId v \<noteq> vms_TargetModelId v \<Longrightarrow> vms_TargetModelStatus v = None \<Longrightarrow> update_model_states s v =
      Some (active_after s ams \<noteq> pst_ActiveModelState s, s\<lparr>pst_ActiveModelState := active_after s ams\<rparr>,
            active_counts v amfr, None, NoFailureReason, [])"
    and "vms_ActiveModelId v \<noteq> vms_TargetModelId v \<Longrightarrow> vms_TargetModelStatus v = Some target \<Longrightarrow>
      decodeModelState (Some target) = Some (tms, r, m) \<Longrightarrow> update_model_states s v =
      Some (active_after s ams \<noteq> pst_ActiveModelState s \<or> pst_TargetModelState s \<noteq> tms,
            s\<lparr>pst_ActiveModelState := active_after s ams, pst_TargetModelState := tms\<rparr>,
            (if counted r then countModelCopyStates (Some target) (active_counts v amfr) else active_counts v amfr),
            Some target, r, m)"
  using assms by (auto simp: update_model_states_def Let_def active_after_def active_counts_def)

text \<open>The three ways through the first stage.\<close>

lemma update_model_states_cases:
  obtains (same) ams amfr amm where "decodeModelState (vms_ActiveModelStatus v) = Some (ams, amfr, amm)"
      "vms_ActiveModelId v = vms_TargetModelId v"
  | (no_target) ams amfr amm where "decodeModelState (vms_ActiveModelStatus v) = Some (ams, amfr, amm)"
      "vms_ActiveModelId v \<noteq> vms_TargetModelId v" "vms_TargetModelStatus v = None"
  | (target) ams amfr amm tg tms r m where "decodeModelState (vms_ActiveModelStatus v) = Some (ams, amfr, amm)"
      "vms_ActiveModelId v \<noteq> vms_TargetModelId v" "vms_TargetModelStatus v = Some tg"
      "decodeModelState (Some tg) = Some (tms, r, m)"
  using decodeModelState_total by (metis not_None_eq)

lemma update_total: "\<exists>c s'. updatePredictorStatusFromVModel now endpoints s v inc = Some (c, s')"
  by (cases v rule: update_model_states_cases)
    (auto simp: update_model_states_eq updatePredictorStatusFromVModel_def Let_def split: prod.splits)

lemma status_update_same [simp]:
  "pst_TargetModelState s = x \<Longrightarrow> s\<lparr>pst_TargetModelState := x\<rparr> = s"
  "pst_ActiveModelState s = y \<Longrightarrow> s\<lparr>pst_ActiveModelState := y\<rparr> = s"
  "pst_Available s = z \<Longrightarrow> s\<lparr>pst_Available := z\<rparr> = s"
  by auto

text \<open>
  Each stage, run again on a status that agrees with its result in the fields it sets, changes nothing.
\<close>

lemma update_model_states_again:
  assumes "update_model_states s v = Some (c, s1, counts, target, r, m)"
    and "pst_ActiveModelState s' = pst_ActiveModelState s1" and "pst_TargetModelState s' = pst_TargetModelState s1"
  shows "update_model_states s' v = Some (False, s', counts, target, r, m)"
proof (cases v rule: update_model_states_cases)
  case same
  then show ?thesis using assms by (auto simp: update_model_states_eq(1) active_after_def)
next
  case no_target
  then show ?thesis using assms by (auto simp: update_model_states_eq(2) active_after_def)
next
  case (target ams amfr amm tg tms r' m')
  then show ?thesis
    using assms update_model_states_eq(3)[OF target, of s] update_model_states_eq(3)[OF target, of s']
    by (auto simp: active_after_def)
qed

lemma update_model_states_unchanged:
  assumes "update_model_states s v = Some (False, s1, counts, target, r, m)"
  shows "s1 = s"
  using assms by (cases v rule: update_model_states_cases) (auto simp: update_model_states_eq)

lemma target_failure_again:
  assumes "pst_LastFailureInfo s' = Some (target_failure now s mid tm r m)"
  shows "target_failure now s' mid tm r m = target_failure now s mid tm r m"
proof (cases "r = ModelLoadFailed")
  case True
  then show ?thesis by (simp add: target_failure_def)
next
  case False
  have now: "\<not> time_Sub now now > 20 * Second"
    by (simp add: time_Sub_def minDuration_def maxDuration_def Second_def)
  show ?thesis
    using assms False now by (auto simp: target_failure_def Let_def split: option.splits if_splits)
qed

lemma WaitingForRuntime_transition [simp]:
  "WaitingForRuntime (s\<lparr>pst_TransitionStatus := x\<rparr>) = WaitingForRuntime s"
  by (simp add: WaitingForRuntime_def)

lemma target_failure_transition [simp]:
  "target_failure now (s\<lparr>pst_TransitionStatus := x\<rparr>) mid tm r m = target_failure now s mid tm r m"
  by (cases "r = ModelLoadFailed") (simp_all add: target_failure_def)

lemma new_failure_transition [simp]:
  "new_failure now v (s\<lparr>pst_TransitionStatus := x\<rparr>) target r m = new_failure now v s target r m"
  by (simp add: new_failure_def split: option.splits)

text \<open>The second stage as one assignment of the new transition status and failure info.\<close>

lemma update_transition_eq:
  "update_transition now v s target r m =
     (pst_TransitionStatus s \<noteq> new_transition v target \<or> new_failure now v s target r m \<noteq> pst_LastFailureInfo s,
      s\<lparr>pst_TransitionStatus := new_transition v target, pst_LastFailureInfo := new_failure now v s target r m\<rparr>)"
  by (auto simp: update_transition_def Let_def setStatusFailureInfo_def)

lemma update_transition_again:
  assumes "update_transition now v s target r m = (c, s2)"
    and "pst_TransitionStatus s' = pst_TransitionStatus s2" and "pst_LastFailureInfo s' = pst_LastFailureInfo s2"
  shows "update_transition now v s' target r m = (False, s')"
proof -
  have s': "pst_TransitionStatus s' = new_transition v target" "pst_LastFailureInfo s' = new_failure now v s target r m"
    using assms by (auto simp: update_transition_eq)
  have "new_failure now v s' target r m = new_failure now v s target r m"
    using s'(2) target_failure_again[of s' now s "vms_TargetModelId v"]
    by (auto simp: new_failure_def WaitingForRuntime_def split: option.splits if_splits)
  then show ?thesis using s' by (simp add: update_transition_eq)
qed

lemma update_endpoints_counts_eq:
  "update_endpoints_counts (g, h) (x, y, f, t) s =
     ((pst_GrpcEndpoint s \<noteq> g \<or> pst_HTTPEndpoint s \<noteq> h) \<or> (f \<noteq> pst_FailedCopies s \<or> t \<noteq> pst_TotalCopies s),
      s\<lparr>pst_Available := available s, pst_GrpcEndpoint := g, pst_HTTPEndpoint := h,
        pst_FailedCopies := f, pst_TotalCopies := t\<rparr>)"
  by (auto simp: update_endpoints_counts_def Let_def)

lemma available_cong:
  "pst_ActiveModelState s = pst_ActiveModelState s' \<Longrightarrow> pst_LastFailureInfo s = pst_LastFailureInfo s' \<Longrightarrow>
     available s = available s'"
  by (simp add: available_def WaitingForRuntime_def)

lemma update_endpoints_counts_again:
  assumes "update_endpoints_counts endpoints counts s = (c, s3)"
  shows "update_endpoints_counts endpoints counts s3 = (False, s3)"
proof -
  obtain g h x y f t where ec: "endpoints = (g, h)" "counts = (x, y, f, t)" by (metis prod_cases4 surj_pair)
  have "available s3 = available s"
    using assms by (intro available_cong) (auto simp: ec update_endpoints_counts_eq)
  then show ?thesis using assms by (auto simp: ec update_endpoints_counts_eq)
qed

lemma update_endpoints_counts_frame:
  assumes "update_endpoints_counts endpoints counts s = (c, s3)"
  shows "pst_ActiveModelState s3 = pst_ActiveModelState s" and "pst_TargetModelState s3 = pst_TargetModelState s"
    and "pst_TransitionStatus s3 = pst_TransitionStatus s" and "pst_LastFailureInfo s3 = pst_LastFailureInfo s"
    and "pst_Available s3 = available s" and "\<not> c \<Longrightarrow> s3 = s\<lparr>pst_Available := available s\<rparr>"
proof -
  obtain g h x y f t where ec: "endpoints = (g, h)" "counts = (x, y, f, t)" by (metis prod_cases4 surj_pair)
  show "pst_ActiveModelState s3 = pst_ActiveModelState s" and "pst_TargetModelState s3 = pst_TargetModelState s"
    and "pst_TransitionStatus s3 = pst_TransitionStatus s" and "pst_LastFailureInfo s3 = pst_LastFailureInfo s"
    and "pst_Available s3 = available s" and "\<not> c \<Longrightarrow> s3 = s\<lparr>pst_Available := available s\<rparr>"
    using assms by (auto simp: ec update_endpoints_counts_eq)
qed

text \<open>The stages of one update, named.\<close>

lemma update_stages:
  assumes "updatePredictorStatusFromVModel now endpoints s v inc = Some (c, s')"
  obtains c0 s1 counts target r m c1 s2 c2 where
    "update_model_states s v = Some (c0, s1, counts, target, r, m)"
    "(if inc then update_transition now v s1 target r m else (False, s1)) = (c1, s2)"
    "update_endpoints_counts endpoints counts s2 = (c2, s')" "c = (c0 \<or> c1 \<or> c2)"
  using assms unfolding updatePredictorStatusFromVModel_def
  by (auto simp: Let_def split: option.splits prod.splits)


text \<open>A loaded model, as model-mesh reports it.\<close>

definition loaded_vmodel :: VModelStatusInfo where
  "loaded_vmodel = \<lparr>vms_Status = VModelStatusInfo_DEFINED, vms_ActiveModelId = ''a'', vms_TargetModelId = ''a'',
     vms_ActiveModelStatus = Some \<lparr>msi_Status = ModelStatusInfo_LOADED, msi_Errors = [],
       msi_ModelCopyInfos = [Some \<lparr>mci_Location = ''pod'', mci_CopyStatus = ModelStatusInfo_LOADED, mci_Time = 0\<rparr>]\<rparr>,
     vms_TargetModelStatus = None\<rparr>"

definition loaded_status :: PredictorStatus where
  "loaded_status = zero_Status\<lparr>pst_Available := True, pst_TransitionStatus := UpToDate,
     pst_ActiveModelState := Loaded, pst_TotalCopies := 1\<rparr>"

lemma decode_loaded [simp]:
  "decodeModelState (vms_ActiveModelStatus loaded_vmodel) = Some (Loaded, NoFailureReason, [])"
  by (simp add: loaded_vmodel_def decodeModelState_def modelStateMap_def)

lemma update_loaded_states:
  "update_model_states s loaded_vmodel =
     Some (pst_ActiveModelState s \<noteq> Loaded \<or> pst_TargetModelState s \<noteq> NoModelState,
           s\<lparr>pst_ActiveModelState := Loaded, pst_TargetModelState := NoModelState\<rparr>, (0, 1, 0, 1),
           vms_ActiveModelStatus loaded_vmodel, NoFailureReason, [])"
  by (subst update_model_states_eq(1)[OF decode_loaded])
    (auto simp: active_after_def active_counts_def counted_def countModelCopyStates_def loaded_vmodel_def)

lemma update_loaded_transition:
  "new_transition loaded_vmodel (vms_ActiveModelStatus loaded_vmodel) = UpToDate"
  "new_failure now loaded_vmodel s (vms_ActiveModelStatus loaded_vmodel) r m = None"
  by (simp_all add: new_transition_def new_failure_def loaded_vmodel_def transitionStatusMap_def)

lemmas update_loaded = updatePredictorStatusFromVModel_def update_loaded_states update_transition_eq
  update_endpoints_counts_eq update_loaded_transition loaded_status_def zero_Status_def available_def WaitingForRuntime_def


text \<open>
  When an update reports no change the status is the old one, up to \<open>Available\<close>, which is set to what
  the active model state and the failure info say without being reported as a change.
\<close>

lemma updatePredictorStatus_unchanged:
  assumes "updatePredictorStatusFromVModel now endpoints s v inc = Some (False, s')"
  shows "s' = s\<lparr>pst_Available := available s\<rparr>"
proof -
  obtain c0 s1 counts target r m c1 s2 c2 where st:
    "update_model_states s v = Some (c0, s1, counts, target, r, m)"
    "(if inc then update_transition now v s1 target r m else (False, s1)) = (c1, s2)"
    "update_endpoints_counts endpoints counts s2 = (c2, s')" "False = (c0 \<or> c1 \<or> c2)"
    using update_stages[OF assms] by metis
  have "s1 = s" using update_model_states_unchanged[of s v s1] st(1,4) by auto
  moreover have "s2 = s1" using st(2,4) by (auto simp: update_transition_eq split: if_splits)
  ultimately show ?thesis using update_endpoints_counts_frame(6)[OF st(3)] st(4) by simp
qed

theorem updatePredictorStatus_unchanged_witness:
  "updatePredictorStatusFromVModel 5 ([], []) (loaded_status\<lparr>pst_Available := False\<rparr>) loaded_vmodel True =
     Some (False, loaded_status)"
proof -
  have u: "updatePredictorStatusFromVModel 5 ([], []) (loaded_status\<lparr>pst_Available := False\<rparr>) loaded_vmodel True =
      Some (False, snd (the (updatePredictorStatusFromVModel 5 ([], []) (loaded_status\<lparr>pst_Available := False\<rparr>) loaded_vmodel True)))"
    by (simp add: update_loaded)
  show ?thesis
    using u updatePredictorStatus_unchanged[OF u]
    by (simp add: available_def WaitingForRuntime_def loaded_status_def zero_Status_def)
qed

section \<open>Outcomes of reconciliation\<close>

lemma setStatusFailureInfo_eq:
  "setStatusFailureInfo s fi = (fi \<noteq> pst_LastFailureInfo s, s\<lparr>pst_LastFailureInfo := fi\<rparr>)"
  by (auto simp: setStatusFailureInfo_def)

text \<open>A status that differs from another at most in \<open>Available\<close>.\<close>

definition same_but_available :: "PredictorStatus \<Rightarrow> PredictorStatus \<Rightarrow> bool" where
  "same_but_available s s' \<longleftrightarrow> s' = s\<lparr>pst_Available := pst_Available s'\<rparr>"

lemma update_no_change:
  "updatePredictorStatusFromVModel now endpoints s v inc = Some (False, s') \<Longrightarrow> same_but_available s s'"
proof -
  assume u: "updatePredictorStatusFromVModel now endpoints s v inc = Some (False, s')"
  obtain c0 s1 counts target r m c1 s2 c2 where st:
    "update_model_states s v = Some (c0, s1, counts, target, r, m)"
    "(if inc then update_transition now v s1 target r m else (False, s1)) = (c1, s2)"
    "update_endpoints_counts endpoints counts s2 = (c2, s')" "False = (c0 \<or> c1 \<or> c2)"
    using update_stages[OF u] by metis
  have "s1 = s" using update_model_states_unchanged[of s v s1] st(1,4) by auto
  moreover have "s2 = s1" using st(2,4) by (auto simp: update_transition_eq split: if_splits)
  ultimately show ?thesis using update_endpoints_counts_frame(6)[OF st(3)] st(4) by (simp add: same_but_available_def)
qed

text \<open>The model-mesh call of a reconciliation, decided by the client and the validity of the spec.\<close>

definition mesh_calls :: "mm_client option \<Rightarrow> Predictor \<Rightarrow> string \<Rightarrow> pc_call list" where
  "mesh_calls mmc p sourceId =
     (if mmc = None then []
      else if validatePredictor p \<noteq> [] then [CallGetVModelStatus (p_Name p) sourceId]
      else map CallSetVModel (case setVModel p (load_now p) sourceId of None \<Rightarrow> [] | Some req \<Rightarrow> [req]))"

lemma reconcile_invalid_stage:
  "\<exists>upd st conn err. reconcile_invalid now services nname src p message = Some (upd, st, conn, err,
      if getMMClient services (nn_Namespace nname) = None then [] else [CallGetVModelStatus (p_Name p) src]) \<and>
     pst_TransitionStatus st = InvalidSpec \<and> pst_LastFailureInfo st = Some (invalid_failure p src message) \<and>
     (\<not> upd \<longrightarrow> same_but_available (p_Status p) st) \<and> (conn \<longrightarrow> getMMClient services (nn_Namespace nname) \<noteq> None)"
proof (cases "getMMClient services (nn_Namespace nname)")
  case None
  then show ?thesis by (auto simp: reconcile_invalid_def setStatusFailureInfo_eq same_but_available_def Let_def)
next
  case (Some c)
  show ?thesis
  proof (cases "mc_GetVModelStatus c (p_Name p) src")
    case (Inl err)
    then show ?thesis
      using Some by (auto simp: reconcile_invalid_def setStatusFailureInfo_eq same_but_available_def Let_def)
  next
    case (Inr v)
    obtain ch st where u: "updatePredictorStatusFromVModel now (service_endpoints services (nn_Namespace nname))
        (p_Status p) v False = Some (ch, st)" using update_total by blast
    have "\<not> ch \<Longrightarrow> same_but_available (p_Status p) st" using update_no_change u by simp
    then show ?thesis
      using Some Inr u
      by (auto simp: reconcile_invalid_def setStatusFailureInfo_eq same_but_available_def Let_def)
  qed
qed

lemma reconcile_valid_stage:
  assumes "validatePredictor p = []"
    and "getMMClient services (nn_Namespace nname) = None \<or> setVModel p (load_now p) src \<noteq> None"
  shows "\<exists>upd st conn err. reconcile_valid now services nname src p = Some (upd, st, conn, err,
      mesh_calls (getMMClient services (nn_Namespace nname)) p src) \<and>
     (\<not> upd \<longrightarrow> same_but_available (p_Status p) st) \<and> (conn \<longleftrightarrow> getMMClient services (nn_Namespace nname) \<noteq> None)"
proof (cases "getMMClient services (nn_Namespace nname)")
  case None
  then show ?thesis using assms(1) by (auto simp: reconcile_valid_def same_but_available_def mesh_calls_def)
next
  case (Some c)
  then obtain req where req: "setVModel p (load_now p) src = Some req" using assms(2) by auto
  have calls: "mesh_calls (Some c) p src = [CallSetVModel req]"
    using assms(1) req by (simp add: mesh_calls_def)
  show ?thesis
  proof (cases "mc_SetVModel c req")
    case (Inl err)
    then show ?thesis
      using Some req
      by (cases "isNoAddresses err"; cases "ge_Code err = AlreadyExists")
        (auto simp: calls reconcile_valid_def setStatusFailureInfo_eq same_but_available_def Let_def)
  next
    case (Inr v)
    obtain ch st where u: "updatePredictorStatusFromVModel now (service_endpoints services (nn_Namespace nname))
        (p_Status p) v True = Some (ch, st)" using update_total by blast
    have "\<not> ch \<Longrightarrow> same_but_available (p_Status p) st" using update_no_change u by simp
    then show ?thesis using Some req Inr u by (auto simp: calls reconcile_valid_def Let_def)
  qed
qed

lemma setVModel_None: "setVModel p l src = None \<longleftrightarrow> GetPredictorTypeLabel p = None"
  by (simp add: setVModel_def Let_def split: prod.splits)

text \<open>
  C11. Reconciliation of a Predictor panics exactly when a valid Predictor whose runtime section has no
  reference (a nil embedded \<open>RuntimeRef\<close>) is sent to a connected model-mesh; in every other case
  it returns a result.
\<close>

theorem ReconcilePredictor_panic_iff:
  "ReconcilePredictor now services nname src registry = None \<longleftrightarrow>
     (\<exists>p rt. rg_Get registry nname = Inr (Some p) \<and> validatePredictor p = [] \<and>
        getMMClient services (nn_Namespace nname) \<noteq> None \<and> ps_Runtime (p_Spec p) = Some rt \<and> pr_RuntimeRef rt = None)"
proof -
  have label: "GetPredictorTypeLabel p = None \<longleftrightarrow> (\<exists>rt. ps_Runtime (p_Spec p) = Some rt \<and> pr_RuntimeRef rt = None)" for p
    by (auto simp: GetPredictorTypeLabel_def Let_def split: option.splits)
  have invalid: "reconcile_invalid now services nname src p m \<noteq> None" for p m
    using reconcile_invalid_stage[of now services nname src p m] by auto
  have valid: "validatePredictor p = [] \<Longrightarrow> reconcile_valid now services nname src p = None \<longleftrightarrow>
      getMMClient services (nn_Namespace nname) \<noteq> None \<and> GetPredictorTypeLabel p = None" for p
    using reconcile_valid_stage[of p services nname src now] setVModel_None[of p "load_now p" src]
    by (cases "getMMClient services (nn_Namespace nname)") (auto simp: reconcile_valid_def)
  show ?thesis
    using invalid valid label
    by (auto simp: ReconcilePredictor_def Let_def split: sum.splits option.splits api_error.splits if_splits)
qed

text \<open>
  The stage a reconciliation of an existing Predictor goes through, whichever branch it takes.
\<close>

definition mesh_refuses :: "(string, mms_view) gomap \<Rightarrow> NamespacedName \<Rightarrow> Predictor \<Rightarrow> string \<Rightarrow> bool" where
  "mesh_refuses services nname p src \<longleftrightarrow> (\<exists>c req err. getMMClient services (nn_Namespace nname) = Some c \<and>
     setVModel p (load_now p) src = Some req \<and> mc_SetVModel c req = Inl err \<and> \<not> isNoAddresses err)"

lemma reconcile_valid_refused:
  assumes "mesh_refuses services nname p src" "reconcile_valid now services nname src p = Some (upd, st, conn, err, calls)"
  shows "err \<noteq> None"
  using assms by (auto simp: mesh_refuses_def reconcile_valid_def Let_def split: if_splits prod.splits)

lemma reconcile_stage_of:
  assumes "ReconcilePredictor now services nname src registry = Some (res, calls)"
    and "rg_Get registry nname = Inr (Some p)"
  obtains upd st conn err where
    "reconcile_finish registry p (upd, st, conn, err, mesh_calls (getMMClient services (nn_Namespace nname)) p src) = (res, calls)"
    "\<not> upd \<Longrightarrow> same_but_available (p_Status p) st" "conn \<Longrightarrow> getMMClient services (nn_Namespace nname) \<noteq> None"
    "validatePredictor p \<noteq> [] \<Longrightarrow> pst_TransitionStatus st = InvalidSpec \<and>
       pst_LastFailureInfo st = Some (invalid_failure p src (validatePredictor p))"
    "validatePredictor p = [] \<Longrightarrow> mesh_refuses services nname p src \<Longrightarrow> err \<noteq> None"
proof (cases "validatePredictor p = []")
  case True
  then have r: "map_option (reconcile_finish registry p) (reconcile_valid now services nname src p) = Some (res, calls)"
    using assms by (simp add: ReconcilePredictor_def)
  then have "getMMClient services (nn_Namespace nname) = None \<or> setVModel p (load_now p) src \<noteq> None"
    by (cases "getMMClient services (nn_Namespace nname)"; cases "setVModel p (load_now p) src")
      (simp_all add: reconcile_valid_def)
  from reconcile_valid_stage[OF True this, of now] obtain upd st conn err where
    "reconcile_valid now services nname src p =
       Some (upd, st, conn, err, mesh_calls (getMMClient services (nn_Namespace nname)) p src)"
    "\<not> upd \<longrightarrow> same_but_available (p_Status p) st" "conn \<longleftrightarrow> getMMClient services (nn_Namespace nname) \<noteq> None" by blast
  then show thesis using r that[of upd st conn err] True reconcile_valid_refused by simp
next
  case False
  then have r: "map_option (reconcile_finish registry p)
      (reconcile_invalid now services nname src p (validatePredictor p)) = Some (res, calls)"
    using assms by (simp add: ReconcilePredictor_def Let_def)
  have m: "mesh_calls (getMMClient services (nn_Namespace nname)) p src =
      (if getMMClient services (nn_Namespace nname) = None then [] else [CallGetVModelStatus (p_Name p) src])"
    using False by (simp add: mesh_calls_def)
  from reconcile_invalid_stage[of now services nname src p "validatePredictor p"] obtain upd st conn err where
    "reconcile_invalid now services nname src p (validatePredictor p) =
       Some (upd, st, conn, err, mesh_calls (getMMClient services (nn_Namespace nname)) p src)"
    "pst_TransitionStatus st = InvalidSpec" "pst_LastFailureInfo st = Some (invalid_failure p src (validatePredictor p))"
    "\<not> upd \<longrightarrow> same_but_available (p_Status p) st" "conn \<longrightarrow> getMMClient services (nn_Namespace nname) \<noteq> None"
    unfolding m by blast
  then show thesis using r that[of upd st conn err] False by simp
qed

text \<open>
  C10. What a reconciliation of an existing Predictor does. It makes one call to model-mesh when a client is
  there (setting the vmodel if the spec is valid, only reading its status if it is not, so an invalid spec never
  reaches model-mesh), then at most one status update, which carries an \<open>InvalidSpec\<close> transition
  status and an \<open>InvalidPredictorSpec\<close> failure for an invalid spec. Without a status update the stored
  status already is the new one up to \<open>Available\<close>. A conflicting status update means an immediate
  requeue. When model-mesh refuses the vmodel, other than for want of a running pod, the reconciliation fails. And it ends without asking to be called again only when a client was there, the model is not
  loading and no runtime is awaited.
\<close>

theorem ReconcilePredictor_outcome:
  assumes "ReconcilePredictor now services nname src registry = Some (res, calls)"
    and "rg_Get registry nname = Inr (Some p)"
  shows "\<exists>st. let p' = p\<lparr>p_Status := st\<rparr>;
      mesh = mesh_calls (getMMClient services (nn_Namespace nname)) p src in
     (calls = mesh \<and> same_but_available (p_Status p) st \<or> calls = mesh @ [CallUpdateStatus p']) \<and>
     (validatePredictor p \<noteq> [] \<longrightarrow> pst_TransitionStatus st = InvalidSpec \<and>
        pst_LastFailureInfo st = Some (invalid_failure p src (validatePredictor p))) \<and>
     (CallUpdateStatus p' \<in> set calls \<and> rg_UpdateStatus registry p' = Inr False \<longrightarrow> res = Inr Requeue) \<and>
     (CallUpdateStatus p' \<in> set calls \<and> rg_UpdateStatus registry p' = Inl e \<longrightarrow> res = Inl (UpdateStatusFailed e)) \<and>
     (validatePredictor p = [] \<and> mesh_refuses services nname p src \<longrightarrow> res = Inr Requeue \<or> (\<exists>e. res = Inl e)) \<and>
     (res = Inr Done \<longrightarrow> getMMClient services (nn_Namespace nname) \<noteq> None \<and>
        \<not> WaitingForRuntime st \<and> pst_ActiveModelState st \<noteq> Loading)"
proof -
  obtain upd st conn err where f:
    "reconcile_finish registry p (upd, st, conn, err, mesh_calls (getMMClient services (nn_Namespace nname)) p src) = (res, calls)"
    "\<not> upd \<Longrightarrow> same_but_available (p_Status p) st" "conn \<Longrightarrow> getMMClient services (nn_Namespace nname) \<noteq> None"
    "validatePredictor p \<noteq> [] \<Longrightarrow> pst_TransitionStatus st = InvalidSpec \<and>
       pst_LastFailureInfo st = Some (invalid_failure p src (validatePredictor p))"
    "validatePredictor p = [] \<Longrightarrow> mesh_refuses services nname p src \<Longrightarrow> err \<noteq> None"
    by (rule reconcile_stage_of[OF assms]) (rule that)
  have no: "CallUpdateStatus x \<notin> set (mesh_calls mmc p src)" for x mmc
    by (auto simp: mesh_calls_def)
  show ?thesis
  proof (cases upd)
    case True
    then show ?thesis
      using f(1,3,4,5) by (intro exI[of _ st]) (auto simp: reconcile_finish_def Let_def
          split: sum.splits bool.splits option.splits if_splits)
  next
    case False
    then show ?thesis
      using f no by (intro exI[of _ st]) (auto simp: reconcile_finish_def Let_def split: option.splits if_splits)
  qed
qed

text \<open>A model-mesh that reports every model as loaded, and a registry with one Predictor.\<close>

definition loaded_mesh :: mm_client where
  "loaded_mesh = \<lparr>mc_GetVModelStatus = (\<lambda>_ _. Inr loaded_vmodel), mc_SetVModel = (\<lambda>_. Inr loaded_vmodel),
     mc_DeleteVModel = (\<lambda>_ _. None)\<rparr>"

definition loaded_services :: "(string, mms_view) gomap" where
  "loaded_services = [(''ns'', \<lparr>mv_MMClient = Some loaded_mesh, mv_InferenceEndpoints = ([], [])\<rparr>)]"

definition one_registry :: "Predictor \<Rightarrow> PredictorRegistry" where
  "one_registry p = \<lparr>rg_Get = (\<lambda>_. Inr (Some p)), rg_Items = (\<lambda>_. Inr [Some p]), rg_UpdateStatus = (\<lambda>_. Inr True)\<rparr>"

definition the_name :: NamespacedName where
  "the_name = \<lparr>nn_Namespace = ''ns'', nn_Name = ''m''\<rparr>"

lemma one_mesh_simps [simp]:
  "getMMClient loaded_services (nn_Namespace the_name) = Some loaded_mesh"
  "service_endpoints loaded_services (nn_Namespace the_name) = ([], [])"
  "rg_Get (one_registry p) n = Inr (Some p)" "rg_UpdateStatus (one_registry p) q = Inr True"
  "mc_GetVModelStatus loaded_mesh a b = Inr loaded_vmodel" "mc_SetVModel loaded_mesh req = Inr loaded_vmodel"
  by (simp_all add: getMMClient_def loaded_services_def service_endpoints_def the_name_def one_registry_def loaded_mesh_def)

lemma new_predictor_reconciled:
  "\<exists>req. ReconcilePredictor 5 loaded_services the_name PredictorCRSourceId (one_registry zero_Predictor) =
     Some (Inr Done, [CallSetVModel req, CallUpdateStatus (zero_Predictor\<lparr>p_Status := loaded_status\<rparr>)])"
proof -
  have v: "validatePredictor zero_Predictor = []"
    by (simp add: validatePredictor_def zero_Predictor_def zero_Spec_def)
  obtain req where req: "setVModel zero_Predictor (load_now zero_Predictor) PredictorCRSourceId = Some req"
    using setVModel_None[of zero_Predictor "load_now zero_Predictor" PredictorCRSourceId]
    by (auto simp: GetPredictorTypeLabel_def zero_Predictor_def zero_Spec_def)
  have u: "updatePredictorStatusFromVModel 5 ([], []) (p_Status zero_Predictor) loaded_vmodel True = Some (True, loaded_status)"
    by (simp add: update_loaded zero_Predictor_def)
  have "\<not> WaitingForRuntime loaded_status" "pst_ActiveModelState loaded_status = Loaded"
    by (simp_all add: WaitingForRuntime_def loaded_status_def zero_Status_def)
  then show ?thesis
    using v req u by (simp add: ReconcilePredictor_def reconcile_valid_def reconcile_finish_def)
qed

theorem ReconcilePredictor_outcome_witness:
  "\<exists>calls st. ReconcilePredictor 5 loaded_services the_name PredictorCRSourceId (one_registry zero_Predictor) =
      Some (Inr Done, calls) \<and> CallUpdateStatus (zero_Predictor\<lparr>p_Status := st\<rparr>) \<in> set calls \<and>
      pst_ActiveModelState st \<noteq> Loading \<and> \<not> WaitingForRuntime st"
proof -
  obtain req where r: "ReconcilePredictor 5 loaded_services the_name PredictorCRSourceId (one_registry zero_Predictor) =
      Some (Inr Done, [CallSetVModel req, CallUpdateStatus (zero_Predictor\<lparr>p_Status := loaded_status\<rparr>)])"
    using new_predictor_reconciled by blast
  from ReconcilePredictor_outcome[OF r one_mesh_simps(3)] show ?thesis
    using r by (auto simp: Let_def mesh_calls_def split: if_splits option.splits)
qed


text \<open>
  A reconciliation of a Predictor that does not exist (any more) only ever asks model-mesh to delete its
  vmodel. It ends for good when that succeeded (or, for InferenceServices, when there are no model-mesh pods);
  otherwise it fails or comes back in ten seconds.
\<close>

lemma ReconcilePredictor_not_found:
  assumes "rg_Get registry nname = Inr None \<or> rg_Get registry nname = Inl NotFound"
  shows "\<exists>res calls. ReconcilePredictor now services nname src registry = Some (res, calls) \<and>
     set calls \<subseteq> {CallDeleteVModel (nn_Name nname) src} \<and>
     (res = Inr Done \<longleftrightarrow> (\<exists>c. getMMClient services (nn_Namespace nname) = Some c \<and>
        (mc_DeleteVModel c (nn_Name nname) src = None \<or>
         src = InferenceServiceCRSourceId \<and> (\<exists>err. mc_DeleteVModel c (nn_Name nname) src = Some err \<and> isNoAddresses err)))) \<and>
     (res = Inr Done \<or> res = Inr (RequeueAfter (10 * Second)) \<or> (\<exists>err. res = Inl (DeleteVModelFailed err)))"
  using assms
  by (cases "getMMClient services (nn_Namespace nname)")
    (auto simp: ReconcilePredictor_def handlePredictorNotFound_def Let_def split: option.splits)

theorem ReconcilePredictor_not_found_witness:
  "\<exists>calls. ReconcilePredictor 5 loaded_services the_name PredictorCRSourceId
      \<lparr>rg_Get = (\<lambda>_. Inl NotFound), rg_Items = (\<lambda>_. Inr []), rg_UpdateStatus = (\<lambda>_. Inr True)\<rparr> = Some (Inr Done, calls)"
  using ReconcilePredictor_not_found[of "\<lparr>rg_Get = (\<lambda>_. Inl NotFound), rg_Items = (\<lambda>_. Inr []), rg_UpdateStatus = (\<lambda>_. Inr True)\<rparr>" the_name 5
      loaded_services PredictorCRSourceId]
  by (auto simp: loaded_mesh_def)

end
