(* ===== verification/Go_Url.thy ===== *)
theory Go_Url
  imports Prelude
begin

text \<open>
  The part of Go's \<open>net/url\<close> that the InferenceService registry uses: \<open>url.Parse\<close> and \<open>(*URL).String\<close>. A host in
  square brackets is an IP literal; what the library makes of one differs between Go releases, so its
  parser is the argument \<open>ip_literal\<close> (\<open>None\<close>: rejected).
\<close>

section \<open>Escaping\<close>

datatype encoding = encodePath | encodeHost | encodeUserPassword | encodeFragment

definition is_letter :: "char \<Rightarrow> bool" where
  "is_letter c \<longleftrightarrow> (let n = of_char c :: nat in 97 \<le> n \<and> n \<le> 122 \<or> 65 \<le> n \<and> n \<le> 90)"

definition shouldEscape :: "char \<Rightarrow> encoding \<Rightarrow> bool" where
  "shouldEscape c mode \<longleftrightarrow>
     \<not> (is_letter c \<or> is_digit c \<or>
        mode = encodeHost \<and> c \<in> set ([CHR 0x27] @ ''!$&()*+,;=:[]<>'' @ [CHR 0x22]) \<or>
        c \<in> set ''-_.~'' \<or>
        c \<in> set ''$&+,/:;=?@'' \<and>
          (mode = encodePath \<and> c \<noteq> CHR ''?'' \<or>
           mode = encodeUserPassword \<and> c \<notin> set ''@/?:'' \<or>
           mode = encodeFragment) \<or>
        mode = encodeFragment \<and> c \<in> set ''!()*'')"

definition unhex :: "char \<Rightarrow> nat option" where
  "unhex c = (let n = of_char c :: nat in
     if 48 \<le> n \<and> n \<le> 57 then Some (n - 48)
     else if 97 \<le> n \<and> n \<le> 102 then Some (n - 87)
     else if 65 \<le> n \<and> n \<le> 70 then Some (n - 55) else None)"

text \<open>\<open>unescape\<close>: \<open>None\<close> is \<open>EscapeError\<close> or \<open>InvalidHostError\<close>.\<close>

fun unescape :: "encoding \<Rightarrow> string \<Rightarrow> string option" where
  "unescape mode [] = Some []"
| "unescape mode (c # s) =
     (if c = CHR ''%'' then
        (case s of
           a # b # rest \<Rightarrow>
             (case (unhex a, unhex b) of
                (Some x, Some y) \<Rightarrow>
                  if mode = encodeHost \<and> x < 8 \<and> \<not> (a = CHR ''2'' \<and> b = CHR ''5'') then None
                  else map_option ((#) (char_of (16 * x + y))) (unescape mode rest)
              | _ \<Rightarrow> None)
         | _ \<Rightarrow> None)
      else if mode = encodeHost \<and> (of_char c :: nat) < 128 \<and> shouldEscape c mode then None
      else map_option ((#) c) (unescape mode s))"

definition upper_hex :: "nat \<Rightarrow> char" where
  "upper_hex n = ''0123456789ABCDEF'' ! n"

definition escape :: "string \<Rightarrow> encoding \<Rightarrow> string" where
  "escape s mode = concat (map (\<lambda>c.
     if shouldEscape c mode
     then [CHR ''%'', upper_hex (of_char c div 16), upper_hex (of_char c mod 16)] else [c]) s)"

definition validEncoded :: "string \<Rightarrow> encoding \<Rightarrow> bool" where
  "validEncoded s mode \<longleftrightarrow>
     list_all (\<lambda>c. c \<in> set ([CHR 0x27] @ ''!$&()*+,;=:@[]%'') \<or> \<not> shouldEscape c mode) s"

section \<open>URLs\<close>

record URL =
  url_Scheme :: string
  url_Opaque :: string
  url_User :: "(string \<times> string option) option"
  url_Host :: string
  url_Path :: string
  url_RawPath :: string
  url_OmitHost :: bool
  url_ForceQuery :: bool
  url_RawQuery :: string
  url_Fragment :: string
  url_RawFragment :: string

definition zero_URL :: URL where
  "zero_URL = \<lparr>url_Scheme = [], url_Opaque = [], url_User = None, url_Host = [], url_Path = [], url_RawPath = [],
     url_OmitHost = False, url_ForceQuery = False, url_RawQuery = [], url_Fragment = [], url_RawFragment = []\<rparr>"

text \<open>\<open>strings.Cut\<close> at a byte: the parts before and after its first occurrence.\<close>

definition cut :: "char \<Rightarrow> string \<Rightarrow> string \<times> string" where
  "cut c s = (takeWhile (\<lambda>x. x \<noteq> c) s, tl (dropWhile (\<lambda>x. x \<noteq> c) s))"

text \<open>\<open>getScheme\<close>: \<open>None\<close> is the error \<open>missing protocol scheme\<close>.\<close>

fun scheme_scan :: "string \<Rightarrow> string \<Rightarrow> string \<Rightarrow> (string \<times> string) option" where
  "scheme_scan raw done [] = Some ([], raw)"
| "scheme_scan raw done (c # s) =
     (if is_letter c then scheme_scan raw (done @ [c]) s
      else if is_digit c \<or> c \<in> set ''+-.'' then
        (if done = [] then Some ([], raw) else scheme_scan raw (done @ [c]) s)
      else if c = CHR '':'' then (if done = [] then None else Some (done, s))
      else Some ([], raw))"

definition getScheme :: "string \<Rightarrow> (string \<times> string) option" where
  "getScheme raw = scheme_scan raw [] raw"

definition lower_char :: "char \<Rightarrow> char" where
  "lower_char c = (let n = of_char c :: nat in if 65 \<le> n \<and> n \<le> 90 then char_of (n + 32) else c)"

definition validOptionalPort :: "string \<Rightarrow> bool" where
  "validOptionalPort port \<longleftrightarrow> port = [] \<or> hd port = CHR '':'' \<and> list_all is_digit (tl port)"

definition parseHost :: "(string \<Rightarrow> string option) \<Rightarrow> string \<Rightarrow> string option" where
  "parseHost ip_literal host =
     (if CHR ''['' \<in> set host then ip_literal host
      else (case last_index host '':'' of
              None \<Rightarrow> unescape encodeHost host
            | Some i \<Rightarrow> if validOptionalPort (drop i host) then unescape encodeHost host else None))"

definition validUserinfo :: "string \<Rightarrow> bool" where
  "validUserinfo s \<longleftrightarrow> list_all (\<lambda>c. is_letter c \<or> is_digit c \<or> c \<in> set ([CHR 0x27] @ ''-._:~!$&()*+,;=%@'')) s"

definition parseUser :: "string \<Rightarrow> (string \<times> string option) option" where
  "parseUser userinfo =
     (if \<not> validUserinfo userinfo then None
      else if CHR '':'' \<notin> set userinfo then map_option (\<lambda>u. (u, None)) (unescape encodeUserPassword userinfo)
      else (let (username, password) = cut (CHR '':'') userinfo
            in case (unescape encodeUserPassword username, unescape encodeUserPassword password) of
                 (Some u, Some p) \<Rightarrow> Some (u, Some p)
               | _ \<Rightarrow> None))"

definition parseAuthority :: "(string \<Rightarrow> string option) \<Rightarrow> string \<Rightarrow> ((string \<times> string option) option \<times> string) option" where
  "parseAuthority ip_literal authority =
     (case last_index authority ''@'' of
        None \<Rightarrow> map_option (\<lambda>h. (None, h)) (parseHost ip_literal authority)
      | Some i \<Rightarrow>
          (case parseHost ip_literal (drop (i + 1) authority) of
             None \<Rightarrow> None
           | Some h \<Rightarrow> map_option (\<lambda>u. (Some u, h)) (parseUser (take i authority))))"

definition setPath :: "URL \<Rightarrow> string \<Rightarrow> URL option" where
  "setPath u p =
     map_option (\<lambda>path. u\<lparr>url_Path := path, url_RawPath := (if p = escape path encodePath then [] else p)\<rparr>) (unescape encodePath p)"

definition setFragment :: "URL \<Rightarrow> string \<Rightarrow> URL option" where
  "setFragment u f =
     map_option (\<lambda>frag. u\<lparr>url_Fragment := frag, url_RawFragment := (if f = escape frag encodeFragment then [] else f)\<rparr>)
       (unescape encodeFragment f)"

definition split_query :: "string \<Rightarrow> URL \<Rightarrow> string \<times> URL" where
  "split_query rest u =
     (if HasSuffix rest ''?'' \<and> count_list rest (CHR ''?'') = 1
      then (butlast rest, u\<lparr>url_ForceQuery := True\<rparr>)
      else (let (r, q) = cut (CHR ''?'') rest in (r, u\<lparr>url_RawQuery := q\<rparr>)))"

definition parse_rest :: "(string \<Rightarrow> string option) \<Rightarrow> string \<Rightarrow> URL \<Rightarrow> URL option" where
  "parse_rest ip_literal rest u =
     (if \<not> HasPrefix rest ''/'' \<and> url_Scheme u \<noteq> [] then Some (u\<lparr>url_Opaque := rest\<rparr>)
      else if \<not> HasPrefix rest ''/'' \<and> CHR '':'' \<in> set (fst (cut (CHR ''/'') rest)) then None
      else if (url_Scheme u \<noteq> [] \<or> \<not> HasPrefix rest ''///'') \<and> HasPrefix rest ''//'' then
        (let authority = takeWhile (\<lambda>c. c \<noteq> CHR ''/'') (drop 2 rest);
             path = dropWhile (\<lambda>c. c \<noteq> CHR ''/'') (drop 2 rest)
         in case parseAuthority ip_literal authority of
              None \<Rightarrow> None
            | Some (user, host) \<Rightarrow> setPath (u\<lparr>url_User := user, url_Host := host\<rparr>) path)
      else if url_Scheme u \<noteq> [] \<and> HasPrefix rest ''/'' then setPath (u\<lparr>url_OmitHost := True\<rparr>) rest
      else setPath u rest)"

definition parse_url :: "(string \<Rightarrow> string option) \<Rightarrow> string \<Rightarrow> URL option" where
  "parse_url ip_literal raw =
     (if list_ex (\<lambda>c. (of_char c :: nat) < 32 \<or> c = CHR 0x7F) raw then None
      else if raw = ''*'' then Some (zero_URL\<lparr>url_Path := ''*''\<rparr>)
      else (case getScheme raw of
              None \<Rightarrow> None
            | Some (scheme, rest) \<Rightarrow>
                (let (rest', u) = split_query rest (zero_URL\<lparr>url_Scheme := map lower_char scheme\<rparr>)
                 in parse_rest ip_literal rest' u)))"

definition url_Parse :: "(string \<Rightarrow> string option) \<Rightarrow> string \<Rightarrow> URL option" where
  "url_Parse ip_literal raw =
     (let (u, frag) = cut (CHR ''#'') raw
      in case parse_url ip_literal u of
           None \<Rightarrow> None
         | Some url \<Rightarrow> if frag = [] then Some url else setFragment url frag)"

definition EscapedPath :: "URL \<Rightarrow> string" where
  "EscapedPath u =
     (if url_RawPath u \<noteq> [] \<and> validEncoded (url_RawPath u) encodePath \<and> unescape encodePath (url_RawPath u) = Some (url_Path u)
      then url_RawPath u
      else if url_Path u = ''*'' then ''*'' else escape (url_Path u) encodePath)"

definition EscapedFragment :: "URL \<Rightarrow> string" where
  "EscapedFragment u =
     (if url_RawFragment u \<noteq> [] \<and> validEncoded (url_RawFragment u) encodeFragment \<and>
         unescape encodeFragment (url_RawFragment u) = Some (url_Fragment u)
      then url_RawFragment u
      else escape (url_Fragment u) encodeFragment)"

definition user_string :: "string \<times> string option \<Rightarrow> string" where
  "user_string = (\<lambda>(u, p). escape u encodeUserPassword @
     (case p of None \<Rightarrow> [] | Some pw \<Rightarrow> '':'' @ escape pw encodeUserPassword))"

definition url_String :: "URL \<Rightarrow> string" where
  "url_String u =
     (let scheme = (if url_Scheme u \<noteq> [] then url_Scheme u @ '':'' else []);
          authority = (if url_Scheme u = [] \<and> url_Host u = [] \<and> url_User u = None \<or>
                          url_OmitHost u \<and> url_Host u = [] \<and> url_User u = None then []
                       else (if url_Host u \<noteq> [] \<or> url_Path u \<noteq> [] \<or> url_User u \<noteq> None then ''//'' else []) @
                         (case url_User u of None \<Rightarrow> [] | Some ui \<Rightarrow> user_string ui @ ''@'') @
                         (if url_Host u \<noteq> [] then escape (url_Host u) encodeHost else []));
          path = EscapedPath u;
          slash = (if path \<noteq> [] \<and> hd path \<noteq> CHR ''/'' \<and> url_Host u \<noteq> [] then ''/'' else []);
          dot = (if scheme @ authority @ slash = [] \<and> CHR '':'' \<in> set (fst (cut (CHR ''/'') path)) then ''./'' else [])
      in (if url_Opaque u \<noteq> [] then scheme @ url_Opaque u else scheme @ authority @ slash @ dot @ path) @
         (if url_ForceQuery u \<or> url_RawQuery u \<noteq> [] then ''?'' @ url_RawQuery u else []) @
         (if url_Fragment u \<noteq> [] then ''#'' @ EscapedFragment u else []))"

section \<open>URIs that need no escaping\<close>

definition plain_char :: "char \<Rightarrow> bool" where
  "plain_char c \<longleftrightarrow> is_letter c \<or> is_digit c \<or> c \<in> set ''-_.~''"

definition path_char :: "char \<Rightarrow> bool" where
  "path_char c \<longleftrightarrow> plain_char c \<or> c = CHR ''/''"

lemma plain_char_not:
  assumes "plain_char c"
  shows "c \<noteq> CHR ''%''" "c \<noteq> CHR ''#''" "c \<noteq> CHR ''?''" "c \<noteq> CHR '':''" "c \<noteq> CHR ''@''" "c \<noteq> CHR ''[''" "c \<noteq> CHR ''/''"
    "\<not> (of_char c :: nat) < 32" "c \<noteq> CHR 0x7F" "\<not> shouldEscape c mode"
  using assms by (auto simp: plain_char_def is_letter_def is_digit_def shouldEscape_def Let_def)

lemma path_char_not:
  assumes "path_char c"
  shows "c \<noteq> CHR ''%''" "c \<noteq> CHR ''#''" "c \<noteq> CHR ''?''" "\<not> (of_char c :: nat) < 32" "c \<noteq> CHR 0x7F" "\<not> shouldEscape c encodePath"
proof -
  have "c = CHR ''/'' \<or> plain_char c" using assms by (auto simp: path_char_def)
  then show "c \<noteq> CHR ''%''" "c \<noteq> CHR ''#''" "c \<noteq> CHR ''?''" "\<not> (of_char c :: nat) < 32" "c \<noteq> CHR 0x7F" "\<not> shouldEscape c encodePath"
    by (elim disjE; simp add: plain_char_not; simp add: shouldEscape_def)+
qed

lemma unescape_plain: "list_all (\<lambda>c. c \<noteq> CHR ''%'' \<and> \<not> shouldEscape c mode) s \<Longrightarrow> unescape mode s = Some s"
  by (induction s) auto

lemma escape_plain: "list_all (\<lambda>c. \<not> shouldEscape c mode) s \<Longrightarrow> escape s mode = s"
  by (induction s) (auto simp: escape_def)

definition scheme_ok :: "string \<Rightarrow> bool" where
  "scheme_ok s \<longleftrightarrow> s \<noteq> [] \<and> is_letter (hd s) \<and> list_all (\<lambda>c. is_letter c \<or> is_digit c) s \<and> map lower_char s = s"

lemma scheme_scan_ok:
  "list_all (\<lambda>c. is_letter c \<or> is_digit c) s \<Longrightarrow> d \<noteq> [] \<Longrightarrow> scheme_scan raw d (s @ CHR '':'' # t) = Some (d @ s, t)"
proof (induction s arbitrary: d)
  case Nil
  then show ?case by (simp add: is_letter_def is_digit_def)
next
  case (Cons c s)
  then show ?case using Cons.IH[of "d @ [c]"] by auto
qed

lemma getScheme_ok:
  assumes "scheme_ok s"
  shows "getScheme (s @ CHR '':'' # t) = Some (s, t)"
proof -
  obtain c cs where s: "s = c # cs" using assms by (cases s) (auto simp: scheme_ok_def)
  then show ?thesis using assms scheme_scan_ok[of cs "[c]"] by (simp add: scheme_ok_def getScheme_def)
qed

lemma cut_absent: "c \<notin> set s \<Longrightarrow> cut c s = (s, [])"
  by (induction s) (auto simp: cut_def)

lemma not_plain_char [simp]:
  "\<not> plain_char (CHR ''?'')" "\<not> plain_char (CHR ''#'')" "\<not> plain_char (CHR ''@'')" "\<not> plain_char (CHR ''['')"
  "\<not> plain_char (CHR '':'')" "\<not> plain_char (CHR ''/'')" "\<not> path_char (CHR ''?'')" "\<not> path_char (CHR ''#'')"
  "\<not> is_letter (CHR ''#'')"
  by (simp_all add: path_char_def plain_char_def is_letter_def is_digit_def)

lemma plain_absent: "list_all P s \<Longrightarrow> \<not> P c \<Longrightarrow> c \<notin> set s"
  by (auto simp: list_all_iff)

lemma last_index_absent: "c \<notin> set s \<Longrightarrow> last_index s [c] = None"
  by (induction s) (auto simp: HasPrefix_def)

lemma unescape_path: "list_all path_char s \<Longrightarrow> unescape encodePath s = Some s"
  by (induction s) (auto dest: path_char_not)

lemma escape_path: "list_all path_char s \<Longrightarrow> escape s encodePath = s"
  by (induction s) (auto simp: escape_def dest: path_char_not)

text \<open>The shape of URI that names an object in a store: \<open>scheme://host/path\<close> without reserved characters.\<close>

lemma url_Parse_plain:
  assumes s: "scheme_ok s"
    and h: "list_all plain_char h" and p: "list_all path_char p"
  shows "url_Parse ip (s @ ''://'' @ h @ ''/'' @ p) =
     Some (zero_URL\<lparr>url_Scheme := s, url_Host := h, url_Path := CHR ''/'' # p\<rparr>)"
proof -
  let ?rest = "CHR ''/'' # CHR ''/'' # h @ CHR ''/'' # p"
  let ?raw = "s @ CHR '':'' # ?rest"
  have ls: "map lower_char s = s" "list_all (\<lambda>c. is_letter c \<or> is_digit c) s" "s \<noteq> []" using s by (auto simp: scheme_ok_def)
  have hn: "CHR ''?'' \<notin> set h" "CHR ''#'' \<notin> set h" "CHR ''@'' \<notin> set h" "CHR ''['' \<notin> set h" "CHR '':'' \<notin> set h" "CHR ''/'' \<notin> set h"
    by (auto intro!: plain_absent[OF h])
  have pn: "CHR ''?'' \<notin> set p" "CHR ''#'' \<notin> set p" by (auto intro!: plain_absent[OF p])
  have sn: "CHR ''#'' \<notin> set s" by (auto intro!: plain_absent[OF ls(2)] simp: is_digit_def)
  have ctl: "\<not> list_ex (\<lambda>c. (of_char c :: nat) < 32 \<or> c = CHR 0x7F) ?raw"
  proof -
    have "list_all (\<lambda>c. \<not> ((of_char c :: nat) < 32 \<or> c = CHR 0x7F)) t" if "list_all path_char t" for t
      using that by (induction t) (auto dest: path_char_not)
    moreover have "list_all (\<lambda>c. \<not> ((of_char c :: nat) < 32 \<or> c = CHR 0x7F)) t" if "list_all plain_char t" for t
      using that by (induction t) (auto dest: plain_char_not)
    moreover have "list_all (\<lambda>c. \<not> ((of_char c :: nat) < 32 \<or> c = CHR 0x7F)) s"
      using ls(2) by (auto simp: list_all_iff is_letter_def is_digit_def Let_def)
    ultimately show ?thesis using h p by (auto simp: list_ex_iff list_all_iff)
  qed
  have star: "?raw \<noteq> ''*''" by (cases s) auto
  have sch: "getScheme ?raw = Some (s, ?rest)"
    by (rule getScheme_ok[OF s])
  have q: "split_query ?rest u = (?rest, u\<lparr>url_RawQuery := []\<rparr>)" for u
  proof -
    have a: "CHR ''?'' \<notin> set ?rest" using hn pn by auto
    moreover have "\<not> HasSuffix ?rest ''?''" using a unfolding HasSuffix_iff by (metis in_set_conv_decomp)
    ultimately show ?thesis by (simp add: split_query_def cut_absent del: set_simps)
  qed
  have auth: "parseAuthority ip h = Some (None, h)"
    using hn h plain_char_not(1,10)
    by (simp add: parseAuthority_def parseHost_def last_index_absent unescape_plain list_all_iff)
  have tk: "takeWhile (\<lambda>c. c \<noteq> CHR ''/'') (h @ CHR ''/'' # p) = h" "dropWhile (\<lambda>c. c \<noteq> CHR ''/'') (h @ CHR ''/'' # p) = CHR ''/'' # p"
    using hn(6) by (auto simp: takeWhile_append dropWhile_append)
  have pc: "list_all path_char (CHR ''/'' # p)" using p by (simp add: path_char_def)
  have pth: "setPath u (CHR ''/'' # p) = Some (u\<lparr>url_Path := CHR ''/'' # p, url_RawPath := []\<rparr>)" for u
    unfolding setPath_def unescape_path[OF pc] option.map escape_path[OF pc] by simp
  have "parse_rest ip ?rest u = setPath (u\<lparr>url_User := None, url_Host := h\<rparr>) (CHR ''/'' # p)" if "url_Scheme u \<noteq> []" for u
    using that unfolding parse_rest_def by (simp add: HasPrefix_def tk auth)
  then have "parse_url ip ?raw = Some (zero_URL\<lparr>url_Scheme := s, url_Host := h, url_Path := CHR ''/'' # p\<rparr>)"
    unfolding parse_url_def sch using ctl star ls(3) by (simp only: if_False option.case prod.case q Let_def ls(1)) (simp add: pth zero_URL_def)
  then show ?thesis using sn hn pn by (simp add: url_Parse_def cut_absent)
qed

end
