(* ===== verification/InferenceService_Registry.thy ===== *)
theory InferenceService_Registry
  imports Registry Go_Url
begin

text \<open>
  The registry that presents InferenceServices as Predictors (inferenceservice\_registry.go). Of the
  InferenceService type of kserve the model has the fields this code reads and writes; its status enums
  have the same strings as those of the Predictor, so the conversions are identities. The constants of
  kserve and knative's \<open>apis.ParseURL\<close> (an error, or a possibly nil URL, which is only ever printed and is
  represented by the text it prints as) are the record \<open>ks_env\<close>.
\<close>

section \<open>InferenceServices\<close>

record PredictorExtensionSpec =
  pe_StorageURI :: "string option"
  pe_ProtocolVersion :: "string option"
  pe_Storage :: "StorageSpec option"

record ModelFormatSpec = PredictorExtensionSpec +
  ms_FormatName :: string
  ms_FormatVersion :: "string option"
  ms_Runtime :: "string option"

record isvc_PredictorSpec =
  ip_Model :: "ModelFormatSpec option"
  ip_XGBoost :: "PredictorExtensionSpec option"
  ip_LightGBM :: "PredictorExtensionSpec option"
  ip_SKLearn :: "PredictorExtensionSpec option"
  ip_Tensorflow :: "PredictorExtensionSpec option"
  ip_ONNX :: "PredictorExtensionSpec option"
  ip_PyTorch :: "PredictorExtensionSpec option"
  ip_Triton :: "PredictorExtensionSpec option"
  ip_PMML :: "PredictorExtensionSpec option"

record ComponentStatus =
  cst_URL :: "string option"
  cst_GrpcURL :: "string option"
  cst_RestURL :: "string option"

record isvc_Status =
  is_TransitionStatus :: TransitionStatus
  is_ModelCopies :: "(int \<times> int) option"
  is_ModelRevisionStates :: "(ModelState \<times> ModelState) option"
  is_LastFailureInfo :: "FailureInfo option"
  is_PredictorReady :: bool
  is_URL :: "string option"
  is_PredictorComponent :: "ComponentStatus option"

record InferenceService =
  isvc_Meta :: ObjectMeta
  isvc_Predictor :: isvc_PredictorSpec
  isvc_Status :: isvc_Status

record ks_env =
  ks_DeploymentMode :: string
  ks_ModelMeshDeployment :: string
  ks_UnknownProtocol :: string
  ks_ParseURL :: "string \<Rightarrow> string + string option"
  ks_ip_literal :: "string \<Rightarrow> string option"

record isvc_client =
  icl_Get :: "NamespacedName \<Rightarrow> api_error + InferenceService"
  icl_List :: "string \<Rightarrow> api_error + InferenceService list"
  icl_StatusUpdate :: "ObjectMeta \<Rightarrow> isvc_Status \<Rightarrow> api_error option"

section \<open>Spec\<close>

definition secretKeyAnnotation :: string where
  "secretKeyAnnotation = ''serving.kserve.io/secretKey''"

definition schemaPathAnnotation :: string where
  "schemaPathAnnotation = ''serving.kserve.io/schemaPath''"

definition runtimeAnnotation :: string where
  "runtimeAnnotation = ''serving.kserve.io/servingRuntime''"

definition azureBlobHostSuffix :: string where
  "azureBlobHostSuffix = ''blob.core.windows.net''"

datatype isvc_error =
    ModelAndFramework string string
  | ModelAndRuntimeAnnotation string
  | NoFramework
  | NoStorage NamespacedName
  | UriAndPath NamespacedName
  | BadUri NamespacedName
  | UnsupportedScheme NamespacedName string

definition getPredictorFramework :: "isvc_PredictorSpec \<Rightarrow> string \<times> PredictorExtensionSpec option" where
  "getPredictorFramework s =
     (if ip_XGBoost s \<noteq> None then (''xgboost'', ip_XGBoost s)
      else if ip_LightGBM s \<noteq> None then (''lightgbm'', ip_LightGBM s)
      else if ip_SKLearn s \<noteq> None then (''sklearn'', ip_SKLearn s)
      else if ip_Tensorflow s \<noteq> None then (''tensorflow'', ip_Tensorflow s)
      else if ip_ONNX s \<noteq> None then (''onnx'', ip_ONNX s)
      else if ip_PyTorch s \<noteq> None then (''pytorch'', ip_PyTorch s)
      else if ip_Triton s \<noteq> None then (''triton'', ip_Triton s)
      else if ip_PMML s \<noteq> None then (''pmml'', ip_PMML s)
      else ([], None))"

definition known_protocol :: "ks_env \<Rightarrow> string option \<Rightarrow> string option" where
  "known_protocol ks pv = (if pv \<noteq> None \<and> pv \<noteq> Some (ks_UnknownProtocol ks) then pv else None)"

definition runtime_ref :: "string \<Rightarrow> PredictorRuntime" where
  "runtime_ref name = \<lparr>pr_RuntimeRef = Some \<lparr>rr_Name = name\<rparr>\<rparr>"

definition BuildBasePredictorFromInferenceService ::
  "ks_env \<Rightarrow> InferenceService \<Rightarrow> isvc_error + Predictor option" where
  "BuildBasePredictorFromInferenceService ks isvc =
     (let annotations = om_Annotations (isvc_Meta isvc) in
      if (case gomap_get annotations (ks_DeploymentMode ks) of None \<Rightarrow> [] | Some v \<Rightarrow> v) \<noteq> ks_ModelMeshDeployment ks
      then Inr None
      else (let p = zero_Predictor\<lparr>p_Meta := isvc_Meta isvc\<rparr>;
                (framework, frameworkSpec) = getPredictorFramework (isvc_Predictor isvc);
                runtimeFromAnnotation = gomap_get annotations runtimeAnnotation
            in case ip_Model (isvc_Predictor isvc) of
                 Some m \<Rightarrow>
                   if frameworkSpec \<noteq> None then Inl (ModelAndFramework (om_Name (isvc_Meta isvc)) framework)
                   else if runtimeFromAnnotation \<noteq> None then Inl (ModelAndRuntimeAnnotation (om_Name (isvc_Meta isvc)))
                   else Inr (Some (p\<lparr>p_Spec := zero_Spec
                     \<lparr>m_Type := \<lparr>mt_Name = ms_FormatName m, mt_Version = ms_FormatVersion m\<rparr>,
                      ps_ProtocolVersion := known_protocol ks (pe_ProtocolVersion m),
                      ps_Runtime := map_option runtime_ref (ms_Runtime m)\<rparr>\<rparr>))
               | None \<Rightarrow>
                   (case frameworkSpec of
                      None \<Rightarrow> Inl NoFramework
                    | Some fs \<Rightarrow> Inr (Some (p\<lparr>p_Spec := zero_Spec
                        \<lparr>m_Type := \<lparr>mt_Name = framework, mt_Version = None\<rparr>,
                         ps_ProtocolVersion := known_protocol ks (pe_ProtocolVersion fs),
                         ps_Runtime := map_option runtime_ref runtimeFromAnnotation\<rparr>\<rparr>)))))"

section \<open>Storage\<close>

text \<open>
  The switch on the scheme of a parsed URI: the parameters it gives and the model path, \<open>None\<close> for the default case. The number of path
  parts is never 0, as \<open>strings.Split\<close> never gives an empty slice.
\<close>

definition uri_storage :: "URL \<Rightarrow> ((string, string) gomap \<times> string) option" where
  "uri_storage u =
     (let path = TrimPrefix (url_Path u) ''/'' in
      if url_Scheme u = ''pvc'' then Some ([(''type'', ''pvc''), (''name'', url_Host u)], path)
      else if url_Scheme u = ''s3'' then Some ([(''type'', ''s3''), (''bucket'', url_Host u)], path)
      else if url_Scheme u = ''gs'' then Some ([(''type'', ''gcs''), (''bucket'', url_Host u)], path)
      else if url_Scheme u = ''http'' \<or> url_Scheme u = ''https'' then
        (if HasSuffix (url_Host u) azureBlobHostSuffix then
           (let pathParts = split_on (CHR ''/'') path; hostParts = split_on (CHR ''.'') (url_Host u)
            in Some ([(''type'', ''azure''), (''container'', hd pathParts), (''account_name'', hd hostParts)],
                     join_with ''/'' (tl pathParts)))
         else Some ([(''type'', ''http''), (''url'', url_String (u\<lparr>url_Path := []\<rparr>))], path))
      else None)"

definition storage_location ::
  "ks_env \<Rightarrow> NamespacedName \<Rightarrow> string option \<Rightarrow> StorageSpec option \<Rightarrow> isvc_error + (string, string) gomap \<times> string" where
  "storage_location ks nname storageUri storageSpec =
     (let storagePath = Option.bind storageSpec ss_Path in
      case storageUri of
        None \<Rightarrow> (case storagePath of None \<Rightarrow> Inl (NoStorage nname) | Some path \<Rightarrow> Inr ([], path))
      | Some uri \<Rightarrow>
          if storagePath \<noteq> None then Inl (UriAndPath nname)
          else (case url_Parse (ks_ip_literal ks) uri of
                  None \<Rightarrow> Inl (BadUri nname)
                | Some u \<Rightarrow> (case uri_storage u of
                    None \<Rightarrow> Inl (UnsupportedScheme nname (url_Scheme u))
                  | Some r \<Rightarrow> Inr r)))"

definition merge_parameters :: "(string, string) gomap option \<Rightarrow> (string, string) gomap \<Rightarrow> (string, string) gomap" where
  "merge_parameters specParameters uriParameters =
     (case specParameters of
        Some ps \<Rightarrow> fold (\<lambda>(k, v). gomap_set k v) uriParameters ps
      | None \<Rightarrow> uriParameters)"

definition or_annotation :: "string option \<Rightarrow> ObjectMeta \<Rightarrow> string \<Rightarrow> string option" where
  "or_annotation val m key = (if val = None then gomap_get (om_Annotations m) key else val)"

record isvc_storage =
  sto_secretKey :: "string option"
  sto_parameters :: "(string, string) gomap"
  sto_modelPath :: string
  sto_schemaPath :: "string option"

text \<open>
  \<open>None\<close> is the nil dereference when there is neither a model nor a framework spec, which both callers rule
  out by building the base Predictor first.
\<close>

definition processInferenceServiceStorage ::
  "ks_env \<Rightarrow> InferenceService \<Rightarrow> NamespacedName \<Rightarrow> (isvc_error + isvc_storage) option" where
  "processInferenceServiceStorage ks isvc nname =
     (let pSpec = (case ip_Model (isvc_Predictor isvc) of
                     Some m \<Rightarrow> Some (PredictorExtensionSpec.truncate m)
                   | None \<Rightarrow> snd (getPredictorFramework (isvc_Predictor isvc)))
      in case pSpec of
           None \<Rightarrow> None
         | Some ps \<Rightarrow>
             (case storage_location ks nname (pe_StorageURI ps) (pe_Storage ps) of
                Inl err \<Rightarrow> Some (Inl err)
              | Inr (uriParameters, modelPath) \<Rightarrow>
                  Some (Inr
                    \<lparr>sto_secretKey = or_annotation (Option.bind (pe_Storage ps) ss_StorageKey) (isvc_Meta isvc) secretKeyAnnotation,
                     sto_parameters = merge_parameters (Option.bind (pe_Storage ps) ss_Parameters) uriParameters,
                     sto_modelPath = modelPath,
                     sto_schemaPath = or_annotation (Option.bind (pe_Storage ps) ss_SchemaPath) (isvc_Meta isvc) schemaPathAnnotation\<rparr>)))"

definition with_storage :: "Predictor \<Rightarrow> isvc_storage \<Rightarrow> Predictor" where
  "with_storage p sto = p\<lparr>p_Spec := (p_Spec p)\<lparr>m_Storage := Some
     \<lparr>ss_Path = Some (sto_modelPath sto), ss_SchemaPath = sto_schemaPath sto, ss_Parameters = Some (sto_parameters sto),
      ss_StorageKey = sto_secretKey sto, st_PersistentVolumeClaim = None, st_S3 = None\<rparr>\<rparr>\<rparr>"

section \<open>Status\<close>

text \<open>\<open>Get\<close>: the Predictor status an InferenceService status stands for.\<close>

definition predictor_status :: "isvc_Status \<Rightarrow> PredictorStatus" where
  "predictor_status s =
     (let url = (\<lambda>f. case Option.bind (is_PredictorComponent s) f of None \<Rightarrow> [] | Some u \<Rightarrow> u);
          (failed, total) = (case is_ModelCopies s of None \<Rightarrow> (0, 0) | Some c \<Rightarrow> c);
          (active, target) = (case is_ModelRevisionStates s of None \<Rightarrow> (NoModelState, NoModelState) | Some r \<Rightarrow> r)
      in \<lparr>pst_Available = is_PredictorReady s,
          pst_TransitionStatus = is_TransitionStatus s,
          pst_ActiveModelState = (if active = NoModelState then Pending else active),
          pst_TargetModelState = target,
          pst_LastFailureInfo = is_LastFailureInfo s,
          pst_HTTPEndpoint = url cst_RestURL,
          pst_GrpcEndpoint = url cst_GrpcURL,
          pst_TotalCopies = total,
          pst_FailedCopies = failed\<rparr>)"

text \<open>\<open>UpdateStatus\<close>: the InferenceService status built for a Predictor status (\<open>Inl\<close>: an endpoint does not parse).\<close>

definition isvc_status :: "ks_env \<Rightarrow> PredictorStatus \<Rightarrow> string + isvc_Status" where
  "isvc_status ks st =
     (let s = \<lparr>is_TransitionStatus = pst_TransitionStatus st,
               is_ModelCopies = Some (pst_FailedCopies st, pst_TotalCopies st),
               is_ModelRevisionStates = Some (pst_ActiveModelState st, pst_TargetModelState st),
               is_LastFailureInfo = pst_LastFailureInfo st,
               is_PredictorReady = False, is_URL = None, is_PredictorComponent = None\<rparr>
      in if pst_Available st then
           (case ks_ParseURL ks (pst_GrpcEndpoint st) of
              Inl err \<Rightarrow> Inl err
            | Inr grpcUrl \<Rightarrow>
                (case ks_ParseURL ks (pst_HTTPEndpoint st) of
                   Inl err \<Rightarrow> Inl err
                 | Inr restUrl \<Rightarrow>
                     Inr (s\<lparr>is_URL := grpcUrl,
                            is_PredictorComponent := Some \<lparr>cst_URL = grpcUrl, cst_GrpcURL = grpcUrl, cst_RestURL = restUrl\<rparr>,
                            is_PredictorReady := True\<rparr>)))
         else Inr s)"

section \<open>The registry\<close>

definition nname_text :: "NamespacedName \<Rightarrow> string" where
  "nname_text n = nn_Namespace n @ ''/'' @ nn_Name n"

definition isvc_error_text :: "isvc_error \<Rightarrow> string" where
  "isvc_error_text e =
     (case e of
        ModelAndFramework name framework \<Rightarrow>
          ''the InferenceService '' @ name @ '' cannot have both the model spec and a framework spec ('' @ framework @ '')''
      | ModelAndRuntimeAnnotation name \<Rightarrow>
          ''the InferenceService '' @ name @ '' cannot have both the model spec and the runtime annotation '' @ runtimeAnnotation
      | NoFramework \<Rightarrow> ''no valid InferenceService predictor framework found''
      | NoStorage n \<Rightarrow> ''the InferenceService '' @ nname_text n @ '' must have either the storageUri or the storage.path''
      | UriAndPath n \<Rightarrow> ''the InferenceService '' @ nname_text n @ '' cannot have both the storageUri and the storage.path''
      | BadUri n \<Rightarrow> ''could not parse storageUri in InferenceService '' @ nname_text n
      | UnsupportedScheme n s \<Rightarrow> ''the InferenceService '' @ nname_text n @ '' has an unsupported storageUri scheme '' @ s)"

definition isvc_Get :: "ks_env \<times> isvc_client \<Rightarrow> NamespacedName \<Rightarrow> (api_error + Predictor option) option" where
  "isvc_Get = (\<lambda>(ks, client) nname.
     case icl_Get client nname of
       Inl err \<Rightarrow> Some (Inl err)
     | Inr isvc \<Rightarrow>
         (case BuildBasePredictorFromInferenceService ks isvc of
            Inl err \<Rightarrow> Some (Inl (OtherError (isvc_error_text err)))
          | Inr None \<Rightarrow> Some (Inr None)
          | Inr (Some p) \<Rightarrow>
              (case processInferenceServiceStorage ks isvc nname of
                 None \<Rightarrow> None
               | Some (Inl err) \<Rightarrow> Some (Inl (OtherError (isvc_error_text err)))
               | Some (Inr sto) \<Rightarrow>
                   Some (Inr (Some (with_storage (p\<lparr>p_Status := predictor_status (isvc_Status isvc)\<rparr>) sto))))))"

text \<open>What the loop of \<open>Find\<close> does with one object: skip it, give up with true, or ask the predicate.\<close>

definition isvc_item :: "ks_env \<Rightarrow> InferenceService \<Rightarrow> Predictor option list option" where
  "isvc_item ks isvc =
     (case BuildBasePredictorFromInferenceService ks isvc of
        Inl _ \<Rightarrow> Some [None]
      | Inr None \<Rightarrow> Some []
      | Inr (Some p) \<Rightarrow>
          (case processInferenceServiceStorage ks isvc \<lparr>nn_Namespace = om_Namespace (isvc_Meta isvc), nn_Name = om_Name (isvc_Meta isvc)\<rparr> of
             None \<Rightarrow> None
           | Some (Inl _) \<Rightarrow> Some [None]
           | Some (Inr sto) \<Rightarrow> Some [Some (with_storage p sto)]))"

definition isvc_Find_items :: "ks_env \<times> isvc_client \<Rightarrow> string \<Rightarrow> (api_error + Predictor option list) option" where
  "isvc_Find_items = (\<lambda>(ks, client) namespace.
     case icl_List client namespace of
       Inl err \<Rightarrow> Some (Inl err)
     | Inr list \<Rightarrow> map_option (\<lambda>items. Inr (concat items)) (those (map (isvc_item ks) list)))"

definition isvc_UpdateStatus :: "ks_env \<times> isvc_client \<Rightarrow> Predictor \<Rightarrow> api_error + bool" where
  "isvc_UpdateStatus = (\<lambda>(ks, client) predictor.
     case isvc_status ks (p_Status predictor) of
       Inl err \<Rightarrow> Inl (OtherError err)
     | Inr s \<Rightarrow>
         (case icl_StatusUpdate client (p_Meta predictor) s of
            None \<Rightarrow> Inr True
          | Some Conflict \<Rightarrow> Inr False
          | Some err \<Rightarrow> Inl err))"

definition InferenceServiceRegistry :: "ks_env \<times> isvc_client \<Rightarrow> PredictorRegistry" where
  "InferenceServiceRegistry r =
     \<lparr>rg_Get = (\<lambda>n. the (isvc_Get r n)), rg_Items = (\<lambda>ns. the (isvc_Find_items r ns)), rg_UpdateStatus = isvc_UpdateStatus r\<rparr>"

section \<open>Lemmas\<close>

lemma Build_cases:
  "BuildBasePredictorFromInferenceService ks isvc = Inr (Some p) \<Longrightarrow>
     p_Meta p = isvc_Meta isvc \<and> (ip_Model (isvc_Predictor isvc) \<noteq> None \<or> snd (getPredictorFramework (isvc_Predictor isvc)) \<noteq> None)"
  by (auto simp: BuildBasePredictorFromInferenceService_def Let_def split: if_splits option.splits prod.splits)

lemma storage_total:
  assumes "BuildBasePredictorFromInferenceService ks isvc = Inr (Some p)"
  shows "\<exists>r. processInferenceServiceStorage ks isvc nname = Some r"
  using Build_cases[OF assms]
  by (auto simp: processInferenceServiceStorage_def Let_def split: option.splits sum.splits prod.splits)

text \<open>The name is only used in error messages.\<close>

lemma storage_location_name:
  "storage_location ks n uri spec = Inr r \<Longrightarrow> storage_location ks m uri spec = Inr r"
  by (auto simp: storage_location_def Let_def split: option.splits if_splits)

lemma storage_name:
  assumes "processInferenceServiceStorage ks isvc n = Some (Inr sto)"
  shows "processInferenceServiceStorage ks isvc m = Some (Inr sto)"
proof -
  obtain ps u where "(case ip_Model (isvc_Predictor isvc) of Some m \<Rightarrow> Some (PredictorExtensionSpec.truncate m)
                   | None \<Rightarrow> snd (getPredictorFramework (isvc_Predictor isvc))) = Some ps"
    and "storage_location ks n (pe_StorageURI ps) (pe_Storage ps) = Inr u"
    using assms unfolding processInferenceServiceStorage_def Let_def by (auto split: option.splits sum.splits prod.splits)
  then show ?thesis using assms storage_location_name[of ks n _ _ u m]
    unfolding processInferenceServiceStorage_def Let_def by simp
qed

lemma isvc_Get_total: "\<exists>r. isvc_Get (ks, client) n = Some r"
proof (cases "icl_Get client n")
  case (Inr isvc)
  then show ?thesis
  proof (cases "BuildBasePredictorFromInferenceService ks isvc")
    case b: (Inr q)
    then show ?thesis
    proof (cases q)
      case (Some p)
      then obtain r where "processInferenceServiceStorage ks isvc n = Some r" using storage_total b by blast
      then show ?thesis using Inr b Some by (cases r) (simp_all add: isvc_Get_def)
    qed (simp add: isvc_Get_def Inr)
  qed (simp add: isvc_Get_def)
qed (simp add: isvc_Get_def)

lemma isvc_item_total: "\<exists>r. isvc_item ks isvc = Some r"
proof (cases "BuildBasePredictorFromInferenceService ks isvc")
  case b: (Inr q)
  then show ?thesis
  proof (cases q)
    case (Some p)
    then obtain r where "processInferenceServiceStorage ks isvc
        \<lparr>nn_Namespace = om_Namespace (isvc_Meta isvc), nn_Name = om_Name (isvc_Meta isvc)\<rparr> = Some r"
      using storage_total b by blast
    then show ?thesis using b Some by (cases r) (simp_all add: isvc_item_def)
  qed (simp add: isvc_item_def)
qed (simp add: isvc_item_def)

lemma those_total:
  assumes "\<And>x. \<exists>y. f x = Some y"
  shows "those (map f xs) = Some (map (the \<circ> f) xs)"
proof (induction xs)
  case (Cons x xs)
  then show ?case using assms[of x] by (elim exE) simp
qed simp

lemma isvc_Find_items_eq:
  "isvc_Find_items (ks, client) ns =
     Some (case icl_List client ns of Inl err \<Rightarrow> Inl err | Inr list \<Rightarrow> Inr (concat (map (the \<circ> isvc_item ks) list)))"
  by (simp add: isvc_Find_items_def those_total[OF isvc_item_total] split: sum.splits)

text \<open>A client whose list and get requests read the same store.\<close>

definition isvc_client_consistent :: "ks_env \<times> isvc_client \<Rightarrow> bool" where
  "isvc_client_consistent = (\<lambda>(ks, client).
     \<forall>n i list. icl_Get client n = Inr i \<and> icl_List client (nn_Namespace n) = Inr list \<longrightarrow> i \<in> set list)"

lemma isvc_Get_Some:
  assumes "isvc_Get (ks, client) n = Some (Inr (Some p))"
  obtains isvc p0 sto where "icl_Get client n = Inr isvc"
    "BuildBasePredictorFromInferenceService ks isvc = Inr (Some p0)"
    "processInferenceServiceStorage ks isvc n = Some (Inr sto)"
    "p = with_storage (p0\<lparr>p_Status := predictor_status (isvc_Status isvc)\<rparr>) sto"
  using assms by (auto simp: isvc_Get_def split: sum.splits option.splits)

lemma isvc_items_complete:
  assumes "isvc_client_consistent (ks, client)" and "isvc_Find_items (ks, client) (nn_Namespace n) = Some (Inr xs)"
    and "isvc_Get (ks, client) n = Some (Inr (Some p))"
  shows "\<exists>q. Some q \<in> set xs \<and> p_Spec q = p_Spec p \<and> p_Meta q = p_Meta p"
proof -
  obtain isvc p0 sto where g: "icl_Get client n = Inr isvc" "BuildBasePredictorFromInferenceService ks isvc = Inr (Some p0)"
    "processInferenceServiceStorage ks isvc n = Some (Inr sto)"
    "p = with_storage (p0\<lparr>p_Status := predictor_status (isvc_Status isvc)\<rparr>) sto" using assms(3) by (rule isvc_Get_Some)
  obtain list where l: "icl_List client (nn_Namespace n) = Inr list" "xs = concat (map (the \<circ> isvc_item ks) list)"
    using assms(2) by (auto simp: isvc_Find_items_eq split: sum.splits)
  have "isvc \<in> set list" using assms(1) g(1) l(1) by (auto simp: isvc_client_consistent_def)
  moreover have "isvc_item ks isvc = Some [Some (with_storage p0 sto)]"
    using g(2) storage_name[OF g(3)] by (simp add: isvc_item_def)
  ultimately have "Some (with_storage p0 sto) \<in> set xs" unfolding l(2) by force
  then show ?thesis using g(4) by (auto simp: with_storage_def)
qed

interpretation isvc: predictor_registry "\<lambda>r n. the (isvc_Get r n)" "\<lambda>r ns. the (isvc_Find_items r ns)" isvc_client_consistent
proof unfold_locales
  fix r :: "ks_env \<times> isvc_client" and n xs p
  obtain ks client where r: "r = (ks, client)" by (cases r)
  assume v: "isvc_client_consistent r" and i: "the (isvc_Find_items r (nn_Namespace n)) = Inr xs" and g: "the (isvc_Get r n) = Inr (Some p)"
  have "isvc_Find_items (ks, client) (nn_Namespace n) = Some (Inr xs)" using i by (simp add: r isvc_Find_items_eq)
  moreover have "isvc_Get (ks, client) n = Some (Inr (Some p))" using g isvc_Get_total[of ks client n] by (auto simp: r)
  ultimately show "None \<in> set xs \<or> (\<exists>q. Some q \<in> set xs \<and> p_Spec q = p_Spec p \<and> p_Meta q = p_Meta p)"
    using isvc_items_complete v r by blast
qed

section \<open>Properties\<close>

text \<open>
  C24. Round trip of the status through an InferenceService. When the two endpoints print as they were parsed
  and the Predictor has an active model state, the status that \<open>UpdateStatus\<close> writes is read back by \<open>Get\<close>
  unchanged while the Predictor is available; while it is not, only the two endpoints are lost.
\<close>

theorem isvc_status_roundtrip:
  assumes "\<And>e. e \<in> {pst_GrpcEndpoint st, pst_HTTPEndpoint st} \<Longrightarrow> ks_ParseURL ks e = Inr (if e = [] then None else Some e)"
    and "pst_ActiveModelState st \<noteq> NoModelState"
  shows "\<exists>s. isvc_status ks st = Inr s \<and>
     predictor_status s = (if pst_Available st then st else st\<lparr>pst_GrpcEndpoint := [], pst_HTTPEndpoint := []\<rparr>)"
proof (cases "pst_Available st")
  case True
  have e: "ks_ParseURL ks (pst_GrpcEndpoint st) = Inr (if pst_GrpcEndpoint st = [] then None else Some (pst_GrpcEndpoint st))"
    "ks_ParseURL ks (pst_HTTPEndpoint st) = Inr (if pst_HTTPEndpoint st = [] then None else Some (pst_HTTPEndpoint st))"
    using assms(1) by blast+
  show ?thesis using True assms(2) by (simp add: isvc_status_def predictor_status_def e Let_def)
next
  case False
  then show ?thesis using assms(2) by (simp add: isvc_status_def predictor_status_def Let_def)
qed

definition sample_ks :: ks_env where
  "sample_ks = \<lparr>ks_DeploymentMode = ''serving.kserve.io/deploymentMode'', ks_ModelMeshDeployment = ''ModelMesh'',
     ks_UnknownProtocol = [], ks_ParseURL = (\<lambda>e. Inr (if e = [] then None else Some e)), ks_ip_literal = (\<lambda>_. None)\<rparr>"

theorem isvc_status_roundtrip_witness:
  "let st = zero_Status\<lparr>pst_Available := True, pst_ActiveModelState := Loaded, pst_GrpcEndpoint := ''grpc://h:1''\<rparr>
   in \<exists>s. isvc_status sample_ks st = Inr s \<and> predictor_status s = st"
  using isvc_status_roundtrip[of "zero_Status\<lparr>pst_Available := True, pst_ActiveModelState := Loaded, pst_GrpcEndpoint := ''grpc://h:1''\<rparr>" sample_ks]
  by (simp add: zero_Status_def sample_ks_def)

lemma merge_parameters_get:
  "gomap_wf us \<Longrightarrow> gomap_get (merge_parameters ps us) key =
     (case gomap_get us key of Some v \<Rightarrow> Some v | None \<Rightarrow> Option.bind ps (\<lambda>m. gomap_get m key))"
proof (cases ps)
  case (Some m)
  have "gomap_wf us \<Longrightarrow> gomap_get (fold (\<lambda>(k, v). gomap_set k v) us m) key =
     (case gomap_get us key of Some v \<Rightarrow> Some v | None \<Rightarrow> gomap_get m key)" for us m
  proof (induction us arbitrary: m)
    case (Cons kv us)
    obtain k v where kv: "kv = (k, v)" by (cases kv)
    show ?case
    proof (cases "key = k")
      case True
      then have "gomap_get us key = None" using Cons.prems kv by (simp add: map_of_eq_None_iff)
      then show ?thesis using Cons True kv by simp
    qed (use Cons kv in \<open>simp split: option.split\<close>)
  qed simp
  from this[of us m] show "gomap_wf us \<Longrightarrow> ?thesis" using Some
    by (simp only: merge_parameters_def option.case Option.bind.simps)
qed (simp add: merge_parameters_def split: option.splits)

definition object_schemes :: "(string \<times> string \<times> string) list" where
  "object_schemes = [(''pvc'', ''pvc'', ''name''), (''s3'', ''s3'', ''bucket''), (''gs'', ''gcs'', ''bucket'')]"

lemma object_uri_storage:
  assumes "(s, t, k) \<in> set object_schemes" and "list_all plain_char h" and "list_all path_char path"
    and "Option.bind spec ss_Path = None"
  shows "storage_location ks n (Some (s @ ''://'' @ h @ ''/'' @ path)) spec = Inr ([(''type'', t), (k, h)], path)"
proof -
  have "scheme_ok s" using assms(1)
    by (auto simp: object_schemes_def scheme_ok_def is_letter_def is_digit_def lower_char_def)
  then have "url_Parse (ks_ip_literal ks) (s @ ''://'' @ h @ ''/'' @ path) =
      Some (zero_URL\<lparr>url_Scheme := s, url_Host := h, url_Path := CHR ''/'' # path\<rparr>)"
    using assms(2,3) by (rule url_Parse_plain)
  moreover have "TrimPrefix (CHR ''/'' # path) ''/'' = path" by (simp add: TrimPrefix_def HasPrefix_def)
  ultimately show ?thesis using assms(1,4)
    by (auto simp: storage_location_def uri_storage_def object_schemes_def Let_def)
qed

text \<open>
  An InferenceService for ModelMesh whose model spec names its storage by a URI \<open>pvc://\<close>, \<open>s3://\<close> or \<open>gs://\<close>
  becomes a Predictor with the object's metadata, the model format, the path behind the host, and parameters
  that are those of the storage spec except that the type and the claim or bucket come from the URI.
\<close>

lemma isvc_Get_object_uri:
  assumes "icl_Get client n = Inr isvc" and "ip_Model (isvc_Predictor isvc) = Some m"
    and "snd (getPredictorFramework (isvc_Predictor isvc)) = None"
    and "gomap_get (om_Annotations (isvc_Meta isvc)) (ks_DeploymentMode ks) = Some (ks_ModelMeshDeployment ks)"
    and "gomap_get (om_Annotations (isvc_Meta isvc)) runtimeAnnotation = None"
    and "pe_StorageURI m = Some (s @ ''://'' @ h @ ''/'' @ path)" and "Option.bind (pe_Storage m) ss_Path = None"
    and "(s, t, k) \<in> set object_schemes" and "list_all plain_char h" and "list_all path_char path"
  shows "\<exists>p sto ps. isvc_Get (ks, client) n = Some (Inr (Some p)) \<and> p_Meta p = isvc_Meta isvc \<and>
     m_Type (p_Spec p) = \<lparr>mt_Name = ms_FormatName m, mt_Version = ms_FormatVersion m\<rparr> \<and>
     m_Storage (p_Spec p) = Some sto \<and> ss_Path sto = Some path \<and> ss_Parameters sto = Some ps \<and>
     (\<forall>key. gomap_get ps key =
        (if key = ''type'' then Some t else if key = k then Some h
         else Option.bind (Option.bind (pe_Storage m) ss_Parameters) (\<lambda>q. gomap_get q key)))"
proof -
  have k: "k \<noteq> ''type''" using assms(8) by (auto simp: object_schemes_def)
  obtain p0 where p0: "BuildBasePredictorFromInferenceService ks isvc = Inr (Some p0)" "p_Meta p0 = isvc_Meta isvc"
    "m_Type (p_Spec p0) = \<lparr>mt_Name = ms_FormatName m, mt_Version = ms_FormatVersion m\<rparr>"
    using assms(2-5) by (cases "getPredictorFramework (isvc_Predictor isvc)")
      (auto simp: BuildBasePredictorFromInferenceService_def Let_def)
  have "storage_location ks n (pe_StorageURI m) (pe_Storage m) = Inr ([(''type'', t), (k, h)], path)"
    unfolding assms(6) using assms(7-10) by (intro object_uri_storage) auto
  then obtain sto where sto: "processInferenceServiceStorage ks isvc n = Some (Inr sto)" "sto_modelPath sto = path"
    "sto_parameters sto = merge_parameters (Option.bind (pe_Storage m) ss_Parameters) [(''type'', t), (k, h)]"
    using assms(2) by (auto simp: processInferenceServiceStorage_def PredictorExtensionSpec.defs)
  have "gomap_get (sto_parameters sto) key = (if key = ''type'' then Some t else if key = k then Some h
         else Option.bind (Option.bind (pe_Storage m) ss_Parameters) (\<lambda>q. gomap_get q key))" for key
    unfolding sto(3) using k by (subst merge_parameters_get) auto
  then show ?thesis using assms(1) p0 sto(1,2) by (simp add: isvc_Get_def with_storage_def)
qed

definition sample_isvc :: InferenceService where
  "sample_isvc = \<lparr>isvc_Meta = zero_Meta\<lparr>om_Name := ''m'', om_Annotations := [(''serving.kserve.io/deploymentMode'', ''ModelMesh'')]\<rparr>,
     isvc_Predictor = \<lparr>ip_Model = Some \<lparr>pe_StorageURI = Some ''s3://b/a/c'', pe_ProtocolVersion = None, pe_Storage = None,
         ms_FormatName = ''onnx'', ms_FormatVersion = None, ms_Runtime = None\<rparr>,
       ip_XGBoost = None, ip_LightGBM = None, ip_SKLearn = None, ip_Tensorflow = None, ip_ONNX = None, ip_PyTorch = None,
       ip_Triton = None, ip_PMML = None\<rparr>,
     isvc_Status = \<lparr>is_TransitionStatus = NoTransitionStatus, is_ModelCopies = None, is_ModelRevisionStates = None,
       is_LastFailureInfo = None, is_PredictorReady = False, is_URL = None, is_PredictorComponent = None\<rparr>\<rparr>"

definition sample_isvc_client :: isvc_client where
  "sample_isvc_client = \<lparr>icl_Get = (\<lambda>_. Inr sample_isvc), icl_List = (\<lambda>_. Inr [sample_isvc]), icl_StatusUpdate = (\<lambda>_ _. None)\<rparr>"

theorem isvc_Get_object_uri_witness:
  "\<exists>p sto ps. isvc_Get (sample_ks, sample_isvc_client) \<lparr>nn_Namespace = [], nn_Name = ''m''\<rparr> = Some (Inr (Some p)) \<and>
     m_Storage (p_Spec p) = Some sto \<and> ss_Path sto = Some ''a/c'' \<and> ss_Parameters sto = Some ps \<and>
     gomap_get ps ''bucket'' = Some ''b''"
  using isvc_Get_object_uri[of sample_isvc_client "\<lparr>nn_Namespace = [], nn_Name = ''m''\<rparr>" sample_isvc
      "the (ip_Model (isvc_Predictor sample_isvc))" sample_ks "''s3''" "''b''" "''a/c''" "''s3''" "''bucket''"]
  by (auto simp: sample_isvc_def sample_isvc_client_def sample_ks_def zero_Meta_def getPredictorFramework_def
      runtimeAnnotation_def object_schemes_def plain_char_def path_char_def is_letter_def)

end
