(* ===== verification/Runtime_Types.thy ===== *)
theory Runtime_Types
  imports Type_Labels "HOL-Library.Word"
begin

text \<open>
  The pod-level Kubernetes types and the \<open>ServingRuntimeSpec\<close> of kserve, with the fields the controllers read or
  write. Values that are only copied from one object to another (probes, tolerations, preferred
  affinities, further volume sources) are kept as their serialised text. Quantities count
  nano-units, the finest scale Kubernetes keeps. \<open>IsDisabled\<close> and \<open>IsMultiModelRuntime\<close> are methods of kserve's type; their
  answers for a spec are the fields \<open>sr_IsDisabled\<close> and \<open>sr_IsMultiModelRuntime\<close>.
\<close>

section \<open>Pods\<close>

datatype EnvVarSource = ResourceFieldRef string string | OtherEnvSource string

record EnvVar =
  ev_Name :: string
  ev_Value :: string
  ev_ValueFrom :: "EnvVarSource option"

record VolumeMount =
  vm_Name :: string
  vm_ReadOnly :: bool
  vm_MountPath :: string
  vm_SubPath :: string

type_synonym Quantity = int

text \<open>\<open>(*Quantity).Value\<close> rounds up to an integer.\<close>

definition quantity_Value :: "Quantity \<Rightarrow> int" where
  "quantity_Value q = - ((- q) div 1000000000)"

datatype VolumeSource =
    NoVolumeSource
  | EmptyDir "int option"
  | SecretSource string
  | ClaimSource string bool
  | ConfigMapSource string
  | OtherVolumeSource string

record Volume =
  vol_Name :: string
  vol_Source :: VolumeSource

record ContainerPort =
  cp_Name :: string
  cp_ContainerPort :: int

record ResourceRequirements =
  res_Limits :: "(string, Quantity) gomap"
  res_Requests :: "(string, Quantity) gomap"

datatype Lifecycle = PreStopHTTP string int | OtherLifecycle string

datatype SecurityContext = DropAll | OtherSecurityContext string

record Container =
  c_Name :: string
  c_Image :: string
  c_Command :: "string list"
  c_Env :: "EnvVar list"
  c_Ports :: "ContainerPort list"
  c_Resources :: ResourceRequirements
  c_VolumeMounts :: "VolumeMount list"
  c_Lifecycle :: "Lifecycle option"
  c_SecurityContext :: "SecurityContext option"
  c_ReadinessProbe :: "string option"

definition zero_Container :: Container where
  "zero_Container = \<lparr>c_Name = [], c_Image = [], c_Command = [], c_Env = [], c_Ports = [],
     c_Resources = \<lparr>res_Limits = [], res_Requests = []\<rparr>, c_VolumeMounts = [], c_Lifecycle = None,
     c_SecurityContext = None, c_ReadinessProbe = None\<rparr>"

datatype NodeSelectorTerm = ArchTerm "string list" | OtherTerm string

record NodeAffinity =
  na_Required :: "NodeSelectorTerm list option"
  na_Preferred :: string

record Affinity =
  aff_NodeAffinity :: "NodeAffinity option"
  aff_Rest :: string

section \<open>Serving runtimes\<close>

type_synonym u16 = "16 word"

record BuiltInAdapter =
  ba_ServerType :: string
  ba_RuntimeManagementPort :: int
  ba_MemBufferBytes :: int
  ba_ModelLoadingTimeoutMillis :: int
  ba_Env :: "EnvVar list"

record ServingRuntimeSpec =
  sr_SupportedModelFormats :: "SupportedModelFormat list"
  sr_ProtocolVersions :: "string list"
  sr_MultiModel :: "bool option"
  sr_IsMultiModelRuntime :: bool
  sr_IsDisabled :: bool
  sr_Containers :: "Container list"
  sr_Volumes :: "Volume list"
  sr_NodeSelector :: "(string, string) gomap"
  sr_Affinity :: "Affinity option"
  sr_Tolerations :: "string list"
  sr_Labels :: "(string, string) gomap"
  sr_Annotations :: "(string, string) gomap"
  sr_ImagePullSecrets :: "string list"
  sr_GrpcMultiModelManagementEndpoint :: "string option"
  sr_GrpcDataEndpoint :: "string option"
  sr_Replicas :: "u16 option"
  sr_StorageHelperDisabled :: "bool option"
  sr_BuiltInAdapter :: "BuiltInAdapter option"

record ServingRuntime =
  rt_Meta :: ObjectMeta
  rt_Spec :: ServingRuntimeSpec

definition zero_RuntimeSpec :: ServingRuntimeSpec where
  "zero_RuntimeSpec = \<lparr>sr_SupportedModelFormats = [], sr_ProtocolVersions = [], sr_MultiModel = None,
     sr_IsMultiModelRuntime = False, sr_IsDisabled = False, sr_Containers = [], sr_Volumes = [], sr_NodeSelector = [],
     sr_Affinity = None, sr_Tolerations = [], sr_Labels = [], sr_Annotations = [], sr_ImagePullSecrets = [],
     sr_GrpcMultiModelManagementEndpoint = None, sr_GrpcDataEndpoint = None, sr_Replicas = None,
     sr_StorageHelperDisabled = None, sr_BuiltInAdapter = None\<rparr>"

abbreviation sr_LabelSet :: "ks_protocols \<Rightarrow> ServingRuntimeSpec \<Rightarrow> bool \<Rightarrow> string \<Rightarrow> sset" where
  "sr_LabelSet ks rt restProxyEnabled rtName \<equiv>
     GetServingRuntimeLabelSet ks (sr_SupportedModelFormats rt) (sr_ProtocolVersions rt) restProxyEnabled rtName"

section \<open>Names shared by the controllers (controllers/modelmesh/const.go)\<close>

definition ModelMeshContainerName :: string where "ModelMeshContainerName = ''mm''"

definition RESTProxyContainerName :: string where "RESTProxyContainerName = ''rest-proxy''"

definition PullerContainerName :: string where "PullerContainerName = ''puller''"

definition EtcdSecretKey :: string where "EtcdSecretKey = ''etcd_connection''"

definition EtcdVolume :: string where "EtcdVolume = ''etcd-config''"

definition ModelsDirVolume :: string where "ModelsDirVolume = ''models-dir''"

definition SocketVolume :: string where "SocketVolume = ''domain-socket''"

definition ConfigStorageMount :: string where "ConfigStorageMount = ''storage-config''"

definition InternalConfigMapName :: string where "InternalConfigMapName = ''tc-config''"

definition PullerPortNumber :: int where "PullerPortNumber = 8086"

definition PullerModelPath :: string where "PullerModelPath = ''/models''"

definition DefaultPVCMountsDir :: string where "DefaultPVCMountsDir = ''/pvc_mounts''"

definition PullerConfigPath :: string where "PullerConfigPath = ''/storage-config''"

lemmas mesh_names = ModelMeshContainerName_def RESTProxyContainerName_def PullerContainerName_def EtcdSecretKey_def
  EtcdVolume_def ModelsDirVolume_def SocketVolume_def ConfigStorageMount_def InternalConfigMapName_def
  PullerPortNumber_def PullerModelPath_def DefaultPVCMountsDir_def PullerConfigPath_def

end
