(* ===== verification/Runtime_Validator.thy ===== *)
theory Runtime_Validator
  imports Runtime_Types
begin

text \<open>
  Validation of a runtime spec before it is deployed (controllers/servingruntime\_validator.go). The errors are a
  datatype with one constructor per message; \<open>config.BuiltInServerTypes\<close> is an argument, the only part of the
  configuration these functions read.
\<close>

datatype validation_error =
    UnrecognizedServerType string
  | MissingRuntimeContainer string
  | InvalidContainer string validation_error
  | ReservedName string string
  | ReservedPrefix string
  | ManagedFields
  | ReservedPort int
  | ReservedPortRange

type_synonym validation = "validation_error option"

definition internalContainerNames :: "string list" where
  "internalContainerNames = [ModelMeshContainerName, RESTProxyContainerName, PullerContainerName]"

definition internalOnlyVolumeMounts :: "string list" where
  "internalOnlyVolumeMounts = [ConfigStorageMount, EtcdVolume, InternalConfigMapName, SocketVolume]"

definition internalNamedPorts :: "string list" where
  "internalNamedPorts = [''grpc'', ''http'', ''prometheus'']"

definition internalPorts :: "int list" where
  "internalPorts = [8080, 8085, 8089, 8090]"

definition internalVolumes :: "string list" where
  "internalVolumes = [ConfigStorageMount, EtcdVolume, InternalConfigMapName, SocketVolume, ModelsDirVolume]"

definition checkName :: "string \<Rightarrow> string list \<Rightarrow> string \<Rightarrow> validation" where
  "checkName name internalNames logStr =
     (if name \<in> set internalNames then Some (ReservedName logStr name)
      else if HasPrefix name ''mm-'' then Some (ReservedPrefix logStr)
      else None)"

text \<open>A loop that returns the first error.\<close>

fun first_error :: "('a \<Rightarrow> validation) \<Rightarrow> 'a list \<Rightarrow> validation" where
  "first_error f [] = None"
| "first_error f (x # xs) = (case f x of Some e \<Rightarrow> Some e | None \<Rightarrow> first_error f xs)"

definition validate_port :: "ContainerPort \<Rightarrow> validation" where
  "validate_port p =
     (case checkName (cp_Name p) internalNamedPorts ''port name'' of
        Some e \<Rightarrow> Some e
      | None \<Rightarrow>
          if cp_ContainerPort p \<in> set internalPorts then Some (ReservedPort (cp_ContainerPort p))
          else if cp_ContainerPort p \<ge> 11881 \<and> cp_ContainerPort p < 11900 then Some ReservedPortRange
          else None)"

definition validateContainer :: "Container \<Rightarrow> validation" where
  "validateContainer c =
     (case checkName (c_Name c) internalContainerNames ''container name'' of
        Some e \<Rightarrow> Some e
      | None \<Rightarrow>
          if c_ReadinessProbe c \<noteq> None \<or> c_Lifecycle c \<noteq> None then Some ManagedFields
          else (case first_error (\<lambda>vm. checkName (vm_Name vm) internalOnlyVolumeMounts ''volume'') (c_VolumeMounts c) of
                  Some e \<Rightarrow> Some e
                | None \<Rightarrow> first_error validate_port (c_Ports c)))"

definition validateContainers :: "ServingRuntimeSpec \<Rightarrow> validation" where
  "validateContainers rts =
     first_error (\<lambda>c. map_option (InvalidContainer (c_Name c)) (validateContainer c)) (sr_Containers rts)"

definition validateVolumes :: "ServingRuntimeSpec \<Rightarrow> validation" where
  "validateVolumes rts = first_error (\<lambda>v. checkName (vol_Name v) internalVolumes ''volume'') (sr_Volumes rts)"

definition validateBuiltInAdapterSpec :: "string list \<Rightarrow> ServingRuntimeSpec \<Rightarrow> validation" where
  "validateBuiltInAdapterSpec builtInServerTypes rts =
     (case sr_BuiltInAdapter rts of
        None \<Rightarrow> None
      | Some a \<Rightarrow>
          (let st = ba_ServerType a in
           if st \<notin> set builtInServerTypes then Some (UnrecognizedServerType st)
           else if list_ex (\<lambda>c. c_Name c = st) (sr_Containers rts) then None
           else Some (MissingRuntimeContainer st)))"

definition validationChain :: "ServingRuntimeSpec \<Rightarrow> (ServingRuntimeSpec \<Rightarrow> validation) list \<Rightarrow> validation" where
  "validationChain rts funcs = first_error (\<lambda>f. f rts) funcs"

definition validateServingRuntimeSpec :: "string list \<Rightarrow> ServingRuntimeSpec \<Rightarrow> validation" where
  "validateServingRuntimeSpec builtInServerTypes rts =
     validationChain rts [validateBuiltInAdapterSpec builtInServerTypes, validateContainers, validateVolumes]"

section \<open>What passes validation\<close>

definition free_name :: "string list \<Rightarrow> string \<Rightarrow> bool" where
  "free_name internalNames name \<longleftrightarrow> name \<notin> set internalNames \<and> \<not> HasPrefix name ''mm-''"

definition free_container :: "Container \<Rightarrow> bool" where
  "free_container c \<longleftrightarrow>
     free_name internalContainerNames (c_Name c) \<and> c_ReadinessProbe c = None \<and> c_Lifecycle c = None \<and>
     (\<forall>vm\<in>set (c_VolumeMounts c). free_name internalOnlyVolumeMounts (vm_Name vm)) \<and>
     (\<forall>p\<in>set (c_Ports c). free_name internalNamedPorts (cp_Name p) \<and> cp_ContainerPort p \<notin> set internalPorts \<and>
        (cp_ContainerPort p < 11881 \<or> 11900 \<le> cp_ContainerPort p))"

lemma or_else_None: "(case a of Some e \<Rightarrow> Some e | None \<Rightarrow> b) = None \<longleftrightarrow> a = None \<and> b = None"
  by (cases a) auto

lemma first_error_None: "first_error f xs = None \<longleftrightarrow> (\<forall>x\<in>set xs. f x = None)"
  by (induction xs) (auto split: option.splits)

lemma first_error_Some: "first_error f xs = Some e \<Longrightarrow> \<exists>x\<in>set xs. f x = Some e"
  by (induction xs) (auto split: option.splits)

lemma checkName_None: "checkName name names l = None \<longleftrightarrow> free_name names name"
  by (simp add: checkName_def free_name_def)

lemmas validation_None = or_else_None first_error_None checkName_None

lemma validate_port_None:
  "validate_port p = None \<longleftrightarrow> free_name internalNamedPorts (cp_Name p) \<and> cp_ContainerPort p \<notin> set internalPorts \<and>
     (cp_ContainerPort p < 11881 \<or> 11900 \<le> cp_ContainerPort p)"
  by (auto simp: validate_port_def validation_None)

lemma validateContainer_None: "validateContainer c = None \<longleftrightarrow> free_container c"
  by (auto simp: validateContainer_def free_container_def validation_None validate_port_None)

text \<open>
  C20. The validator accepts exactly the specs that leave the names, ports and fields of the injected
  containers alone: every container and volume has a name that is neither reserved nor starts with \<open>mm-\<close>, no
  container sets a readiness probe or a lifecycle, mounts a private volume or uses a reserved port, and
  a built-in adapter has a known server type and a container of that name.
\<close>

theorem validateServingRuntimeSpec_iff:
  "validateServingRuntimeSpec types rts = None \<longleftrightarrow>
     (case sr_BuiltInAdapter rts of
        None \<Rightarrow> True
      | Some a \<Rightarrow> ba_ServerType a \<in> set types \<and> (\<exists>c. c \<in> set (sr_Containers rts) \<and> c_Name c = ba_ServerType a)) \<and>
     list_all free_container (sr_Containers rts) \<and>
     list_all (\<lambda>v. free_name internalVolumes (vol_Name v)) (sr_Volumes rts)"
proof -
  have "validateBuiltInAdapterSpec types rts = None \<longleftrightarrow>
     (case sr_BuiltInAdapter rts of None \<Rightarrow> True
      | Some a \<Rightarrow> ba_ServerType a \<in> set types \<and> (\<exists>c. c \<in> set (sr_Containers rts) \<and> c_Name c = ba_ServerType a))"
    by (auto simp: validateBuiltInAdapterSpec_def Let_def list_ex_iff split: option.splits)
  moreover have "validateContainers rts = None \<longleftrightarrow> list_all free_container (sr_Containers rts)"
    by (simp add: validateContainers_def first_error_None validateContainer_None list_all_iff)
  moreover have "validateVolumes rts = None \<longleftrightarrow> list_all (\<lambda>v. free_name internalVolumes (vol_Name v)) (sr_Volumes rts)"
    by (simp add: validateVolumes_def first_error_None checkName_None list_all_iff)
  ultimately show ?thesis
    unfolding validateServingRuntimeSpec_def validationChain_def first_error_None by simp
qed

end
