(* ===== verification/Autoscaling.thy ===== *)
theory Autoscaling
  imports Runtime_Types
begin

text \<open>
  Autoscaling of serving runtimes: the admission webhook (apis/serving/v1alpha1/servingruntime\_webhook.go), the HPA
  reconciler (controllers/hpa/hpa\_reconciler.go) and the autoscaler around it
  (controllers/autoscaler/autoscaler\_reconciler.go). The annotation keys, class names, metric names and
  defaults are constants of kserve, the record \<open>ks_autoscaling\<close>; \<open>utils.Union\<close> of kserve and
  \<open>controllerutil.SetControllerReference\<close> of controller-runtime are arguments.
\<close>

section \<open>Webhook\<close>

record ks_autoscaling =
  ka_AutoscalerClass :: string
  ka_AutoscalerMetrics :: string
  ka_TargetUtilizationPercentage :: string
  ka_KServeAPIGroupName :: string
  ka_ClassHPA :: string
  ka_AllowedClassList :: "string list"
  ka_AllowedMetricsList :: "string list"
  ka_MetricsCPU :: string
  ka_MetricsMemory :: string
  ka_DefaultCPUUtilization :: int
  ka_DefaultMinReplicas :: int
  ka_InferenceServicePodLabelKey :: string
  ka_KServiceComponentLabel :: string
  ka_PredictorComponent :: string

definition MinScaleAnnotationKey :: "ks_autoscaling \<Rightarrow> string" where
  "MinScaleAnnotationKey ka = ka_KServeAPIGroupName ka @ ''/min-scale''"

definition MaxScaleAnnotationKey :: "ks_autoscaling \<Rightarrow> string" where
  "MaxScaleAnnotationKey ka = ka_KServeAPIGroupName ka @ ''/max-scale''"

definition AutoscalerClassNone :: string where
  "AutoscalerClassNone = ''none''"

definition MaxUint16 :: u16 where
  "MaxUint16 = 65535"

datatype webhook_error =
    UnknownClass string
  | UnsupportedClass string
  | UnsupportedMetric string
  | BadUtilization
  | ReplicasAndAutoscaler
  | MinNotInteger
  | MinNotPositive
  | MaxNotInteger
  | MaxBelowMin
  | MemoryTooSmall

definition validateHPAMetrics :: "ks_autoscaling \<Rightarrow> string \<Rightarrow> webhook_error option" where
  "validateHPAMetrics ka metric = (if metric \<in> set (ka_AllowedMetricsList ka) then None else Some (UnsupportedMetric metric))"

definition validateServingRuntimeAutoscaler :: "ks_autoscaling \<Rightarrow> (string, string) gomap \<Rightarrow> webhook_error option" where
  "validateServingRuntimeAutoscaler ka annotations =
     (case gomap_get annotations (ka_AutoscalerClass ka) of
        None \<Rightarrow> None
      | Some class \<Rightarrow>
          if class \<in> set (ka_AllowedClassList ka) then
            (if class = ka_ClassHPA ka then
               (case gomap_get annotations (ka_AutoscalerMetrics ka) of
                  Some metric \<Rightarrow> validateHPAMetrics ka metric
                | None \<Rightarrow> None)
             else Some (UnknownClass class))
          else Some (UnsupportedClass class))"

definition validateAutoscalerTargetUtilizationPercentage :: "ks_autoscaling \<Rightarrow> (string, string) gomap \<Rightarrow> webhook_error option" where
  "validateAutoscalerTargetUtilizationPercentage ka annotations =
     (case gomap_get annotations (ka_TargetUtilizationPercentage ka) of
        None \<Rightarrow> None
      | Some v \<Rightarrow>
          (case Atoi v of
             None \<Rightarrow> Some BadUtilization
           | Some t \<Rightarrow> if t < 1 \<or> t > 100 then Some BadUtilization else None))"

definition scaling_min :: "ks_autoscaling \<Rightarrow> (string, string) gomap \<Rightarrow> webhook_error + int" where
  "scaling_min ka annotations =
     (case gomap_get annotations (MinScaleAnnotationKey ka) of
        None \<Rightarrow> Inr 1
      | Some v \<Rightarrow>
          (case Atoi v of
             None \<Rightarrow> Inl MinNotInteger
           | Some n \<Rightarrow> if n < 1 then Inl MinNotPositive else Inr n))"

definition scaling_max :: "ks_autoscaling \<Rightarrow> (string, string) gomap \<Rightarrow> webhook_error + int" where
  "scaling_max ka annotations =
     (case gomap_get annotations (MaxScaleAnnotationKey ka) of
        None \<Rightarrow> Inr 1
      | Some v \<Rightarrow> (case Atoi v of None \<Rightarrow> Inl MaxNotInteger | Some n \<Rightarrow> Inr n))"

definition validateScalingHPA :: "ks_autoscaling \<Rightarrow> (string, string) gomap \<Rightarrow> webhook_error option" where
  "validateScalingHPA ka annotations =
     (let metric = (case gomap_get annotations (ka_AutoscalerMetrics ka) of None \<Rightarrow> ka_MetricsCPU ka | Some v \<Rightarrow> v)
      in case scaling_min ka annotations of
           Inl e \<Rightarrow> Some e
         | Inr minReplicas \<Rightarrow>
             (case scaling_max ka annotations of
                Inl e \<Rightarrow> Some e
              | Inr maxReplicas \<Rightarrow>
                  if minReplicas > maxReplicas then Some MaxBelowMin
                  else (case validateHPAMetrics ka metric of
                          Some e \<Rightarrow> Some e
                        | None \<Rightarrow>
                            (case gomap_get annotations (ka_TargetUtilizationPercentage ka) of
                               None \<Rightarrow> None
                             | Some v \<Rightarrow>
                                 (case Atoi v of
                                    None \<Rightarrow> Some BadUtilization
                                  | Some t \<Rightarrow> if metric = ka_MetricsMemory ka \<and> t < 1 then Some MemoryTooSmall else None)))))"

definition validateAutoScalingReplicas :: "ks_autoscaling \<Rightarrow> (string, string) gomap \<Rightarrow> u16 \<Rightarrow> webhook_error option" where
  "validateAutoScalingReplicas ka annotations srReplicas =
     (let class = (case gomap_get annotations (ka_AutoscalerClass ka) of None \<Rightarrow> AutoscalerClassNone | Some v \<Rightarrow> v)
      in if class = ka_ClassHPA ka then
           (if srReplicas \<noteq> MaxUint16 then Some ReplicasAndAutoscaler else validateScalingHPA ka annotations)
         else None)"

datatype admission = Errored | Allowed string | Denied webhook_error

text \<open>\<open>decoded\<close> is what the decoder makes of the request, for either kind (\<open>None\<close>: an error).\<close>

definition Handle :: "ks_autoscaling \<Rightarrow> ServingRuntime option \<Rightarrow> admission" where
  "Handle ka decoded =
     (case decoded of
        None \<Rightarrow> Errored
      | Some servingRuntime \<Rightarrow>
          (let srAnnotations = om_Annotations (rt_Meta servingRuntime);
               srReplicas = (case sr_Replicas (rt_Spec servingRuntime) of None \<Rightarrow> MaxUint16 | Some r \<Rightarrow> r);
               multiModel = (case sr_MultiModel (rt_Spec servingRuntime) of None \<Rightarrow> False | Some b \<Rightarrow> b)
           in if \<not> multiModel then Allowed ''Not validating ServingRuntime because it is not ModelMesh compatible''
              else (case validateServingRuntimeAutoscaler ka srAnnotations of
                      Some e \<Rightarrow> Denied e
                    | None \<Rightarrow>
                        (case validateAutoscalerTargetUtilizationPercentage ka srAnnotations of
                           Some e \<Rightarrow> Denied e
                         | None \<Rightarrow>
                             (case validateAutoScalingReplicas ka srAnnotations srReplicas of
                                Some e \<Rightarrow> Denied e
                              | None \<Rightarrow> Allowed ''Passed all validation checks for ServingRuntime'')))))"

section \<open>HPA reconciler\<close>

record MetricSpec =
  ms_Resource :: string
  ms_AverageUtilization :: int

record HPA =
  hpa_Meta :: ObjectMeta
  hpa_TargetName :: string
  hpa_MinReplicas :: "int option"
  hpa_MaxReplicas :: int
  hpa_Metrics :: "MetricSpec list"

text \<open>\<open>hpa\_reconciler.go\<close> logs an annotation that does not parse and keeps the default.\<close>

definition int_annotation :: "(string, string) gomap \<Rightarrow> string \<Rightarrow> int \<Rightarrow> int" where
  "int_annotation annotations key dflt =
     (case gomap_get annotations key of
        None \<Rightarrow> dflt
      | Some v \<Rightarrow> (case ParseInt 32 v of None \<Rightarrow> dflt | Some n \<Rightarrow> n))"

definition getHPAMetrics :: "ks_autoscaling \<Rightarrow> ObjectMeta \<Rightarrow> MetricSpec list" where
  "getHPAMetrics ka metadata =
     (let annotations = om_Annotations metadata
      in [\<lparr>ms_Resource = (case gomap_get annotations (ka_AutoscalerMetrics ka) of None \<Rightarrow> ''cpu'' | Some v \<Rightarrow> v),
           ms_AverageUtilization = int_annotation annotations (ka_TargetUtilizationPercentage ka) (ka_DefaultCPUUtilization ka)\<rparr>])"

type_synonym union_fn = "(string, string) gomap list \<Rightarrow> (string, string) gomap"

definition createHPA :: "ks_autoscaling \<Rightarrow> union_fn \<Rightarrow> ObjectMeta \<Rightarrow> string \<Rightarrow> string \<Rightarrow> HPA" where
  "createHPA ka union_maps runtimeMeta mmDeploymentName mmNamespace =
     (let annotations = om_Annotations runtimeMeta;
          minReplicas = int_annotation annotations (MinScaleAnnotationKey ka) (ka_DefaultMinReplicas ka);
          maxReplicas = int_annotation annotations (MaxScaleAnnotationKey ka) (ka_DefaultMinReplicas ka);
          maxReplicas = (if maxReplicas < minReplicas then minReplicas else maxReplicas)
      in \<lparr>hpa_Meta = zero_Meta
            \<lparr>om_Name := mmDeploymentName, om_Namespace := mmNamespace,
             om_Labels := union_maps [om_Labels runtimeMeta,
               [(ka_InferenceServicePodLabelKey ka, om_Name runtimeMeta), (ka_KServiceComponentLabel ka, ka_PredictorComponent ka)]],
             om_Annotations := om_Annotations runtimeMeta\<rparr>,
          hpa_TargetName = mmDeploymentName,
          hpa_MinReplicas = Some minReplicas,
          hpa_MaxReplicas = maxReplicas,
          hpa_Metrics = getHPAMetrics ka runtimeMeta\<rparr>)"

text \<open>The dereference of \<open>MinReplicas\<close>: \<open>None\<close> is the panic for an HPA without it (the API server defaults it).\<close>

definition semanticHPAEquals :: "HPA \<Rightarrow> HPA \<Rightarrow> bool option" where
  "semanticHPAEquals desired existing =
     (if hpa_Metrics desired = hpa_Metrics existing \<and> hpa_MaxReplicas desired = hpa_MaxReplicas existing then
        (case (hpa_MinReplicas desired, hpa_MinReplicas existing) of
           (Some a, Some b) \<Rightarrow> Some (a = b)
         | _ \<Rightarrow> None)
      else Some False)"

datatype check_result = CheckResultCreate | CheckResultUpdate | CheckResultExisted

record hpa_client =
  hcl_Get :: "NamespacedName \<Rightarrow> api_error + HPA"
  hcl_Create :: "HPA \<Rightarrow> api_error option"
  hcl_Update :: "HPA \<Rightarrow> api_error option"
  hcl_Delete :: "HPA \<Rightarrow> api_error option"

definition checkHPAExist :: "hpa_client \<Rightarrow> HPA \<Rightarrow> (api_error + check_result \<times> HPA option) option" where
  "checkHPAExist client hpa =
     (case hcl_Get client \<lparr>nn_Namespace = om_Namespace (hpa_Meta hpa), nn_Name = om_Name (hpa_Meta hpa)\<rparr> of
        Inl NotFound \<Rightarrow> Some (Inr (CheckResultCreate, None))
      | Inl err \<Rightarrow> Some (Inl err)
      | Inr existing \<Rightarrow>
          map_option (\<lambda>eq. Inr (if eq then CheckResultExisted else CheckResultUpdate, Some existing))
            (semanticHPAEquals hpa existing))"

datatype hpa_call = HPACreate HPA | HPAUpdate HPA | HPADelete HPA

text \<open>The answer and the writing request made, if any.\<close>

definition HPA_Reconcile :: "hpa_client \<Rightarrow> HPA \<Rightarrow> bool \<Rightarrow> ((api_error + HPA option) \<times> hpa_call list) option" where
  "HPA_Reconcile client hpa scaleToZero =
     (case checkHPAExist client hpa of
        None \<Rightarrow> None
      | Some (Inl err) \<Rightarrow> Some (Inl err, [])
      | Some (Inr (checkResult, existing)) \<Rightarrow>
          Some (if checkResult = CheckResultCreate \<and> \<not> scaleToZero then
                  (case hcl_Create client hpa of None \<Rightarrow> Inr (Some hpa) | Some err \<Rightarrow> Inl err, [HPACreate hpa])
                else if checkResult = CheckResultUpdate then
                  (case hcl_Update client hpa of None \<Rightarrow> Inr (Some hpa) | Some err \<Rightarrow> Inl err, [HPAUpdate hpa])
                else if checkResult = CheckResultExisted \<and> scaleToZero then
                  (case hcl_Delete client (the existing) of None \<Rightarrow> Inr None | Some err \<Rightarrow> Inl err, [HPADelete (the existing)])
                else (Inr existing, [])))"

section \<open>Autoscaler\<close>

record Autoscaler =
  as_AutoscalerClass :: string
  as_HPA :: "HPA option"

datatype autoscaler_error = OwnerReference string | UnknownAutoscalerClass

definition getAutoscalerClass :: "ks_autoscaling \<Rightarrow> ObjectMeta \<Rightarrow> string" where
  "getAutoscalerClass ka metadata =
     (case gomap_get (om_Annotations metadata) (ka_AutoscalerClass ka) of None \<Rightarrow> AutoscalerClassNone | Some v \<Rightarrow> v)"

text \<open>\<open>setOwner\<close> is \<open>SetControllerReference\<close> with the runtime as owner; the model does not record owner references.\<close>

definition createAutoscaler ::
  "ks_autoscaling \<Rightarrow> union_fn \<Rightarrow> (ObjectMeta \<Rightarrow> HPA \<Rightarrow> string option) \<Rightarrow> ObjectMeta \<Rightarrow> string \<Rightarrow> string \<Rightarrow> autoscaler_error + Autoscaler" where
  "createAutoscaler ka union_maps setOwner runtimeMeta mmDeploymentName mmNamespace =
     (let ac = getAutoscalerClass ka runtimeMeta;
          hpa = createHPA ka union_maps runtimeMeta mmDeploymentName mmNamespace
      in if ac = ka_ClassHPA ka then
           (case setOwner runtimeMeta hpa of
              Some err \<Rightarrow> Inl (OwnerReference err)
            | None \<Rightarrow> Inr \<lparr>as_AutoscalerClass = ac, as_HPA = Some hpa\<rparr>)
         else if ac = AutoscalerClassNone then Inr \<lparr>as_AutoscalerClass = ac, as_HPA = Some hpa\<rparr>
         else Inl UnknownAutoscalerClass)"

text \<open>\<open>AutoscalerReconciler.Reconcile\<close>: the error if any, the autoscaler afterwards, the request made; \<open>None\<close> is a panic.\<close>

definition Autoscaler_Reconcile ::
  "ks_autoscaling \<Rightarrow> hpa_client \<Rightarrow> Autoscaler \<Rightarrow> bool \<Rightarrow> ((api_error + Autoscaler) \<times> hpa_call list) option" where
  "Autoscaler_Reconcile ka client as scaleToZero =
     (let finish = (\<lambda>calls. Some (Inr (if scaleToZero then as\<lparr>as_HPA := None\<rparr> else as), calls))
      in if as_AutoscalerClass as = ka_ClassHPA ka \<or> as_AutoscalerClass as = AutoscalerClassNone then
           (case as_HPA as of
              None \<Rightarrow> None
            | Some hpa \<Rightarrow>
                (case HPA_Reconcile client hpa scaleToZero of
                   None \<Rightarrow> None
                 | Some (Inl err, calls) \<Rightarrow> Some (Inl err, calls)
                 | Some (Inr _, calls) \<Rightarrow> finish calls))
         else finish [])"

section \<open>Lemmas\<close>

lemma ParseInt_32_64:
  assumes "Atoi v = Some n" and "- (2 ^ 31) \<le> n" and "n < 2 ^ 31"
  shows "ParseInt 32 v = Some n"
  using assms unfolding Atoi_def ParseInt_def
  by (auto simp: Let_def split: list.splits option.splits if_splits)

lemma ParseInt_32_range: "ParseInt 32 v = Some n \<Longrightarrow> - (2 ^ 31) \<le> n \<and> n < 2 ^ 31"
  unfolding ParseInt_def by (auto simp: Let_def split: list.splits option.splits if_splits)

lemma ParseInt_32_Atoi: "ParseInt 32 v = Some n \<Longrightarrow> Atoi v = Some n"
  unfolding Atoi_def ParseInt_def by (auto simp: Let_def split: list.splits option.splits if_splits)

lemma Handle_passed:
  assumes "Handle ka (Some rt) = Allowed ''Passed all validation checks for ServingRuntime''"
  shows "validateServingRuntimeAutoscaler ka (om_Annotations (rt_Meta rt)) = None"
    and "validateAutoscalerTargetUtilizationPercentage ka (om_Annotations (rt_Meta rt)) = None"
    and "validateAutoScalingReplicas ka (om_Annotations (rt_Meta rt))
      (case sr_Replicas (rt_Spec rt) of None \<Rightarrow> MaxUint16 | Some r \<Rightarrow> r) = None"
  using assms by (auto simp: Handle_def Let_def split: if_splits option.splits)

lemma validateScalingHPA_min:
  assumes "validateScalingHPA ka annotations = None"
  obtains m x where "scaling_min ka annotations = Inr m" "scaling_max ka annotations = Inr x" "m \<le> x"
  using assms by (auto simp: validateScalingHPA_def Let_def split: sum.splits if_splits)

lemma scaling_min_pos: "scaling_min ka annotations = Inr m \<Longrightarrow> 1 \<le> m"
  by (auto simp: scaling_min_def split: option.splits if_splits)

lemma min_annotation:
  assumes "scaling_min ka annotations = Inr m" and "ka_DefaultMinReplicas ka = 1"
  shows "int_annotation annotations (MinScaleAnnotationKey ka) (ka_DefaultMinReplicas ka) = (if m < 2 ^ 31 then m else 1)"
proof (cases "gomap_get annotations (MinScaleAnnotationKey ka)")
  case (Some v)
  then have a: "Atoi v = Some m" "1 \<le> m" using assms(1) by (auto simp: scaling_min_def split: option.splits if_splits)
  show ?thesis
  proof (cases "m < 2 ^ 31")
    case True
    then show ?thesis using Some ParseInt_32_64[OF a(1)] a(2) by (simp add: int_annotation_def)
  next
    case False
    then have "ParseInt 32 v = None" using ParseInt_32_Atoi ParseInt_32_range a(1) by (metis not_None_eq option.inject)
    then show ?thesis using Some False assms(2) by (simp add: int_annotation_def)
  qed
qed (use assms in \<open>simp add: scaling_min_def int_annotation_def\<close>)

lemma int_annotation_range:
  "- (2 ^ 31) \<le> d \<Longrightarrow> d < 2 ^ 31 \<Longrightarrow> int_annotation annotations key d < 2 ^ 31"
  by (auto simp: int_annotation_def dest: ParseInt_32_range split: option.splits)

section \<open>Properties\<close>

text \<open>
  C21. A multi-model runtime that the webhook admits with the HPA class gets an HPA with at least one replica and
  the bounds in order, the minimum being the annotated one whenever that fits into 32 bits, and an
  annotated target utilisation between 1 and 100 is taken over as it is.
\<close>

theorem admitted_HPA_bounds:
  assumes "Handle ka (Some rt) = Allowed ''Passed all validation checks for ServingRuntime''"
    and "gomap_get (om_Annotations (rt_Meta rt)) (ka_AutoscalerClass ka) = Some (ka_ClassHPA ka)"
    and "ka_DefaultMinReplicas ka = 1"
  shows "sr_Replicas (rt_Spec rt) \<in> {None, Some MaxUint16} \<and>
     (\<exists>m n. scaling_min ka (om_Annotations (rt_Meta rt)) = Inr n \<and> m = (if n < 2 ^ 31 then n else 1) \<and>
        hpa_MinReplicas (createHPA ka union_maps (rt_Meta rt) name ns) = Some m \<and>
        1 \<le> m \<and> m \<le> hpa_MaxReplicas (createHPA ka union_maps (rt_Meta rt) name ns) \<and>
        hpa_MaxReplicas (createHPA ka union_maps (rt_Meta rt) name ns) < 2 ^ 31) \<and>
     (\<forall>v. gomap_get (om_Annotations (rt_Meta rt)) (ka_TargetUtilizationPercentage ka) = Some v \<longrightarrow>
        (\<exists>u. map ms_AverageUtilization (hpa_Metrics (createHPA ka union_maps (rt_Meta rt) name ns)) = [u] \<and>
          Atoi v = Some u \<and> 1 \<le> u \<and> u \<le> 100))"
proof -
  let ?a = "om_Annotations (rt_Meta rt)"
  note h = Handle_passed[OF assms(1)]
  have r: "(case sr_Replicas (rt_Spec rt) of None \<Rightarrow> MaxUint16 | Some r \<Rightarrow> r) = MaxUint16" and v: "validateScalingHPA ka ?a = None"
    using h(3) assms(2) by (auto simp: validateAutoScalingReplicas_def Let_def split: if_splits)
  obtain n x where n: "scaling_min ka ?a = Inr n" "scaling_max ka ?a = Inr x" "n \<le> x" using v by (rule validateScalingHPA_min)
  have util: "\<exists>u. int_annotation ?a (ka_TargetUtilizationPercentage ka) (ka_DefaultCPUUtilization ka) = u \<and> Atoi v = Some u \<and> 1 \<le> u \<and> u \<le> 100"
    if g: "gomap_get ?a (ka_TargetUtilizationPercentage ka) = Some v" for v
  proof -
    obtain u where u: "Atoi v = Some u" "1 \<le> u" "u \<le> 100"
      using h(2) g by (auto simp: validateAutoscalerTargetUtilizationPercentage_def split: option.splits if_splits)
    then show ?thesis using g ParseInt_32_64[OF u(1)] u(2,3) by (auto simp: int_annotation_def)
  qed
  have "int_annotation ?a (MaxScaleAnnotationKey ka) 1 < 2 ^ 31" by (rule int_annotation_range) auto
  then show ?thesis
    using r util n(1) min_annotation[OF n(1) assms(3)] scaling_min_pos[OF n(1)] assms(3)
    by (auto simp: createHPA_def getHPAMetrics_def Let_def split: option.splits)
qed

definition sample_ka :: ks_autoscaling where
  "sample_ka = \<lparr>ka_AutoscalerClass = ''class'', ka_AutoscalerMetrics = ''metrics'', ka_TargetUtilizationPercentage = ''util'',
     ka_KServeAPIGroupName = ''g'', ka_ClassHPA = ''hpa'', ka_AllowedClassList = [''hpa''], ka_AllowedMetricsList = [''cpu'', ''memory''],
     ka_MetricsCPU = ''cpu'', ka_MetricsMemory = ''memory'', ka_DefaultCPUUtilization = 80, ka_DefaultMinReplicas = 1,
     ka_InferenceServicePodLabelKey = ''p'', ka_KServiceComponentLabel = ''c'', ka_PredictorComponent = ''predictor''\<rparr>"

definition sample_runtime :: "(string, string) gomap \<Rightarrow> ServingRuntime" where
  "sample_runtime annotations = \<lparr>rt_Meta = zero_Meta\<lparr>om_Name := ''rt'', om_Annotations := annotations\<rparr>,
     rt_Spec = zero_RuntimeSpec\<lparr>sr_MultiModel := Some True, sr_IsMultiModelRuntime := True\<rparr>\<rparr>"

lemmas sample_autoscaling = sample_ka_def sample_runtime_def zero_Meta_def zero_RuntimeSpec_def Handle_def Let_def
  validateServingRuntimeAutoscaler_def validateAutoscalerTargetUtilizationPercentage_def validateAutoScalingReplicas_def
  validateScalingHPA_def validateHPAMetrics_def scaling_min_def scaling_max_def MinScaleAnnotationKey_def MaxScaleAnnotationKey_def
  Atoi_def ParseInt_def ParseUint10_def is_digit_def

theorem admitted_HPA_bounds_witness:
  "Handle sample_ka (Some (sample_runtime [(''class'', ''hpa''), (''g/min-scale'', ''2''), (''g/max-scale'', ''4''), (''util'', ''50'')])) =
     Allowed ''Passed all validation checks for ServingRuntime'' \<and>
   hpa_MinReplicas (createHPA sample_ka concat (rt_Meta (sample_runtime
     [(''class'', ''hpa''), (''g/min-scale'', ''2''), (''g/max-scale'', ''4''), (''util'', ''50'')])) ''d'' ''n'') = Some 2"
proof -
  let ?rt = "sample_runtime [(''class'', ''hpa''), (''g/min-scale'', ''2''), (''g/max-scale'', ''4''), (''util'', ''50'')]"
  have h: "Handle sample_ka (Some ?rt) = Allowed ''Passed all validation checks for ServingRuntime''"
    "gomap_get (om_Annotations (rt_Meta ?rt)) (ka_AutoscalerClass sample_ka) = Some (ka_ClassHPA sample_ka)"
    "ka_DefaultMinReplicas sample_ka = 1" "scaling_min sample_ka (om_Annotations (rt_Meta ?rt)) = Inr 2"
    by (simp_all add: sample_autoscaling)
  show ?thesis using admitted_HPA_bounds[OF h(1-3), of concat "''d''" "''n''"] h(1,4) by auto
qed


section \<open>The HPA in the cluster\<close>

text \<open>
  The cluster's HPA under the name of the deployment, \<open>None\<close> if there is none, and an API server that answers
  from it and accepts every write.
\<close>

definition hpa_server :: "HPA option \<Rightarrow> hpa_client" where
  "hpa_server st = \<lparr>hcl_Get = (\<lambda>_. case st of None \<Rightarrow> Inl NotFound | Some h \<Rightarrow> Inr h),
     hcl_Create = (\<lambda>_. None), hcl_Update = (\<lambda>_. None), hcl_Delete = (\<lambda>_. None)\<rparr>"

fun hpa_apply :: "hpa_call \<Rightarrow> HPA option \<Rightarrow> HPA option" where
  "hpa_apply (HPACreate h) st = Some h"
| "hpa_apply (HPAUpdate h) st = Some h"
| "hpa_apply (HPADelete h) st = None"

definition hpa_run :: "HPA \<Rightarrow> bool \<Rightarrow> HPA option \<Rightarrow> HPA option option" where
  "hpa_run desired scaleToZero st =
     (case HPA_Reconcile (hpa_server st) desired scaleToZero of
        None \<Rightarrow> None
      | Some (_, calls) \<Rightarrow> Some (fold hpa_apply calls st))"

lemma semanticHPAEquals_refl: "hpa_MinReplicas h \<noteq> None \<Longrightarrow> semanticHPAEquals h h = Some True"
  by (auto simp: semanticHPAEquals_def)

lemma semanticHPAEquals_total:
  "hpa_MinReplicas h \<noteq> None \<Longrightarrow> hpa_MinReplicas g \<noteq> None \<Longrightarrow> \<exists>b. semanticHPAEquals h g = Some b"
  by (auto simp: semanticHPAEquals_def)

lemma hpa_run_eq:
  assumes "hpa_MinReplicas h \<noteq> None"
  shows "hpa_run h z None = Some (if z then None else Some h)"
    and "semanticHPAEquals h g = Some b \<Longrightarrow> hpa_run h z (Some g) = Some (if b then if z then None else Some g else Some h)"
  by (auto simp: hpa_run_def HPA_Reconcile_def checkHPAExist_def hpa_server_def)

text \<open>
  C23. The HPA reconciler converges. Without scaling to zero one run leaves an HPA with the desired metrics and
  bounds. With scaling to zero two runs leave no HPA, whatever was there; one run does so exactly if
  there was none or one equal to the desired one, as a different one is updated, not deleted.
\<close>

theorem HPA_Reconcile_converges:
  assumes "hpa_MinReplicas h \<noteq> None" and "st = None \<or> (\<exists>g. st = Some g \<and> hpa_MinReplicas g \<noteq> None)"
  shows "(\<exists>g. hpa_run h False st = Some (Some g) \<and> semanticHPAEquals h g = Some True) \<and>
     (\<exists>st'. hpa_run h True st = Some st' \<and> hpa_run h True st' = Some None \<and>
        (st' = None \<longleftrightarrow> (\<forall>g. st = Some g \<longrightarrow> semanticHPAEquals h g = Some True)))"
proof (cases st)
  case None
  then show ?thesis using hpa_run_eq(1)[OF assms(1)] semanticHPAEquals_refl[OF assms(1)] by auto
next
  case (Some g)
  then obtain b where b: "semanticHPAEquals h g = Some b" using semanticHPAEquals_total assms by blast
  note r = semanticHPAEquals_refl[OF assms(1)]
  show ?thesis
    using Some b r hpa_run_eq(1)[OF assms(1)] hpa_run_eq(2)[OF assms(1) b] hpa_run_eq(2)[OF assms(1) r] by (cases b) auto
qed

theorem HPA_Reconcile_converges_witness:
  "let h = createHPA sample_ka concat zero_Meta ''d'' ''n''; g = h\<lparr>hpa_MaxReplicas := 7\<rparr>
   in hpa_run h True (Some g) = Some (Some h) \<and> hpa_run h True (Some h) = Some None"
proof -
  let ?h = "createHPA sample_ka concat zero_Meta ''d'' ''n''"
  have m: "hpa_MinReplicas ?h = Some 1" "hpa_MaxReplicas ?h = 1"
    by (simp_all add: createHPA_def Let_def int_annotation_def sample_ka_def zero_Meta_def)
  then have e: "semanticHPAEquals ?h (?h\<lparr>hpa_MaxReplicas := 7\<rparr>) = Some False" by (simp add: semanticHPAEquals_def)
  show ?thesis
    using HPA_Reconcile_converges[of ?h "Some (?h\<lparr>hpa_MaxReplicas := 7\<rparr>)"] hpa_run_eq(2)[OF _ e, of True] m e by auto
qed

end
