(* ===== verification/Endpoints.thy ===== *)
theory Endpoints
  imports Runtime_Types
begin

text \<open>
  Endpoint strings of a runtime (controllers/modelmesh/endpoint.go and the endpoint helpers of util.go): a TCP
  port, \<open>port:8085\<close>, or a unix domain socket, \<open>unix:///sockets/s.sock\<close>, together with the Go library functions they
  use (\<open>strings.Replace\<close>, \<open>strings.SplitAfter\<close>, \<open>filepath.Dir\<close>, a match of \<open>^port:[0-9]+$\<close>).
\<close>

section \<open>Library functions\<close>

text \<open>\<open>strings.Replace(s, old, "", 1)\<close> for a non-empty \<open>old\<close>.\<close>

fun remove_first :: "string \<Rightarrow> string \<Rightarrow> string" where
  "remove_first old [] = []"
| "remove_first old (c # s) = (if HasPrefix (c # s) old then drop (length old) (c # s) else c # remove_first old s)"

text \<open>The second part of \<open>strings.SplitAfter(p + s, p)\<close>: up to and including the next occurrence of \<open>p\<close> in \<open>s\<close>.\<close>

fun up_to_after :: "string \<Rightarrow> string \<Rightarrow> string" where
  "up_to_after p [] = []"
| "up_to_after p (c # s) = (if HasPrefix (c # s) p then p else c # up_to_after p s)"

text \<open>\<open>filepath.Clean\<close> on a Unix path: the segments that stay, last first.\<close>

definition clean_step :: "bool \<Rightarrow> string \<Rightarrow> string list \<Rightarrow> string list" where
  "clean_step rooted w out =
     (if w = [] \<or> w = ''.'' then out
      else if w = ''..'' then
        (case out of
           [] \<Rightarrow> if rooted then [] else [w]
         | v # vs \<Rightarrow> if v = ''..'' then w # out else vs)
      else w # out)"

definition filepath_Clean :: "string \<Rightarrow> string" where
  "filepath_Clean path =
     (let rooted = HasPrefix path ''/'';
          out = join_with ''/'' (rev (fold (clean_step rooted) (split_on (CHR ''/'') path) []))
      in if rooted then CHR ''/'' # out else if out = [] then ''.'' else out)"

definition filepath_Dir :: "string \<Rightarrow> string" where
  "filepath_Dir path =
     filepath_Clean (case last_index path ''/'' of None \<Rightarrow> [] | Some i \<Rightarrow> take (i + 1) path)"

definition is_port_endpoint :: "string \<Rightarrow> bool" where
  "is_port_endpoint s \<longleftrightarrow> HasPrefix s ''port:'' \<and> drop 5 s \<noteq> [] \<and> list_all is_digit (drop 5 s)"

section \<open>Endpoints\<close>

datatype Endpoint = TCPEndpoint string | UnixEndpoint string string

text \<open>\<open>ParseEndpoint\<close> never returns an error.\<close>

definition socket_path :: "string \<Rightarrow> string" where
  "socket_path s = remove_first ''unix:'' (remove_first ''unix://'' s)"

definition ParseEndpoint :: "string \<Rightarrow> Endpoint" where
  "ParseEndpoint s =
     (if HasPrefix s ''port:'' then TCPEndpoint (up_to_after ''port:'' (drop 5 s))
      else UnixEndpoint (socket_path s) (filepath_Dir (socket_path s)))"

definition ValidateEndpoint :: "string \<Rightarrow> string option" where
  "ValidateEndpoint s = (if is_port_endpoint s \<or> HasPrefix s ''unix:'' then Some s else None)"

definition runtime_endpoints :: "ServingRuntimeSpec \<Rightarrow> string list" where
  "runtime_endpoints rts =
     (case sr_GrpcDataEndpoint rts of None \<Rightarrow> [] | Some e \<Rightarrow> [e]) @
     (case sr_GrpcMultiModelManagementEndpoint rts of None \<Rightarrow> [] | Some e \<Rightarrow> [e])"

definition unixDomainSockets :: "ServingRuntimeSpec \<Rightarrow> bool \<times> string list \<times> string list" where
  "unixDomainSockets rts =
     (let eps = filter (\<lambda>e. HasPrefix e ''unix:'') (runtime_endpoints rts)
      in if eps \<noteq> [] then (True, eps, map (\<lambda>e. filepath_Dir (socket_path e)) eps) else (False, [], []))"

definition useStorageHelper :: "ServingRuntimeSpec \<Rightarrow> bool" where
  "useStorageHelper rts \<longleftrightarrow> sr_BuiltInAdapter rts = None \<and> sr_StorageHelperDisabled rts \<noteq> Some True"

definition findParentPath :: "string \<Rightarrow> bool \<times> string" where
  "findParentPath s = (case ParseEndpoint s of TCPEndpoint _ \<Rightarrow> (False, []) | UnixEndpoint _ dir \<Rightarrow> (True, dir))"

definition mountPoint :: "ServingRuntimeSpec \<Rightarrow> bool \<times> string" where
  "mountPoint rts =
     (case sr_GrpcDataEndpoint rts of
        Some e \<Rightarrow> findParentPath e
      | None \<Rightarrow>
          (case sr_GrpcMultiModelManagementEndpoint rts of
             Some e \<Rightarrow> findParentPath e
           | None \<Rightarrow> (False, [])))"

text \<open>
  The loop of \<open>addDomainSocketMount\<close> (runtime.go) over the endpoints: the mount point so far (the empty string:
  none), \<open>None\<close> for more than one socket directory.
\<close>

definition socket_mount_step :: "string \<Rightarrow> bool \<times> string \<Rightarrow> (bool \<times> string) option" where
  "socket_mount_step s = (\<lambda>(requires, mp).
     case ParseEndpoint s of
       TCPEndpoint _ \<Rightarrow> Some (requires, mp)
     | UnixEndpoint _ dir \<Rightarrow> if mp \<noteq> [] \<and> mp \<noteq> dir then None else Some (True, dir))"

definition socket_mount :: "ServingRuntimeSpec \<Rightarrow> (bool \<times> string) option" where
  "socket_mount rts = fold (\<lambda>s r. Option.bind r (socket_mount_step s)) (runtime_endpoints rts) (Some (False, []))"

section \<open>Lemmas\<close>

lemma filepath_Dir_nonempty: "filepath_Dir p \<noteq> []"
  by (simp add: filepath_Dir_def filepath_Clean_def Let_def)

lemma findParentPath_unix: "findParentPath s = (True, dir) \<longleftrightarrow> \<not> HasPrefix s ''port:'' \<and> dir = filepath_Dir (socket_path s)"
  by (auto simp: findParentPath_def ParseEndpoint_def)

lemma findParentPath_tcp: "findParentPath s = (False, dir) \<longleftrightarrow> HasPrefix s ''port:'' \<and> dir = []"
  by (auto simp: findParentPath_def ParseEndpoint_def)

text \<open>
  C19. Whenever a runtime has a data endpoint on a socket, or no data endpoint at all, the model-mesh
  container is given the same socket directory as the runtime's containers. When the data endpoint is a TCP port and the
  management endpoint a socket, the runtime's containers mount the socket's directory and the
  model-mesh container does not.
\<close>

theorem socket_mounts_agree:
  assumes "socket_mount rts = Some (requires, dir)"
  shows "((\<exists>e. sr_GrpcDataEndpoint rts = Some e \<and> \<not> HasPrefix e ''port:'') \<or> sr_GrpcDataEndpoint rts = None \<longrightarrow>
        mountPoint rts = (requires, dir)) \<and>
     ((\<exists>e m. sr_GrpcDataEndpoint rts = Some e \<and> HasPrefix e ''port:'' \<and>
         sr_GrpcMultiModelManagementEndpoint rts = Some m \<and> \<not> HasPrefix m ''port:'') \<longrightarrow>
        requires \<and> \<not> fst (mountPoint rts))"
  using assms filepath_Dir_nonempty
  by (cases "sr_GrpcDataEndpoint rts"; cases "sr_GrpcMultiModelManagementEndpoint rts")
    (auto simp: socket_mount_def runtime_endpoints_def socket_mount_step_def ParseEndpoint_def mountPoint_def findParentPath_def
      split: if_splits)

theorem socket_mounts_agree_witness:
  "let rts = zero_RuntimeSpec\<lparr>sr_GrpcDataEndpoint := Some ''port:8001'', sr_GrpcMultiModelManagementEndpoint := Some ''unix:///s/m.sock''\<rparr>
   in socket_mount rts = Some (True, ''/s'') \<and> \<not> fst (mountPoint rts)"
proof -
  let ?rts = "zero_RuntimeSpec\<lparr>sr_GrpcDataEndpoint := Some ''port:8001'', sr_GrpcMultiModelManagementEndpoint := Some ''unix:///s/m.sock''\<rparr>"
  have s: "socket_mount ?rts = Some (True, ''/s'')" by code_simp
  show ?thesis using s socket_mounts_agree[OF s] by (simp add: zero_RuntimeSpec_def HasPrefix_def)
qed

end
