(* ===== verification/Go_Slices.thy ===== *)
theory Go_Slices
  imports Runtime_Types
begin

text \<open>
  Go slices of volume mounts with their backing arrays. A slice is an array in the store and a length; its capacity is the
  length of the array. \<open>append\<close> writes into the array while the capacity is large enough, which another slice of
  the same array sees, and copies into a new array otherwise. How much a new array is larger than
  needed is left open by the language: \<open>grow\<close>, from the old capacity and the length needed.
\<close>

type_synonym vm_store = "VolumeMount list list"

record vm_slice =
  sl_array :: nat
  sl_len :: nat

definition zero_VolumeMount :: VolumeMount where
  "zero_VolumeMount = \<lparr>vm_Name = [], vm_ReadOnly = False, vm_MountPath = [], vm_SubPath = []\<rparr>"

definition slice_read :: "vm_store \<Rightarrow> vm_slice \<Rightarrow> VolumeMount list" where
  "slice_read st s = take (sl_len s) (st ! sl_array s)"

definition slice_new :: "vm_store \<Rightarrow> VolumeMount list \<Rightarrow> vm_store \<times> vm_slice" where
  "slice_new st xs = (st @ [xs], \<lparr>sl_array = length st, sl_len = length xs\<rparr>)"

definition slice_append ::
  "(nat \<Rightarrow> nat \<Rightarrow> nat) \<Rightarrow> vm_store \<Rightarrow> vm_slice \<Rightarrow> VolumeMount list \<Rightarrow> vm_store \<times> vm_slice" where
  "slice_append grow st s xs =
     (let arr = st ! sl_array s; n = sl_len s; m = n + length xs
      in if m \<le> length arr then (st[sl_array s := take n arr @ xs @ drop m arr], s\<lparr>sl_len := m\<rparr>)
         else (st @ [take n arr @ xs @ replicate (grow (length arr) m - m) zero_VolumeMount], \<lparr>sl_array = length st, sl_len = m\<rparr>))"

text \<open>The growth of Go's runtime for small slices: twice the old capacity, or the length needed if that is more.\<close>

definition go_grow :: "nat \<Rightarrow> nat \<Rightarrow> nat" where
  "go_grow cap needed = max (2 * cap) needed"

definition slice_ok :: "vm_store \<Rightarrow> vm_slice \<Rightarrow> bool" where
  "slice_ok st s \<longleftrightarrow> sl_array s < length st \<and> sl_len s \<le> length (st ! sl_array s)"

section \<open>Lemmas\<close>

lemma slice_append_ok:
  assumes "slice_ok st s" and "slice_append grow st s xs = (st', s')"
  shows "slice_ok st' s'" and "slice_read st' s' = slice_read st s @ xs" and "length st \<le> length st'" and "sl_len s' = sl_len s + length xs"
  using assms by (auto simp: slice_ok_def slice_read_def slice_append_def Let_def nth_append split: if_splits)

text \<open>Appending keeps the part of every slice that does not reach beyond the slice appended to.\<close>

lemma slice_append_keeps:
  assumes "slice_ok st s" "slice_ok st t" and "slice_append grow st s xs = (st', s')"
    and "sl_array t \<noteq> sl_array s \<or> sl_len t \<le> sl_len s"
  shows "slice_ok st' t" and "slice_read st' t = slice_read st t"
  using assms by (auto simp: slice_ok_def slice_read_def slice_append_def Let_def nth_append nth_list_update split: if_splits)

text \<open>A full slice is never written in place: what is appended to it is not shared.\<close>

lemma slice_append_full:
  assumes "slice_ok st s" and "sl_len s = length (st ! sl_array s)" and "slice_append grow st s xs = (st', s')"
  shows "xs \<noteq> [] \<Longrightarrow> sl_array s' = length st" and "take (length st) st' = st"
  using assms by (auto simp: slice_ok_def slice_append_def Let_def split: if_splits)

text \<open>Appending changes another slice at most by writing values of its own into it.\<close>

lemma slice_append_others:
  assumes "slice_ok st s" "slice_ok st t" and "slice_append grow st s xs = (st', s')"
  shows "slice_ok st' t" and "set (slice_read st' t) \<subseteq> set (slice_read st t) \<union> set xs"
proof -
  let ?arr = "st ! sl_array s" and ?m = "sl_len s + length xs"
  have n: "sl_len s \<le> length ?arr" using assms(1) by (simp add: slice_ok_def)
  have cell: "take k (take (sl_len s) ?arr @ xs @ drop ?m ?arr) ! i \<in> set (take k ?arr) \<union> set xs"
    if i: "i < k" "k \<le> length ?arr" "?m \<le> length ?arr" for i k
  proof -
    consider "i < sl_len s" | "sl_len s \<le> i" "i < ?m" | "?m \<le> i" by linarith
    then show ?thesis
    proof cases
      case 2
      then have "take k (take (sl_len s) ?arr @ xs @ drop ?m ?arr) ! i = xs ! (i - sl_len s)" using i n by (auto simp: nth_append)
      then show ?thesis using 2 by simp
    next
      case 3
      then have "take k (take (sl_len s) ?arr @ xs @ drop ?m ?arr) ! i = take k ?arr ! i" using i n by (simp add: nth_append)
      then show ?thesis using i by (metis Un_iff length_take min.absorb2 nth_mem)
    qed (use i n in \<open>auto simp: nth_append in_set_conv_nth\<close>)
  qed
  show "slice_ok st' t"
    using assms by (auto simp: slice_ok_def slice_append_def Let_def nth_append nth_list_update split: if_splits)
  show "set (slice_read st' t) \<subseteq> set (slice_read st t) \<union> set xs"
  proof (cases "?m \<le> length ?arr \<and> sl_array t = sl_array s")
    case True
    have "set (take k (take (sl_len s) ?arr @ xs @ drop ?m ?arr)) \<subseteq> set (take k ?arr) \<union> set xs" if "k \<le> length ?arr" for k
    proof
      fix x assume "x \<in> set (take k (take (sl_len s) ?arr @ xs @ drop ?m ?arr))"
      then obtain i where "i < length (take k (take (sl_len s) ?arr @ xs @ drop ?m ?arr))"
        "x = take k (take (sl_len s) ?arr @ xs @ drop ?m ?arr) ! i" by (metis in_set_conv_nth)
      moreover from this(1) have "i < k" by (metis length_take less_le_trans min.cobounded2)
      ultimately show "x \<in> set (take k ?arr) \<union> set xs" using cell that True by blast
    qed
    moreover have "slice_read st' t = take (sl_len t) (take (sl_len s) ?arr @ xs @ drop ?m ?arr)" "slice_read st t = take (sl_len t) ?arr"
      "sl_len t \<le> length ?arr"
      using True assms by (auto simp: slice_read_def slice_append_def slice_ok_def Let_def simp del: take_append)
    ultimately show ?thesis by (simp del: take_append set_append)
  next
    case False
    then show ?thesis using assms by (auto simp: slice_read_def slice_append_def slice_ok_def Let_def nth_append split: if_splits)
  qed
qed

end
