(* ===== verification/Mesh_Deployment.thy ===== *)
theory Mesh_Deployment
  imports Endpoints Go_Slices
begin

text \<open>
  The Deployment of a serving runtime (controllers/modelmesh: modelmesh.go, runtime.go, util.go, constraints.go,
  etcd.go, proxy.go, puller.go, tls.go). \<open>render_deployment\<close> is the rendered template
  config/internal/base/deployment.yaml.tmpl, each transformation is a function on the Deployment, and \<open>Apply\<close> composes
  them in the order of the source. A result is \<open>None\<close> for a panic (a nil dereference), \<open>Inl\<close> for a returned error.
  The code outside the repository is the record \<open>deploy_env\<close>: the protocol names and \<open>utils.Union\<close> of
  kserve, the API server's answers, the growth of slices.
\<close>

section \<open>Data\<close>

record KDeployment =
  kd_Name :: string
  kd_Labels :: "(string, string) gomap"
  kd_Replicas :: int
  kd_Annotations :: "(string, string) gomap"
  kd_PodLabels :: "(string, string) gomap"
  kd_ServiceAccountName :: string
  kd_Containers :: "Container list"
  kd_Volumes :: "Volume list"
  kd_NodeSelector :: "(string, string) gomap"
  kd_Tolerations :: "string list"
  kd_Affinity :: "Affinity option"
  kd_ImagePullSecrets :: "string list"
  kd_TerminationGracePeriodSeconds :: "int option"

record Deployment =
  md_ServiceName :: string
  md_ServicePort :: u16
  md_Name :: string
  md_Namespace :: string
  md_OwnerAnnotations :: "(string, string) gomap"
  md_SRSpec :: ServingRuntimeSpec
  md_DefaultVModelOwner :: string
  md_Metrics :: bool
  md_PrometheusPort :: u16
  md_PrometheusScheme :: string
  md_PayloadProcessors :: string
  md_ModelMeshImage :: string
  md_ModelMeshResources :: ResourceRequirements
  md_RESTProxyEnabled :: bool
  md_RESTProxySkipVerify :: bool
  md_RESTProxyImage :: string
  md_RESTProxyResources :: ResourceRequirements
  md_RESTProxyPort :: u16
  md_PVCs :: "string list"
  md_ModelMeshAdditionalEnvVars :: "EnvVar list"
  md_PullerImage :: string
  md_PullerImageCommand :: "string list"
  md_PullerResources :: ResourceRequirements
  md_Replicas :: u16
  md_Port :: u16
  md_TLSSecretName :: string
  md_TLSClientAuth :: string
  md_EtcdSecretName :: string
  md_ServiceAccountName :: string
  md_GrpcMaxMessageSize :: int
  md_AnnotationsMap :: "(string, string) gomap"
  md_LabelsMap :: "(string, string) gomap"
  md_ImagePullSecrets :: "string list"
  md_EnableAccessLogging :: bool

datatype transform_error =
    NoMeshContainer
  | CannotFindContainer string
  | MultipleSockets
  | BadAdapterEndpoint string
  | InvalidEndpoint string
  | TLSSecretUnavailable string api_error
  | ConfigMapUnavailable string api_error

type_synonym 'a tr = "(transform_error + 'a) option"

definition tr_bind :: "'a tr \<Rightarrow> ('a \<Rightarrow> 'b tr) \<Rightarrow> 'b tr" where
  "tr_bind m f = (case m of None \<Rightarrow> None | Some (Inl e) \<Rightarrow> Some (Inl e) | Some (Inr a) \<Rightarrow> f a)"

abbreviation tr_ok :: "'a \<Rightarrow> 'a tr" where
  "tr_ok a \<equiv> Some (Inr a)"

record secret_view =
  sv_Name :: string
  sv_Keys :: "string list"

record deploy_env =
  de_ks :: ks_protocols
  de_Union :: "(string, string) gomap list \<Rightarrow> (string, string) gomap"
  de_StorageSecretName :: string
  de_GetSecret :: "NamespacedName \<Rightarrow> api_error + secret_view"
  de_GetConfigMap :: "NamespacedName \<Rightarrow> api_error option"
  de_grow :: "nat \<Rightarrow> nat \<Rightarrow> nat"

definition env_var :: "string \<Rightarrow> string \<Rightarrow> EnvVar" where
  "env_var name val = \<lparr>ev_Name = name, ev_Value = val, ev_ValueFrom = None\<rparr>"

definition mount :: "string \<Rightarrow> string \<Rightarrow> VolumeMount" where
  "mount name path = \<lparr>vm_Name = name, vm_ReadOnly = False, vm_MountPath = path, vm_SubPath = []\<rparr>"

definition ro_mount :: "string \<Rightarrow> string \<Rightarrow> VolumeMount" where
  "ro_mount name path = \<lparr>vm_Name = name, vm_ReadOnly = True, vm_MountPath = path, vm_SubPath = []\<rparr>"

definition u16_string :: "u16 \<Rightarrow> string" where
  "u16_string w = Itoa (uint w)"

definition FormatBool :: "bool \<Rightarrow> string" where
  "FormatBool b = (if b then ''true'' else ''false'')"

section \<open>The template\<close>

definition render_deployment :: "Deployment \<Rightarrow> KDeployment" where
  "render_deployment m =
     (let name = md_ServiceName m @ ''-'' @ md_Name m;
          labels = [(''modelmesh-service'', md_ServiceName m), (''app.kubernetes.io/instance'', ''modelmesh-controller''),
                    (''app.kubernetes.io/managed-by'', ''modelmesh-controller''), (''app.kubernetes.io/name'', ''modelmesh-controller''),
                    (''name'', name)]
      in \<lparr>kd_Name = name, kd_Labels = labels, kd_Replicas = uint (md_Replicas m),
          kd_Annotations = (if md_Metrics m then
             [(''prometheus.io/path'', ''/metrics''), (''prometheus.io/port'', u16_string (md_PrometheusPort m)),
              (''prometheus.io/scheme'', md_PrometheusScheme m), (''prometheus.io/scrape'', ''true'')] else []),
          kd_PodLabels = labels, kd_ServiceAccountName = md_ServiceAccountName m,
          kd_Containers = [zero_Container
            \<lparr>c_Name := ''mm'', c_Image := md_ModelMeshImage m,
             c_Ports := \<lparr>cp_Name = ''grpc'', cp_ContainerPort = uint (md_Port m)\<rparr> #
               (if md_Metrics m then [\<lparr>cp_Name = ''prometheus'', cp_ContainerPort = uint (md_PrometheusPort m)\<rparr>] else []),
             c_Env := [env_var ''MM_SERVICE_NAME'' (md_ServiceName m), env_var ''MM_SVC_GRPC_PORT'' (u16_string (md_Port m)),
               \<lparr>ev_Name = ''WKUBE_POD_NAME'', ev_Value = [], ev_ValueFrom = Some (OtherEnvSource ''metadata.name'')\<rparr>,
               \<lparr>ev_Name = ''WKUBE_POD_IPADDR'', ev_Value = [], ev_ValueFrom = Some (OtherEnvSource ''status.podIP'')\<rparr>,
               \<lparr>ev_Name = ''MM_LOCATION'', ev_Value = [], ev_ValueFrom = Some (OtherEnvSource ''status.hostIP'')\<rparr>,
               env_var ''KV_STORE'' ''etcd:model-mesh-etcd:2379'',
               env_var ''MM_METRICS'' (if md_Metrics m
                 then ''prometheus:port='' @ u16_string (md_PrometheusPort m) @ '';scheme='' @ md_PrometheusScheme m else ''disabled''),
               env_var ''SHUTDOWN_TIMEOUT_MS'' ''90000''],
             c_ReadinessProbe := Some ''httpGet /ready 8089'',
             c_Resources := md_ModelMeshResources m,
             c_Lifecycle := Some (OtherLifecycle ''exec /opt/kserve/mmesh/stop.sh wait''),
             c_SecurityContext := Some DropAll\<rparr>],
          kd_Volumes = [], kd_NodeSelector = [], kd_Tolerations = [], kd_Affinity = None, kd_ImagePullSecrets = [],
          kd_TerminationGracePeriodSeconds = Some 90\<rparr>)"

section \<open>Containers and environment variables (util.go)\<close>

fun find_index :: "('a \<Rightarrow> bool) \<Rightarrow> 'a list \<Rightarrow> nat option" where
  "find_index P [] = None"
| "find_index P (x # xs) = (if P x then Some 0 else map_option Suc (find_index P xs))"

definition findContainer :: "string \<Rightarrow> KDeployment \<Rightarrow> nat option" where
  "findContainer name d = find_index (\<lambda>c. c_Name c = name) (kd_Containers d)"

definition modify_container :: "nat \<Rightarrow> (Container \<Rightarrow> Container) \<Rightarrow> KDeployment \<Rightarrow> KDeployment" where
  "modify_container i f d = d\<lparr>kd_Containers := (kd_Containers d)[i := f (kd_Containers d ! i)]\<rparr>"

definition set_env :: "string \<Rightarrow> string \<Rightarrow> EnvVar list \<Rightarrow> EnvVar list" where
  "set_env variable val env =
     (case find_index (\<lambda>e. ev_Name e = variable) env of
        Some i \<Rightarrow> env[i := (env ! i)\<lparr>ev_Value := val\<rparr>]
      | None \<Rightarrow> env @ [env_var variable val])"

definition setEnvironmentVar :: "string \<Rightarrow> string \<Rightarrow> string \<Rightarrow> KDeployment \<Rightarrow> KDeployment tr" where
  "setEnvironmentVar container variable val d =
     (case findContainer container d of
        None \<Rightarrow> Some (Inl (CannotFindContainer container))
      | Some i \<Rightarrow> tr_ok (modify_container i (\<lambda>c. c\<lparr>c_Env := set_env variable val (c_Env c)\<rparr>) d))"

fun set_mm_env :: "(string \<times> string) list \<Rightarrow> KDeployment \<Rightarrow> KDeployment tr" where
  "set_mm_env [] d = tr_ok d"
| "set_mm_env ((k, v) # kvs) d = tr_bind (setEnvironmentVar ModelMeshContainerName k v d) (set_mm_env kvs)"

definition mergeImagePullSecrets :: "string list list \<Rightarrow> string list" where
  "mergeImagePullSecrets secrets = fold (\<lambda>v acc. if v \<in> set acc then acc else acc @ [v]) (concat secrets) []"

section \<open>Volumes and runtime containers (runtime.go)\<close>

definition syncGracePeriod :: "KDeployment \<Rightarrow> KDeployment tr" where
  "syncGracePeriod d =
     (case kd_TerminationGracePeriodSeconds d of
        None \<Rightarrow> tr_ok d
      | Some s \<Rightarrow> setEnvironmentVar ModelMeshContainerName ''SHUTDOWN_TIMEOUT_MS'' (Itoa (s * 1000)) d)"

text \<open>
  The product with 1.5 is computed in floating point and truncated; up to a total of \<open>2 ^ 51\<close> bytes (two
  pebibytes of memory limits) it is exact.
\<close>

definition calculateModelDirSize :: "ServingRuntimeSpec \<Rightarrow> int" where
  "calculateModelDirSize rts =
     (let total = sum_list (map (\<lambda>c. case gomap_get (res_Limits (c_Resources c)) ''memory'' of None \<Rightarrow> 0 | Some q \<Rightarrow> q) (sr_Containers rts))
      in 3 * quantity_Value total div 2)"

definition addVolumesToDeployment :: "deploy_env \<Rightarrow> Deployment \<Rightarrow> KDeployment \<Rightarrow> KDeployment tr" where
  "addVolumesToDeployment e m d =
     (let rts = md_SRSpec m
      in tr_ok (d\<lparr>kd_Volumes :=
        sr_Volumes rts @
        [\<lparr>vol_Name = ModelsDirVolume, vol_Source = EmptyDir (Some (calculateModelDirSize rts))\<rparr>] @
        (if fst (unixDomainSockets rts) then [\<lparr>vol_Name = SocketVolume, vol_Source = EmptyDir None\<rparr>] else []) @
        (if sr_BuiltInAdapter rts \<noteq> None \<or> useStorageHelper rts
         then [\<lparr>vol_Name = ConfigStorageMount, vol_Source = SecretSource (de_StorageSecretName e)\<rparr>] else []) @
        map (\<lambda>pvc. \<lparr>vol_Name = pvc, vol_Source = ClaimSource pvc True\<rparr>) (md_PVCs m)\<rparr>))"

definition ModelsDir :: string where "ModelsDir = ''/models''"

definition PVCRootDir :: string where "PVCRootDir = ''/pvc_mounts''"

definition preStop :: Lifecycle where
  "preStop = PreStopHTTP ''/prestop'' 8090"

text \<open>
  A container of the spec or the adapter, with the slice that holds its volume mounts; \<open>None\<close> for a container that was in
  the Deployment before, whose mounts are its own.
\<close>

type_synonym slot = "Container \<times> vm_slice option"

definition addDomainSocketMount ::
  "(nat \<Rightarrow> nat \<Rightarrow> nat) \<Rightarrow> ServingRuntimeSpec \<Rightarrow> vm_store \<Rightarrow> vm_slice \<Rightarrow> (vm_store \<times> vm_slice) option" where
  "addDomainSocketMount grow rts st s =
     (case socket_mount rts of
        None \<Rightarrow> None
      | Some (requires, dir) \<Rightarrow> Some (if requires then slice_append grow st s [mount SocketVolume dir] else (st, s)))"

definition put_slot :: "slot \<Rightarrow> slot list \<Rightarrow> slot list" where
  "put_slot x cs =
     (case find_index (\<lambda>y. c_Name (fst y) = c_Name (fst x)) cs of
        Some i \<Rightarrow> cs[i := x]
      | None \<Rightarrow> cs @ [x])"

definition add_runtime_container ::
  "(nat \<Rightarrow> nat \<Rightarrow> nat) \<Rightarrow> ServingRuntimeSpec \<Rightarrow> vm_slice \<Rightarrow> Container \<Rightarrow> vm_store \<times> slot list \<Rightarrow> (vm_store \<times> slot list) option" where
  "add_runtime_container grow rts volumeMounts cspec = (\<lambda>(st, cs).
     let cspec' = cspec\<lparr>c_SecurityContext := (case c_SecurityContext cspec of None \<Rightarrow> Some DropAll | Some sc \<Rightarrow> Some sc),
                        c_Lifecycle := Some preStop\<rparr>;
         (st1, s1) = slice_append grow st volumeMounts (c_VolumeMounts cspec)
     in map_option (\<lambda>(st2, s2). (st2, put_slot (cspec', Some s2) cs)) (addDomainSocketMount grow rts st1 s1))"

fun add_runtime_containers ::
  "(nat \<Rightarrow> nat \<Rightarrow> nat) \<Rightarrow> ServingRuntimeSpec \<Rightarrow> vm_slice \<Rightarrow> Container list \<Rightarrow> vm_store \<times> slot list \<Rightarrow> (vm_store \<times> slot list) option" where
  "add_runtime_containers grow rts vms [] r = Some r"
| "add_runtime_containers grow rts vms (c # cs) r = Option.bind (add_runtime_container grow rts vms c r) (add_runtime_containers grow rts vms cs)"

fun append_mounts :: "(nat \<Rightarrow> nat \<Rightarrow> nat) \<Rightarrow> VolumeMount list \<Rightarrow> vm_store \<times> vm_slice \<Rightarrow> vm_store \<times> vm_slice" where
  "append_mounts grow [] r = r"
| "append_mounts grow (v # vs) r = append_mounts grow vs (slice_append grow (fst r) (snd r) [v])"

definition merge_env :: "EnvVar list \<Rightarrow> EnvVar list \<Rightarrow> EnvVar list" where
  "merge_env overrides env =
     fold (\<lambda>o' acc. case find_index (\<lambda>e. ev_Name e = ev_Name o') acc of Some i \<Rightarrow> acc[i := o'] | None \<Rightarrow> acc @ [o']) overrides env"

definition adapter_env :: "Deployment \<Rightarrow> BuiltInAdapter \<Rightarrow> string \<Rightarrow> string \<Rightarrow> string \<Rightarrow> EnvVar list" where
  "adapter_env m a adapterPort rtDataEndpoint runtimeVersion =
     merge_env (ba_Env a)
       ([env_var ''ADAPTER_PORT'' adapterPort,
         env_var ''RUNTIME_PORT'' (Itoa (ba_RuntimeManagementPort a)),
         env_var ''RUNTIME_DATA_ENDPOINT'' rtDataEndpoint,
         \<lparr>ev_Name = ''CONTAINER_MEM_REQ_BYTES'', ev_Value = [], ev_ValueFrom = Some (ResourceFieldRef (ba_ServerType a) ''requests.memory'')\<rparr>,
         env_var ''MEM_BUFFER_BYTES'' (Itoa (ba_MemBufferBytes a)),
         env_var ''LOADTIME_TIMEOUT'' (Itoa (ba_ModelLoadingTimeoutMillis a)),
         env_var ''USE_EMBEDDED_PULLER'' ''true'',
         env_var ''RUNTIME_VERSION'' runtimeVersion] @
        (case gomap_get (md_OwnerAnnotations m) ''maxLoadingConcurrency'' of
           None \<Rightarrow> [] | Some v \<Rightarrow> [env_var ''LOADING_CONCURRENCY'' v]) @
        (case gomap_get (md_OwnerAnnotations m) ''perModelConcurrencyLimit'' of
           None \<Rightarrow> [] | Some v \<Rightarrow> [env_var ''LIMIT_PER_MODEL_CONCURRENCY'' v]))"

text \<open>The part of an image name behind its first colon.\<close>

definition image_version :: "string \<Rightarrow> string" where
  "image_version img = tl (dropWhile (\<lambda>c. c \<noteq> CHR '':'') img)"

definition adapter_mounts ::
  "(nat \<Rightarrow> nat \<Rightarrow> nat) \<Rightarrow> ServingRuntimeSpec \<Rightarrow> vm_slice \<Rightarrow> vm_store \<Rightarrow> (vm_store \<times> vm_slice) option" where
  "adapter_mounts grow rts volumeMounts st =
     (let (st1, s1) = slice_append grow st volumeMounts [ro_mount ConfigStorageMount PullerConfigPath]
      in if sr_GrpcDataEndpoint rts \<noteq> None then addDomainSocketMount grow rts st1 s1 else Some (st1, s1))"

definition adapter_container :: "Deployment \<Rightarrow> BuiltInAdapter \<Rightarrow> slot list \<Rightarrow> string \<Rightarrow> Container" where
  "adapter_container m a cs adapterPort =
     (let rts = md_SRSpec m;
          runtimeAdapterName = ba_ServerType a @ ''-adapter'';
          runtimeVersion = (case find_index (\<lambda>y. c_Name (fst y) = ba_ServerType a) cs of
                              Some i \<Rightarrow> image_version (c_Image (fst (cs ! i))) | None \<Rightarrow> []);
          rtDataEndpoint = (case sr_GrpcDataEndpoint rts of
                              Some ep \<Rightarrow> ep | None \<Rightarrow> ''port:'' @ Itoa (ba_RuntimeManagementPort a))
      in zero_Container
           \<lparr>c_Name := runtimeAdapterName, c_Command := [''/opt/app/'' @ runtimeAdapterName], c_Image := md_PullerImage m,
            c_Lifecycle := Some preStop, c_SecurityContext := Some DropAll, c_Resources := md_PullerResources m,
            c_Env := adapter_env m a adapterPort rtDataEndpoint runtimeVersion\<rparr>)"

definition add_adapter ::
  "deploy_env \<Rightarrow> Deployment \<Rightarrow> BuiltInAdapter \<Rightarrow> vm_slice \<Rightarrow> vm_store \<times> slot list \<Rightarrow> transform_error + (vm_store \<times> slot list)" where
  "add_adapter e m a volumeMounts = (\<lambda>(st, cs).
     case adapter_mounts (de_grow e) (md_SRSpec m) volumeMounts st of
       None \<Rightarrow> Inl MultipleSockets
     | Some (st', s) \<Rightarrow>
         (case sr_GrpcMultiModelManagementEndpoint (md_SRSpec m) of
            None \<Rightarrow> Inr (st', cs @ [(adapter_container m a cs ''8085'', Some s)])
          | Some ep \<Rightarrow>
              if is_port_endpoint ep then Inr (st', cs @ [(adapter_container m a cs (TrimPrefix ep ''port:''), Some s)])
              else Inl (BadAdapterEndpoint ep)))"

definition read_slot :: "vm_store \<Rightarrow> slot \<Rightarrow> Container" where
  "read_slot st = (\<lambda>(c, s). case s of None \<Rightarrow> c | Some sl \<Rightarrow> c\<lparr>c_VolumeMounts := slice_read st sl\<rparr>)"

definition common_mounts :: "Deployment \<Rightarrow> vm_store \<times> vm_slice" where
  "common_mounts m = slice_new [] [mount ModelsDirVolume ModelsDir]"

definition pvc_mounts :: "Deployment \<Rightarrow> VolumeMount list" where
  "pvc_mounts m = map (\<lambda>pvc. ro_mount pvc (PVCRootDir @ ''/'' @ pvc)) (md_PVCs m)"

definition addRuntimeToDeployment :: "deploy_env \<Rightarrow> Deployment \<Rightarrow> KDeployment \<Rightarrow> KDeployment tr" where
  "addRuntimeToDeployment e m d =
     (let rts = md_SRSpec m;
          (st0, volumeMounts) = append_mounts (de_grow e) (pvc_mounts m) (common_mounts m);
          finish = (\<lambda>(st, cs). tr_ok (d\<lparr>kd_Containers := map (read_slot st) cs\<rparr>))
      in case add_runtime_containers (de_grow e) rts volumeMounts (sr_Containers rts) (st0, map (\<lambda>c. (c, None)) (kd_Containers d)) of
           None \<Rightarrow> Some (Inl MultipleSockets)
         | Some r \<Rightarrow>
             (case sr_BuiltInAdapter rts of
                None \<Rightarrow> finish r
              | Some a \<Rightarrow>
                  (case add_adapter e m a volumeMounts r of
                     Inl err \<Rightarrow> Some (Inl err)
                   | Inr r' \<Rightarrow> finish r')))"

section \<open>Pod fields\<close>

definition archNodeSelector :: NodeSelectorTerm where
  "archNodeSelector = ArchTerm [''amd64'', ''arm64'', ''s390x'']"

definition pod_affinity :: "Affinity option \<Rightarrow> Affinity" where
  "pod_affinity a =
     (case a of
        None \<Rightarrow> \<lparr>aff_NodeAffinity = Some \<lparr>na_Required = Some [archNodeSelector], na_Preferred = []\<rparr>, aff_Rest = []\<rparr>
      | Some aff \<Rightarrow>
          aff\<lparr>aff_NodeAffinity := Some
            (case aff_NodeAffinity aff of
               None \<Rightarrow> \<lparr>na_Required = Some [archNodeSelector], na_Preferred = []\<rparr>
             | Some na \<Rightarrow>
                 na\<lparr>na_Required := Some
                   (case na_Required na of None \<Rightarrow> [archNodeSelector] | Some terms \<Rightarrow> terms @ [archNodeSelector])\<rparr>)\<rparr>)"

definition addPassThroughPodFieldsToDeployment :: "Deployment \<Rightarrow> KDeployment \<Rightarrow> KDeployment tr" where
  "addPassThroughPodFieldsToDeployment m d =
     (let rts = md_SRSpec m
      in tr_ok (d\<lparr>kd_NodeSelector := sr_NodeSelector rts, kd_Tolerations := sr_Tolerations rts,
                  kd_Affinity := Some (pod_affinity (sr_Affinity rts))\<rparr>))"

definition configureRuntimePodSpecAnnotations :: "deploy_env \<Rightarrow> Deployment \<Rightarrow> KDeployment \<Rightarrow> KDeployment tr" where
  "configureRuntimePodSpecAnnotations e m d =
     tr_ok (d\<lparr>kd_Annotations := de_Union e [kd_Annotations d, md_AnnotationsMap m, sr_Annotations (md_SRSpec m)]\<rparr>)"

definition configureRuntimePodSpecLabels :: "deploy_env \<Rightarrow> Deployment \<Rightarrow> KDeployment \<Rightarrow> KDeployment tr" where
  "configureRuntimePodSpecLabels e m d =
     tr_ok (d\<lparr>kd_PodLabels := de_Union e [kd_PodLabels d, md_LabelsMap m, sr_Labels (md_SRSpec m)]\<rparr>)"

definition configureRuntimePodSpecImagePullSecrets :: "Deployment \<Rightarrow> KDeployment \<Rightarrow> KDeployment tr" where
  "configureRuntimePodSpecImagePullSecrets m d =
     tr_ok (d\<lparr>kd_ImagePullSecrets :=
       mergeImagePullSecrets [kd_ImagePullSecrets d, md_ImagePullSecrets m, sr_ImagePullSecrets (md_SRSpec m)]\<rparr>)"

section \<open>The model-mesh container (modelmesh.go, constraints.go, etcd.go)\<close>

definition addMMDomainSocketMount :: "Deployment \<Rightarrow> KDeployment \<Rightarrow> KDeployment tr" where
  "addMMDomainSocketMount m d =
     (case findContainer ModelMeshContainerName d of
        None \<Rightarrow> Some (Inl NoMeshContainer)
      | Some i \<Rightarrow>
          (case mountPoint (md_SRSpec m) of
             (hasUnix, mp) \<Rightarrow>
               tr_ok (if hasUnix
                      then modify_container i (\<lambda>c. c\<lparr>c_VolumeMounts := c_VolumeMounts c @ [mount ''domain-socket'' mp]\<rparr>) d else d)))"

definition endpoint_env :: "string \<Rightarrow> string \<Rightarrow> string \<Rightarrow> string \<times> string" where
  "endpoint_env portVar pathVar ep =
     (case ParseEndpoint ep of TCPEndpoint port \<Rightarrow> (portVar, port) | UnixEndpoint path _ \<Rightarrow> (pathVar, path))"

definition ModelMeshEtcdPrefix :: string where "ModelMeshEtcdPrefix = ''mm''"

text \<open>The variables set before the management endpoint is read, that of the management endpoint, and those after it.\<close>

definition mm_env_first :: "Deployment \<Rightarrow> (string \<times> string) list" where
  "mm_env_first m =
     map (\<lambda>e. (ev_Name e, ev_Value e)) (md_ModelMeshAdditionalEnvVars m) @
     (case sr_GrpcDataEndpoint (md_SRSpec m) of
        None \<Rightarrow> []
      | Some ep \<Rightarrow> [endpoint_env ''INTERNAL_SERVING_GRPC_PORT'' ''INTERNAL_SERVING_GRPC_SOCKET_PATH'' ep])"

definition mm_env_management :: "Deployment \<Rightarrow> (string \<times> string) option" where
  "mm_env_management m =
     (if useStorageHelper (md_SRSpec m) then Some (''INTERNAL_GRPC_PORT'', Itoa PullerPortNumber)
      else map_option (endpoint_env ''INTERNAL_GRPC_PORT'' ''INTERNAL_GRPC_SOCKET_PATH'')
             (sr_GrpcMultiModelManagementEndpoint (md_SRSpec m)))"

definition mm_env_last :: "Deployment \<Rightarrow> (string \<times> string) list" where
  "mm_env_last m =
     (if md_EnableAccessLogging m then [(''MM_LOG_EACH_INVOKE'', ''true'')] else []) @
     (if md_GrpcMaxMessageSize m > 0 then [(''MM_SVC_GRPC_MAX_MSG_SIZE'', Itoa (md_GrpcMaxMessageSize m))] else []) @
     [(''MM_KVSTORE_PREFIX'', ModelMeshEtcdPrefix), (''MM_DEFAULT_VMODEL_OWNER'', md_DefaultVModelOwner m)] @
     (if md_PayloadProcessors m \<noteq> [] then [(''MM_PAYLOAD_PROCESSORS'', md_PayloadProcessors m)] else [])"

definition addMMEnvVars :: "Deployment \<Rightarrow> KDeployment \<Rightarrow> KDeployment tr" where
  "addMMEnvVars m d =
     tr_bind (set_mm_env (mm_env_first m) d) (\<lambda>d1.
       case mm_env_management m of
         None \<Rightarrow> None
       | Some kv \<Rightarrow> set_mm_env (kv # mm_env_last m) d1)"

definition constraints_container :: "string \<Rightarrow> Container \<Rightarrow> Container" where
  "constraints_container labelString c = c
     \<lparr>c_Env := c_Env c @ [env_var ''MM_LABELS'' labelString,
        env_var ''MM_TYPE_CONSTRAINTS_PATH'' ''/etc/watson/mmesh/config/type_constraints'',
        env_var ''MM_DATAPLANE_CONFIG_PATH'' ''/etc/watson/mmesh/config/dataplane_api_config''],
      c_VolumeMounts := c_VolumeMounts c @ [mount InternalConfigMapName ''/etc/watson/mmesh/config'']\<rparr>"

definition addModelTypeConstraints :: "deploy_env \<Rightarrow> Deployment \<Rightarrow> KDeployment \<Rightarrow> KDeployment tr" where
  "addModelTypeConstraints e m d =
     (case findContainer ModelMeshContainerName d of
        None \<Rightarrow> Some (Inl NoMeshContainer)
      | Some i \<Rightarrow>
          (let rts = md_SRSpec m;
               labelString = generateLabelsEnvVar (de_ks e) (sr_SupportedModelFormats rts) (sr_ProtocolVersions rts) (md_RESTProxyEnabled m) (md_Name m);
               d1 = modify_container i (constraints_container labelString) d
           in tr_ok (d1\<lparr>kd_Volumes := kd_Volumes d1 @
                [\<lparr>vol_Name = InternalConfigMapName, vol_Source = ConfigMapSource InternalConfigMapName\<rparr>]\<rparr>)))"

definition etcdMountPath :: string where "etcdMountPath = ''/opt/kserve/mmesh/etcd''"

definition etcd_container :: "Container \<Rightarrow> Container" where
  "etcd_container c = c
     \<lparr>c_Env := map (\<lambda>e. if ev_Name e = ''KV_STORE'' then e\<lparr>ev_Value := ''etcd:'' @ etcdMountPath @ ''/'' @ EtcdSecretKey\<rparr> else e) (c_Env c),
      c_VolumeMounts :=
        (let vms = map (\<lambda>v. if vm_Name v = EtcdVolume then v\<lparr>vm_ReadOnly := True, vm_MountPath := etcdMountPath\<rparr> else v) (c_VolumeMounts c)
         in if list_ex (\<lambda>v. vm_Name v = EtcdVolume) (c_VolumeMounts c) then vms else vms @ [ro_mount EtcdVolume etcdMountPath])\<rparr>"

text \<open>
  The loop over the volumes assigns to its own copy of each volume, so a volume of that name that is already there keeps its
  source.
\<close>

definition configureMMDeploymentForEtcdSecret :: "Deployment \<Rightarrow> KDeployment \<Rightarrow> KDeployment tr" where
  "configureMMDeploymentForEtcdSecret m d =
     (let d1 = (case findContainer ModelMeshContainerName d of None \<Rightarrow> d | Some i \<Rightarrow> modify_container i etcd_container d)
      in tr_ok (if list_ex (\<lambda>v. vol_Name v = EtcdVolume) (kd_Volumes d1) then d1
                else d1\<lparr>kd_Volumes := kd_Volumes d1 @ [\<lparr>vol_Name = EtcdVolume, vol_Source = SecretSource (md_EtcdSecretName m)\<rparr>]\<rparr>))"

definition addRESTProxyToDeployment :: "Deployment \<Rightarrow> KDeployment \<Rightarrow> KDeployment tr" where
  "addRESTProxyToDeployment m d =
     tr_ok (if md_RESTProxyEnabled m then
       d\<lparr>kd_Containers := kd_Containers d @ [zero_Container
          \<lparr>c_Image := md_RESTProxyImage m, c_Name := RESTProxyContainerName,
           c_Env := [env_var ''REST_PROXY_LISTEN_PORT'' (u16_string (md_RESTProxyPort m)),
             env_var ''REST_PROXY_GRPC_PORT'' (u16_string (md_ServicePort m)),
             env_var ''REST_PROXY_USE_TLS'' (FormatBool (md_TLSSecretName m \<noteq> [])),
             env_var ''REST_PROXY_GRPC_MAX_MSG_SIZE_BYTES'' (Itoa (md_GrpcMaxMessageSize m)),
             env_var ''REST_PROXY_SKIP_VERIFY'' (FormatBool (md_RESTProxySkipVerify m))],
           c_Ports := [\<lparr>cp_Name = ''http'', cp_ContainerPort = uint (md_RESTProxyPort m)\<rparr>],
           c_Resources := md_RESTProxyResources m\<rparr>]\<rparr>
      else d)"

definition ensureMMContainerIsLast :: "KDeployment \<Rightarrow> KDeployment tr" where
  "ensureMMContainerIsLast d =
     tr_ok (case findContainer ModelMeshContainerName d of
        None \<Rightarrow> d
      | Some i \<Rightarrow>
          (let cs = kd_Containers d; last' = length cs - 1
           in if i \<noteq> last' then d\<lparr>kd_Containers := cs[last' := cs ! i, i := cs ! last']\<rparr> else d))"

section \<open>TLS (tls.go)\<close>

definition tlsSecretVolume :: string where "tlsSecretVolume = ''tls-certs''"

definition tlsSecretMountPath :: string where "tlsSecretMountPath = ''/opt/kserve/mmesh/tls''"

text \<open>\<open>strings.TrimSpace\<close> for ASCII white space.\<close>

definition is_space :: "char \<Rightarrow> bool" where
  "is_space c \<longleftrightarrow> (let n = of_char c :: nat in n = 32 \<or> 9 \<le> n \<and> n \<le> 13)"

definition TrimSpace :: "string \<Rightarrow> string" where
  "TrimSpace s = rev (dropWhile is_space (rev (dropWhile is_space s)))"

definition tls_env :: "string \<Rightarrow> bool \<Rightarrow> EnvVar list" where
  "tls_env clientAuth clientCertExists =
     [env_var ''MM_TLS_KEY_CERT_PATH'' (tlsSecretMountPath @ ''/tls.crt''),
      env_var ''MM_TLS_PRIVATE_KEY_PATH'' (tlsSecretMountPath @ ''/tls.key'')] @
     (if clientAuth \<noteq> [] then
        [env_var ''MM_TLS_CLIENT_AUTH'' clientAuth,
         env_var ''MM_TLS_TRUST_CERT_PATH'' (tlsSecretMountPath @ ''/tls.crt'' @
           (if clientCertExists then '','' @ tlsSecretMountPath @ ''/ca.crt'' else []))]
      else [])"

definition tls_mounts :: "VolumeMount list \<Rightarrow> VolumeMount list" where
  "tls_mounts vms =
     (case find_index (\<lambda>v. vm_Name v = tlsSecretVolume) vms of
        Some i \<Rightarrow> vms[i := (vms ! i)\<lparr>vm_ReadOnly := True, vm_MountPath := tlsSecretMountPath\<rparr>]
      | None \<Rightarrow> vms @ [ro_mount tlsSecretVolume tlsSecretMountPath])"

definition tls_volumes :: "string \<Rightarrow> Volume list \<Rightarrow> Volume list" where
  "tls_volumes secretName vols =
     (case find_index (\<lambda>v. vol_Name v = tlsSecretVolume) vols of
        Some i \<Rightarrow> vols[i := (vols ! i)\<lparr>vol_Source := SecretSource secretName\<rparr>]
      | None \<Rightarrow> vols @ [\<lparr>vol_Name = tlsSecretVolume, vol_Source = SecretSource secretName\<rparr>])"

definition tls_container :: "Deployment \<Rightarrow> string \<Rightarrow> bool \<Rightarrow> Container \<Rightarrow> Container" where
  "tls_container m clientAuth clientCertExists c =
     (if c_Name c = ModelMeshContainerName \<or> md_RESTProxyEnabled m \<and> c_Name c = RESTProxyContainerName
      then c\<lparr>c_Env := c_Env c @ tls_env clientAuth clientCertExists, c_VolumeMounts := tls_mounts (c_VolumeMounts c)\<rparr>
      else c)"

definition configureMMDeploymentForTLSSecret :: "deploy_env \<Rightarrow> Deployment \<Rightarrow> KDeployment \<Rightarrow> KDeployment tr" where
  "configureMMDeploymentForTLSSecret e m d =
     (if md_TLSSecretName m = [] then tr_ok d
      else (case de_GetSecret e \<lparr>nn_Namespace = md_Namespace m, nn_Name = md_TLSSecretName m\<rparr> of
              Inl err \<Rightarrow> Some (Inl (TLSSecretUnavailable (md_TLSSecretName m) err))
            | Inr tlsSecret \<Rightarrow>
                tr_ok (d\<lparr>kd_Containers := map (tls_container m (TrimSpace (md_TLSClientAuth m)) (''ca.crt'' \<in> set (sv_Keys tlsSecret))) (kd_Containers d),
                         kd_Volumes := tls_volumes (sv_Name tlsSecret) (kd_Volumes d)\<rparr>)))"

section \<open>The puller (puller.go)\<close>

definition puller_container :: "Deployment \<Rightarrow> string \<Rightarrow> Container" where
  "puller_container m endpoint =
     zero_Container
       \<lparr>c_Env := [env_var ''PORT'' (Itoa PullerPortNumber), env_var ''MODEL_SERVER_ENDPOINT'' endpoint,
          env_var ''ROOT_MODEL_DIR'' PullerModelPath, env_var ''STORAGE_CONFIG_DIR'' PullerConfigPath,
          env_var ''PVC_MOUNTS_DIR'' DefaultPVCMountsDir],
        c_Image := md_PullerImage m, c_Name := PullerContainerName, c_Command := md_PullerImageCommand m,
        c_Ports := [\<lparr>cp_Name = ''grpc'', cp_ContainerPort = PullerPortNumber\<rparr>],
        c_Resources := md_PullerResources m,
        c_VolumeMounts :=
          [mount ModelsDirVolume PullerModelPath, ro_mount ConfigStorageMount PullerConfigPath] @
          (case ParseEndpoint endpoint of UnixEndpoint _ dir \<Rightarrow> [mount ''domain-socket'' dir] | TCPEndpoint _ \<Rightarrow> []) @
          map (\<lambda>pvc. ro_mount pvc (DefaultPVCMountsDir @ ''/'' @ pvc)) (md_PVCs m)\<rparr>"

definition addPullerSidecar :: "Deployment \<Rightarrow> KDeployment \<Rightarrow> KDeployment tr" where
  "addPullerSidecar m d =
     (case sr_GrpcMultiModelManagementEndpoint (md_SRSpec m) of
        None \<Rightarrow> None
      | Some ep \<Rightarrow>
          (case ValidateEndpoint ep of
             None \<Rightarrow> Some (Inl (InvalidEndpoint ep))
           | Some endpoint \<Rightarrow> tr_ok (d\<lparr>kd_Containers := kd_Containers d @ [puller_container m endpoint]\<rparr>)))"

section \<open>Apply\<close>

fun transform :: "KDeployment \<Rightarrow> (KDeployment \<Rightarrow> KDeployment tr) list \<Rightarrow> KDeployment tr" where
  "transform d [] = tr_ok d"
| "transform d (f # fs) = tr_bind (f d) (\<lambda>d'. transform d' fs)"

definition mesh_transforms :: "deploy_env \<Rightarrow> Deployment \<Rightarrow> (KDeployment \<Rightarrow> KDeployment tr) list" where
  "mesh_transforms e m =
     [addVolumesToDeployment e m,
      addMMDomainSocketMount m,
      addPassThroughPodFieldsToDeployment m,
      addRuntimeToDeployment e m,
      syncGracePeriod,
      addMMEnvVars m,
      addModelTypeConstraints e m,
      configureMMDeploymentForEtcdSecret m,
      addRESTProxyToDeployment m,
      configureMMDeploymentForTLSSecret e m,
      configureRuntimePodSpecAnnotations e m,
      configureRuntimePodSpecLabels e m,
      ensureMMContainerIsLast,
      configureRuntimePodSpecImagePullSecrets m]"

definition setConfigMap :: "deploy_env \<Rightarrow> Deployment \<Rightarrow> transform_error option" where
  "setConfigMap e m =
     (case gomap_get (md_OwnerAnnotations m) ''productConfig'' of
        None \<Rightarrow> None
      | Some configMap \<Rightarrow>
          if configMap = [] then None
          else map_option (ConfigMapUnavailable configMap)
                 (de_GetConfigMap e \<lparr>nn_Namespace = md_Namespace m, nn_Name = configMap\<rparr>))"

text \<open>The Deployment that \<open>Apply\<close> sends to the API server.\<close>

definition Apply_manifest :: "deploy_env \<Rightarrow> Deployment \<Rightarrow> KDeployment tr" where
  "Apply_manifest e m =
     (case setConfigMap e m of
        Some err \<Rightarrow> Some (Inl err)
      | None \<Rightarrow>
          tr_bind (transform (render_deployment m) (mesh_transforms e m)) (\<lambda>d.
            if useStorageHelper (md_SRSpec m) then addPullerSidecar m d else tr_ok d))"

end
