(* ===== verification/Deployment_Props.thy ===== *)
theory Deployment_Props
  imports Mesh_Deployment
begin

text \<open>
  Properties of the Deployment of a serving runtime: which containers it has and where the model-mesh container is,
  that every volume mount names a volume of the pod, and when the containers of a runtime have the volume mounts they are
  meant to have.
\<close>

section \<open>The transformations, one by one\<close>

lemma tr_bind_ok: "tr_bind m f = tr_ok b \<longleftrightarrow> (\<exists>a. m = tr_ok a \<and> f a = tr_ok b)"
  by (auto simp: tr_bind_def split: option.splits sum.splits)

lemma find_index_Some: "find_index P xs = Some i \<Longrightarrow> i < length xs \<and> P (xs ! i)"
  by (induction xs arbitrary: i) (auto split: if_splits)

lemma find_index_None: "find_index P xs = None \<longleftrightarrow> (\<forall>x\<in>set xs. \<not> P x)"
  by (induction xs) auto

abbreviation names :: "KDeployment \<Rightarrow> string list" where
  "names d \<equiv> map c_Name (kd_Containers d)"

abbreviation volume_names :: "KDeployment \<Rightarrow> string list" where
  "volume_names d \<equiv> map vol_Name (kd_Volumes d)"

definition mounts_declared :: "KDeployment \<Rightarrow> bool" where
  "mounts_declared d \<longleftrightarrow> (\<forall>c\<in>set (kd_Containers d). \<forall>v\<in>set (c_VolumeMounts c). vm_Name v \<in> set (volume_names d))"

text \<open>A change of one container that keeps its name.\<close>

lemma names_modify:
  assumes "\<And>c. c_Name (f c) = c_Name c"
  shows "names (modify_container i f d) = names d"
  by (cases "i < length (kd_Containers d)") (simp_all add: modify_container_def map_update assms map_update[symmetric] list_update_id)

lemma modify_container_simps [simp]:
  "kd_Volumes (modify_container i f d) = kd_Volumes d"
  "kd_TerminationGracePeriodSeconds (modify_container i f d) = kd_TerminationGracePeriodSeconds d"
  by (simp_all add: modify_container_def)

lemma containers_modify:
  assumes "c \<in> set (kd_Containers (modify_container i f d))" and "i < length (kd_Containers d)"
  shows "c \<in> set (kd_Containers d) \<or> (\<exists>c'\<in>set (kd_Containers d). c = f c')"
proof -
  have "c \<in> insert (f (kd_Containers d ! i)) (set (kd_Containers d))"
    using assms(1) set_update_subset_insert by (fastforce simp: modify_container_def)
  then show ?thesis using nth_mem[OF assms(2)] by blast
qed

text \<open>Mounts stay declared when a container gets mounts of volumes that are there and no volume goes.\<close>

lemma mounts_declared_modify:
  assumes "mounts_declared d" and "i < length (kd_Containers d)" and "set (volume_names d) \<subseteq> V"
    and "\<And>c v. v \<in> set (c_VolumeMounts (f c)) \<Longrightarrow> v \<in> set (c_VolumeMounts c) \<or> vm_Name v \<in> V"
    and "c \<in> set (kd_Containers (modify_container i f d))" and "v \<in> set (c_VolumeMounts c)"
  shows "vm_Name v \<in> V"
  using containers_modify[OF assms(5,2)]
proof (elim disjE bexE)
  assume "c \<in> set (kd_Containers d)"
  then show ?thesis using assms(1,3,6) unfolding mounts_declared_def by blast
next
  fix c' assume "c' \<in> set (kd_Containers d)" "c = f c'"
  then show ?thesis using assms(1,3,4,6) unfolding mounts_declared_def by blast
qed

lemma findContainer_Some:
  "findContainer name d = Some i \<Longrightarrow> i < length (kd_Containers d) \<and> c_Name (kd_Containers d ! i) = name"
  unfolding findContainer_def by (auto dest: find_index_Some)

lemma findContainer_None: "findContainer name d = None \<longleftrightarrow> name \<notin> set (names d)"
  unfolding findContainer_def by (auto simp: find_index_None)

lemma setEnvironmentVar_ok:
  assumes "setEnvironmentVar c k v d = tr_ok d'"
  shows "names d' = names d" "kd_Volumes d' = kd_Volumes d" "mounts_declared d \<Longrightarrow> mounts_declared d'"
proof -
  obtain i where i: "findContainer c d = Some i" "d' = modify_container i (\<lambda>c. c\<lparr>c_Env := set_env k v (c_Env c)\<rparr>) d"
    using assms by (auto simp: setEnvironmentVar_def split: option.splits)
  show "names d' = names d" "kd_Volumes d' = kd_Volumes d" unfolding i(2) by (simp_all add: names_modify)
  show "mounts_declared d'" if d: "mounts_declared d"
    using mounts_declared_modify[OF d _ subset_refl, of i "\<lambda>c. c\<lparr>c_Env := set_env k v (c_Env c)\<rparr>"] findContainer_Some[OF i(1)]
    unfolding mounts_declared_def i(2) by auto
qed

text \<open>What a transformation that only sets environment variables keeps.\<close>

definition keeps_shape :: "KDeployment \<Rightarrow> KDeployment \<Rightarrow> bool" where
  "keeps_shape d d' \<longleftrightarrow> names d' = names d \<and> kd_Volumes d' = kd_Volumes d \<and> (mounts_declared d \<longrightarrow> mounts_declared d')"

lemma keeps_shape_trans: "keeps_shape a b \<Longrightarrow> keeps_shape b c \<Longrightarrow> keeps_shape a c"
  by (auto simp: keeps_shape_def)

lemma set_mm_env_ok:
  assumes "set_mm_env kvs d = tr_ok d'"
  shows "keeps_shape d d'"
  using assms
proof (induction kvs d rule: set_mm_env.induct)
  case (2 k v kvs d)
  then obtain d1 where d1: "setEnvironmentVar ModelMeshContainerName k v d = tr_ok d1" "set_mm_env kvs d1 = tr_ok d'"
    by (auto simp: tr_bind_ok)
  then have "keeps_shape d d1" using setEnvironmentVar_ok[OF d1(1)] by (simp add: keeps_shape_def)
  then show ?case using 2(1)[OF d1(2)] keeps_shape_trans by blast
qed (simp add: keeps_shape_def)

lemma addMMEnvVars_ok:
  assumes "addMMEnvVars m d = tr_ok d'"
  shows "keeps_shape d d'"
proof -
  obtain d1 kvs where "set_mm_env (mm_env_first m) d = tr_ok d1" "set_mm_env kvs d1 = tr_ok d'"
    using assms by (auto simp: addMMEnvVars_def tr_bind_ok simp del: set_mm_env.simps split: option.splits)
  then show ?thesis using set_mm_env_ok keeps_shape_trans by blast
qed

lemma syncGracePeriod_ok:
  assumes "syncGracePeriod d = tr_ok d'"
  shows "keeps_shape d d'"
  using assms setEnvironmentVar_ok by (auto simp: syncGracePeriod_def keeps_shape_def split: option.splits)

lemma constraints_container_simps:
  "c_Name (constraints_container l c) = c_Name c"
  "v \<in> set (c_VolumeMounts (constraints_container l c)) \<Longrightarrow> v \<in> set (c_VolumeMounts c) \<or> vm_Name v = InternalConfigMapName"
  by (auto simp: constraints_container_def mount_def)

lemma addModelTypeConstraints_ok:
  assumes "addModelTypeConstraints e m d = tr_ok d'"
  shows "names d' = names d \<and> ModelMeshContainerName \<in> set (names d) \<and>
     volume_names d' = volume_names d @ [InternalConfigMapName] \<and> (mounts_declared d \<longrightarrow> mounts_declared d')"
proof -
  obtain i l where i: "findContainer ModelMeshContainerName d = Some i"
    and d': "d' = (modify_container i (constraints_container l) d)\<lparr>kd_Volumes := kd_Volumes d @
      [\<lparr>vol_Name = InternalConfigMapName, vol_Source = ConfigMapSource InternalConfigMapName\<rparr>]\<rparr>"
    using assms by (auto simp: addModelTypeConstraints_def Let_def split: option.splits)
  have vs: "volume_names d' = volume_names d @ [InternalConfigMapName]" by (simp add: d')
  have "ModelMeshContainerName \<in> set (names d)" using i findContainer_None by (metis option.distinct(1))
  moreover have "mounts_declared d'" if d: "mounts_declared d"
  proof -
    have "vm_Name v \<in> set (volume_names d')" if "c \<in> set (kd_Containers d')" "v \<in> set (c_VolumeMounts c)" for c v
    proof (rule mounts_declared_modify[OF d, of i _ "constraints_container l"])
      show "w \<in> set (c_VolumeMounts x) \<or> vm_Name w \<in> set (volume_names d')" if "w \<in> set (c_VolumeMounts (constraints_container l x))" for x w
        using constraints_container_simps(2)[OF that] vs by auto
      show "c \<in> set (kd_Containers (modify_container i (constraints_container l) d))" using that(1) unfolding d' by simp
    qed (use findContainer_Some[OF i] vs that(2) in auto)
    then show ?thesis unfolding mounts_declared_def by blast
  qed
  moreover have "names d' = names d" using names_modify[of "constraints_container l"] constraints_container_simps(1) by (simp add: d')
  ultimately show ?thesis using vs by blast
qed

lemma mounts_declaredI:
  "(\<And>c v. c \<in> set (kd_Containers d) \<Longrightarrow> v \<in> set (c_VolumeMounts c) \<Longrightarrow> vm_Name v \<in> set (volume_names d)) \<Longrightarrow> mounts_declared d"
  by (auto simp: mounts_declared_def)

lemma mounts_declaredD:
  "mounts_declared d \<Longrightarrow> c \<in> set (kd_Containers d) \<Longrightarrow> v \<in> set (c_VolumeMounts c) \<Longrightarrow> vm_Name v \<in> set (volume_names d)"
  unfolding mounts_declared_def by blast

lemma etcd_container_simps:
  "c_Name (etcd_container c) = c_Name c"
  "v \<in> set (c_VolumeMounts (etcd_container c)) \<Longrightarrow> v \<in> set (c_VolumeMounts c) \<or> vm_Name v = EtcdVolume"
  by (auto simp: etcd_container_def ro_mount_def Let_def split: if_splits)

lemma configureMMDeploymentForEtcdSecret_ok:
  assumes "configureMMDeploymentForEtcdSecret m d = tr_ok d'"
  shows "names d' = names d" "set (volume_names d') = insert EtcdVolume (set (volume_names d))" "mounts_declared d \<Longrightarrow> mounts_declared d'"
proof -
  let ?d1 = "case findContainer ModelMeshContainerName d of None \<Rightarrow> d | Some i \<Rightarrow> modify_container i etcd_container d"
  have d': "kd_Containers d' = kd_Containers ?d1" "set (volume_names d') = insert EtcdVolume (set (volume_names d))"
    using assms by (force simp: configureMMDeploymentForEtcdSecret_def Let_def list_ex_iff split: if_splits option.splits)+
  show "set (volume_names d') = insert EtcdVolume (set (volume_names d))" by (rule d')
  show "names d' = names d"
    unfolding d'(1) using names_modify[of etcd_container, OF etcd_container_simps(1)] by (simp split: option.split)
  assume d: "mounts_declared d"
  show "mounts_declared d'"
  proof (rule mounts_declaredI)
    fix c v assume cv: "c \<in> set (kd_Containers d')" "v \<in> set (c_VolumeMounts c)"
    show "vm_Name v \<in> set (volume_names d')"
    proof (cases "findContainer ModelMeshContainerName d")
      case None
      then show ?thesis using mounts_declaredD[OF d _ cv(2)] cv(1) unfolding d' by simp
    next
      case (Some i)
      show ?thesis
      proof (rule mounts_declared_modify[OF d, of i _ etcd_container])
        show "w \<in> set (c_VolumeMounts x) \<or> vm_Name w \<in> set (volume_names d')" if "w \<in> set (c_VolumeMounts (etcd_container x))" for x w
          using etcd_container_simps(2)[OF that] unfolding d'(2) by auto
      qed (use findContainer_Some[OF Some] cv Some d' in auto)
    qed
  qed
qed

lemma addRESTProxyToDeployment_ok:
  assumes "addRESTProxyToDeployment m d = tr_ok d'"
  shows "names d' = names d @ (if md_RESTProxyEnabled m then [RESTProxyContainerName] else [])" "kd_Volumes d' = kd_Volumes d"
    "mounts_declared d \<Longrightarrow> mounts_declared d'"
  using assms by (auto simp: addRESTProxyToDeployment_def mounts_declared_def zero_Container_def split: if_splits)

lemma tls_mounts_names: "v \<in> set (tls_mounts vms) \<Longrightarrow> vm_Name v \<in> insert tlsSecretVolume (vm_Name ` set vms)"
proof (cases "find_index (\<lambda>v. vm_Name v = tlsSecretVolume) vms")
  case (Some i)
  then have i: "i < length vms" "vm_Name (vms ! i) = tlsSecretVolume" by (auto dest: find_index_Some)
  assume "v \<in> set (tls_mounts vms)"
  then have "v \<in> insert ((vms ! i)\<lparr>vm_ReadOnly := True, vm_MountPath := tlsSecretMountPath\<rparr>) (set vms)"
    using Some set_update_subset_insert by (fastforce simp: tls_mounts_def)
  then show ?thesis using i by auto
qed (auto simp: tls_mounts_def ro_mount_def)

lemma tls_volumes_names: "set (map vol_Name (tls_volumes n vols)) = insert tlsSecretVolume (set (map vol_Name vols))"
proof (cases "find_index (\<lambda>v. vol_Name v = tlsSecretVolume) vols")
  case (Some i)
  then have i: "i < length vols" "vol_Name (vols ! i) = tlsSecretVolume" by (auto dest: find_index_Some)
  then have "map vol_Name (tls_volumes n vols) = (map vol_Name vols)[i := tlsSecretVolume]"
    using Some by (simp add: tls_volumes_def map_update)
  also have "\<dots> = map vol_Name vols" using i by (metis list_update_id nth_map)
  finally show ?thesis using i by (metis insert_absorb length_map nth_map nth_mem)
qed (auto simp: tls_volumes_def)

lemma tls_container_simps:
  "c_Name (tls_container m a b c) = c_Name c"
  "v \<in> set (c_VolumeMounts (tls_container m a b c)) \<Longrightarrow> vm_Name v \<in> insert tlsSecretVolume (vm_Name ` set (c_VolumeMounts c))"
  using tls_mounts_names by (auto simp: tls_container_def split: if_splits)

lemma configureMMDeploymentForTLSSecret_ok:
  assumes "configureMMDeploymentForTLSSecret e m d = tr_ok d'"
  shows "names d' = names d" "set (volume_names d) \<subseteq> set (volume_names d')" "mounts_declared d \<Longrightarrow> mounts_declared d'"
proof -
  have "names d' = names d \<and> set (volume_names d) \<subseteq> set (volume_names d') \<and> (mounts_declared d \<longrightarrow> mounts_declared d')"
  proof (cases "md_TLSSecretName m = []")
    case True
    then show ?thesis using assms by (simp add: configureMMDeploymentForTLSSecret_def)
  next
    case False
    then obtain sec where sec: "de_GetSecret e \<lparr>nn_Namespace = md_Namespace m, nn_Name = md_TLSSecretName m\<rparr> = Inr sec"
      using assms by (auto simp: configureMMDeploymentForTLSSecret_def split: sum.splits)
    obtain f where vs: "kd_Volumes d' = tls_volumes (sv_Name sec) (kd_Volumes d)" and cs: "kd_Containers d' = map f (kd_Containers d)"
      and f: "\<And>c. c_Name (f c) = c_Name c" "\<And>c v. v \<in> set (c_VolumeMounts (f c)) \<Longrightarrow> vm_Name v \<in> insert tlsSecretVolume (vm_Name ` set (c_VolumeMounts c))"
    proof
      show "kd_Containers d' = map (tls_container m (TrimSpace (md_TLSClientAuth m)) (''ca.crt'' \<in> set (sv_Keys sec))) (kd_Containers d)"
        "kd_Volumes d' = tls_volumes (sv_Name sec) (kd_Volumes d)"
        using assms False sec by (auto simp: configureMMDeploymentForTLSSecret_def)
    qed (rule tls_container_simps, rule tls_container_simps)
    have ns: "names d' = names d" unfolding cs using f(1) by simp
    have "mounts_declared d'" if d: "mounts_declared d"
    proof (rule mounts_declaredI)
      fix x v assume "x \<in> set (kd_Containers d')" "v \<in> set (c_VolumeMounts x)"
      then obtain y where "y \<in> set (kd_Containers d)" "vm_Name v \<in> insert tlsSecretVolume (vm_Name ` set (c_VolumeMounts y))"
        unfolding cs using f(2) by auto
      then show "vm_Name v \<in> set (volume_names d')" unfolding vs tls_volumes_names using mounts_declaredD[OF d] by auto
    qed
    moreover have "set (volume_names d) \<subseteq> set (volume_names d')" unfolding vs tls_volumes_names by (rule subset_insertI)
    ultimately show ?thesis using ns by simp
  qed
  then show "names d' = names d" "set (volume_names d) \<subseteq> set (volume_names d')" "mounts_declared d \<Longrightarrow> mounts_declared d'" by blast+
qed

lemma ensureMMContainerIsLast_ok:
  assumes "ensureMMContainerIsLast d = tr_ok d'"
  shows "mset (kd_Containers d') = mset (kd_Containers d)" "kd_Volumes d' = kd_Volumes d"
    "ModelMeshContainerName \<in> set (names d) \<Longrightarrow> kd_Containers d' \<noteq> [] \<and> c_Name (last (kd_Containers d')) = ModelMeshContainerName"
proof -
  have "mset (kd_Containers d') = mset (kd_Containers d) \<and> kd_Volumes d' = kd_Volumes d \<and>
    (ModelMeshContainerName \<in> set (names d) \<longrightarrow> kd_Containers d' \<noteq> [] \<and> c_Name (last (kd_Containers d')) = ModelMeshContainerName)"
  proof (cases "findContainer ModelMeshContainerName d")
    case None
    then have "ModelMeshContainerName \<notin> set (names d)" by (simp only: findContainer_None not_False_eq_True)
    moreover have "d' = d" using assms None by (simp add: ensureMMContainerIsLast_def)
    ultimately show ?thesis by simp
  next
    case (Some i)
    note i = findContainer_Some[OF Some]
    let ?cs = "kd_Containers d"
    have l: "length ?cs - 1 < length ?cs" "?cs \<noteq> []" using i by auto
    have d': "kd_Volumes d' = kd_Volumes d" "kd_Containers d' = (if i \<noteq> length ?cs - 1 then ?cs[length ?cs - 1 := ?cs ! i, i := ?cs ! (length ?cs - 1)] else ?cs)"
      using assms Some by (auto simp: ensureMMContainerIsLast_def Let_def)
    have "last (kd_Containers d') = ?cs ! i" unfolding d' using i l by (auto simp: last_conv_nth nth_list_update)
    moreover have "mset (kd_Containers d') = mset ?cs" unfolding d' using mset_swap[OF l(1), of i] i by (auto simp: list_update_swap)
    moreover have "kd_Containers d' \<noteq> []" unfolding d' using l by auto
    ultimately show ?thesis using i d'(1) by simp
  qed
  then show "mset (kd_Containers d') = mset (kd_Containers d)" "kd_Volumes d' = kd_Volumes d"
    "ModelMeshContainerName \<in> set (names d) \<Longrightarrow> kd_Containers d' \<noteq> [] \<and> c_Name (last (kd_Containers d')) = ModelMeshContainerName" by blast+
qed

section \<open>The runtime's containers\<close>

abbreviation mount_names :: "VolumeMount list \<Rightarrow> string set" where
  "mount_names vs \<equiv> vm_Name ` set vs"

abbreviation slot_names :: "slot list \<Rightarrow> string list" where
  "slot_names cs \<equiv> map (\<lambda>x. c_Name (fst x)) cs"

definition slot_ok :: "string set \<Rightarrow> vm_store \<Rightarrow> slot \<Rightarrow> bool" where
  "slot_ok V st x = (case snd x of
     None \<Rightarrow> mount_names (c_VolumeMounts (fst x)) \<subseteq> V
   | Some s \<Rightarrow> slice_ok st s \<and> mount_names (slice_read st s) \<subseteq> V)"

definition slots_ok :: "string set \<Rightarrow> vm_store \<Rightarrow> vm_slice \<Rightarrow> slot list \<Rightarrow> bool" where
  "slots_ok V st vms cs \<longleftrightarrow> slice_ok st vms \<and> mount_names (slice_read st vms) \<subseteq> V \<and> (\<forall>x\<in>set cs. slot_ok V st x)"

definition socket_declared :: "ServingRuntimeSpec \<Rightarrow> string set \<Rightarrow> bool" where
  "socket_declared rts V \<longleftrightarrow> (\<forall>dir. socket_mount rts = Some (True, dir) \<longrightarrow> SocketVolume \<in> V)"

lemma slot_names_put:
  "slot_names (put_slot x cs) = (if c_Name (fst x) \<in> set (slot_names cs) then slot_names cs else slot_names cs @ [c_Name (fst x)])"
proof (cases "find_index (\<lambda>y. c_Name (fst y) = c_Name (fst x)) cs")
  case (Some i)
  then have i: "i < length cs" "c_Name (fst (cs ! i)) = c_Name (fst x)" by (auto dest: find_index_Some)
  then have "slot_names (put_slot x cs) = (slot_names cs)[i := slot_names cs ! i]" using Some by (simp add: put_slot_def map_update)
  then show ?thesis using i by (metis (mono_tags, lifting) list_update_id length_map nth_map nth_mem)
next
  case None
  then have "c_Name (fst x) \<notin> set (slot_names cs)" unfolding find_index_None by auto
  then show ?thesis using None by (simp add: put_slot_def)
qed

lemma set_put_slot: "set (put_slot x cs) \<subseteq> insert x (set cs)"
  using set_update_subset_insert by (fastforce simp: put_slot_def split: option.splits)

lemma slot_ok_append:
  assumes "slot_ok V st x" "slice_ok st s" "mount_names xs \<subseteq> V" "slice_append grow st s xs = (st', s')"
  shows "slot_ok V st' x"
proof (cases "snd x")
  case (Some t)
  then have t: "slice_ok st t" "mount_names (slice_read st t) \<subseteq> V" using assms(1) by (auto simp: slot_ok_def)
  note o = slice_append_others[OF assms(2) t(1) assms(4)]
  have "mount_names (slice_read st' t) \<subseteq> mount_names (slice_read st t) \<union> mount_names xs" using o(2) by blast
  then have "mount_names (slice_read st' t) \<subseteq> V" using t(2) assms(3) by (meson Un_least order_trans)
  then show ?thesis using o(1) Some by (simp add: slot_ok_def)
qed (use assms(1) in \<open>simp add: slot_ok_def\<close>)

lemma slots_ok_append:
  assumes "slots_ok V st vms cs" "slot_ok V st (c, Some s)" "mount_names xs \<subseteq> V" "slice_append grow st s xs = (st', s')"
  shows "slots_ok V st' vms cs" and "slot_ok V st' (c, Some s')"
proof -
  have s: "slice_ok st s" using assms(2) by (simp add: slot_ok_def)
  have "slot_ok V st' (c, Some vms)" using slot_ok_append[OF _ s assms(3,4), of "(c, Some vms)"] assms(1) by (simp add: slots_ok_def slot_ok_def)
  then show "slots_ok V st' vms cs"
    using slot_ok_append[OF _ s assms(3,4)] assms(1) by (auto simp: slots_ok_def slot_ok_def)
  show "slot_ok V st' (c, Some s')"
    using slice_append_ok[OF s assms(4)] assms(2,3) by (auto simp: slot_ok_def)
qed

lemma addDomainSocketMount_slots:
  assumes "slots_ok V st vms cs" "slot_ok V st (c, Some s)" "addDomainSocketMount grow rts st s = Some (st', s')"
    and "socket_declared rts V"
  shows "slots_ok V st' vms cs \<and> slot_ok V st' (c, Some s')"
proof -
  obtain requires dir where d: "socket_mount rts = Some (requires, dir)"
    "(if requires then slice_append grow st s [mount SocketVolume dir] else (st, s)) = (st', s')"
    using assms(3) by (auto simp: addDomainSocketMount_def simp del: split_paired_Ex split: option.split_asm prod.split_asm)
  show ?thesis
  proof (cases requires)
    case True
    then have a: "slice_append grow st s [mount SocketVolume dir] = (st', s')" using d(2) by simp
    have m: "mount_names [mount SocketVolume dir] \<subseteq> V" using assms(4) d(1) True by (simp add: mount_def socket_declared_def)
    show ?thesis using slots_ok_append(1)[OF assms(1,2) m a] slots_ok_append(2)[OF assms(1,2) m a] by simp
  next
    case False
    then have "st' = st" "s' = s" using d(2) by simp_all
    then show ?thesis using assms(1,2) by simp
  qed
qed

lemma slots_ok_put: "slots_ok V st vms cs \<Longrightarrow> slot_ok V st x \<Longrightarrow> slots_ok V st vms (put_slot x cs)"
  using set_put_slot[of x cs] unfolding slots_ok_def by blast

lemma add_runtime_container_ok:
  assumes "add_runtime_container grow rts vms cspec (st, cs) = Some (st', cs')"
  shows "slot_names cs' = (if c_Name cspec \<in> set (slot_names cs) then slot_names cs else slot_names cs @ [c_Name cspec])"
    and "slots_ok V st vms cs \<Longrightarrow> mount_names (c_VolumeMounts cspec) \<subseteq> V \<Longrightarrow>
      socket_declared rts V \<Longrightarrow> slots_ok V st' vms cs'"
proof -
  obtain st1 s1 where a: "slice_append grow st vms (c_VolumeMounts cspec) = (st1, s1)" by force
  obtain c s2 where b: "addDomainSocketMount grow rts st1 s1 = Some (st', s2)" and c: "cs' = put_slot (c, Some s2) cs" "c_Name c = c_Name cspec"
    using assms by (auto simp: add_runtime_container_def Let_def a)
  show "slot_names cs' = (if c_Name cspec \<in> set (slot_names cs) then slot_names cs else slot_names cs @ [c_Name cspec])"
    using slot_names_put[of "(c, Some s2)" cs] c by simp
  assume v: "slots_ok V st vms cs" "mount_names (c_VolumeMounts cspec) \<subseteq> V" "socket_declared rts V"
  have "slot_ok V st (c, Some vms)" using v(1) by (simp add: slots_ok_def slot_ok_def)
  note r = slots_ok_append[OF v(1) this v(2) a]
  show "slots_ok V st' vms cs'" unfolding c(1) using addDomainSocketMount_slots[OF r b v(3)] by (elim conjE) (rule slots_ok_put)
qed

lemma add_runtime_containers_ok:
  assumes "add_runtime_containers grow rts vms specs (st, cs) = Some (st', cs')"
  shows "set (slot_names cs') = set (slot_names cs) \<union> c_Name ` set specs \<and> (distinct (slot_names cs) \<longrightarrow> distinct (slot_names cs')) \<and>
     (slots_ok V st vms cs \<and> (\<forall>c\<in>set specs. mount_names (c_VolumeMounts c) \<subseteq> V) \<and>
      socket_declared rts V \<longrightarrow> slots_ok V st' vms cs')"
  using assms
proof (induction specs arbitrary: st cs)
  case (Cons c specs)
  then obtain st1 cs1 where r: "add_runtime_container grow rts vms c (st, cs) = Some (st1, cs1)"
    "add_runtime_containers grow rts vms specs (st1, cs1) = Some (st', cs')"
    by (auto simp: bind_eq_Some_conv simp del: add_runtime_containers.simps(1))
  note one = add_runtime_container_ok[OF r(1)]
  have "set (slot_names cs1) = insert (c_Name c) (set (slot_names cs))" "distinct (slot_names cs) \<Longrightarrow> distinct (slot_names cs1)"
    unfolding one(1) by auto
  then show ?case using Cons.IH[OF r(2)] one(2)[of V] by auto
qed simp

lemma append_mounts_ok:
  assumes "slice_ok st s" and "append_mounts grow vs (st, s) = (st', s')"
  shows "slice_ok st' s' \<and> slice_read st' s' = slice_read st s @ vs"
  using assms
proof (induction vs arbitrary: st s)
  case (Cons v vs)
  obtain st1 s1 where a: "slice_append grow st s [v] = (st1, s1)" by force
  note ok = slice_append_ok[OF Cons.prems(1) a]
  have "append_mounts grow vs (st1, s1) = (st', s')" using Cons.prems(2) by (simp add: a)
  from Cons.IH[OF ok(1) this] show ?case using ok(2) by simp
qed simp

lemma common_slice_ok:
  assumes "append_mounts grow (pvc_mounts m) (common_mounts m) = (st, vms)"
  shows "slice_ok st vms \<and> slice_read st vms = mount ModelsDirVolume ModelsDir # pvc_mounts m"
  using append_mounts_ok[of "fst (common_mounts m)" "snd (common_mounts m)" grow "pvc_mounts m" st vms] assms
  by (simp add: common_mounts_def slice_new_def slice_ok_def slice_read_def)

lemma pvc_mount_names: "mount_names (pvc_mounts m) = set (md_PVCs m)"
  by (simp add: pvc_mounts_def ro_mount_def image_image)

lemma adapter_mounts_ok:
  assumes "adapter_mounts grow rts vms st = Some (st', s)" and "slots_ok V st vms cs" and "ConfigStorageMount \<in> V" and "socket_declared rts V"
  shows "slots_ok V st' vms cs \<and> slot_ok V st' (c, Some s)"
proof -
  obtain st1 s1 where a: "slice_append grow st vms [ro_mount ConfigStorageMount PullerConfigPath] = (st1, s1)" by force
  have v: "slot_ok V st (c, Some vms)" using assms(2) by (simp add: slots_ok_def slot_ok_def)
  have m: "mount_names [ro_mount ConfigStorageMount PullerConfigPath] \<subseteq> V" using assms(3) by (simp add: ro_mount_def)
  note r = slots_ok_append[OF assms(2) v m a]
  show ?thesis
  proof (cases "sr_GrpcDataEndpoint rts")
    case None
    then show ?thesis using assms(1) r by (simp add: adapter_mounts_def a)
  next
    case (Some ep)
    then have "addDomainSocketMount grow rts st1 s1 = Some (st', s)" using assms(1) by (simp add: adapter_mounts_def a)
    then show ?thesis by (rule addDomainSocketMount_slots[OF r _ assms(4)])
  qed
qed

lemma add_adapter_ok:
  assumes "add_adapter e m a vms (st, cs) = Inr (st', cs')"
  obtains c s where "cs' = cs @ [(c, Some s)]" "c_Name c = ba_ServerType a @ ''-adapter''"
    "adapter_mounts (de_grow e) (md_SRSpec m) vms st = Some (st', s)"
  using assms by (auto simp: add_adapter_def adapter_container_def Let_def split: option.split_asm if_split_asm)

lemma read_slot_ok: "slot_ok V st x \<Longrightarrow> c_Name (read_slot st x) = c_Name (fst x) \<and> mount_names (c_VolumeMounts (read_slot st x)) \<subseteq> V"
  by (cases x) (auto simp: slot_ok_def read_slot_def split: option.splits)

lemma read_slot_name: "c_Name (read_slot st x) = c_Name (fst x)"
  by (cases x) (auto simp: read_slot_def split: option.splits)

definition adapter_names :: "ServingRuntimeSpec \<Rightarrow> string list" where
  "adapter_names rts = (case sr_BuiltInAdapter rts of None \<Rightarrow> [] | Some a \<Rightarrow> [ba_ServerType a @ ''-adapter''])"

lemma addRuntimeToDeployment_stages:
  assumes "addRuntimeToDeployment e m d = tr_ok d'"
  obtains st0 vms st1 cs1 st cs where
    "append_mounts (de_grow e) (pvc_mounts m) (common_mounts m) = (st0, vms)"
    "add_runtime_containers (de_grow e) (md_SRSpec m) vms (sr_Containers (md_SRSpec m)) (st0, map (\<lambda>c. (c, None)) (kd_Containers d)) = Some (st1, cs1)"
    "case sr_BuiltInAdapter (md_SRSpec m) of None \<Rightarrow> (st, cs) = (st1, cs1) | Some a \<Rightarrow> add_adapter e m a vms (st1, cs1) = Inr (st, cs)"
    "d' = d\<lparr>kd_Containers := map (read_slot st) cs\<rparr>"
proof -
  obtain st0 vms where v: "append_mounts (de_grow e) (pvc_mounts m) (common_mounts m) = (st0, vms)" by force
  obtain st1 cs1 where r: "add_runtime_containers (de_grow e) (md_SRSpec m) vms (sr_Containers (md_SRSpec m))
      (st0, map (\<lambda>c. (c, None)) (kd_Containers d)) = Some (st1, cs1)"
    using assms by (auto simp: addRuntimeToDeployment_def v Let_def split: option.split_asm)
  show thesis
  proof (cases "sr_BuiltInAdapter (md_SRSpec m)")
    case None
    then show ?thesis using assms r v by (intro that[OF v r, of st1 cs1]) (auto simp: addRuntimeToDeployment_def Let_def)
  next
    case (Some a)
    then obtain st cs where a: "add_adapter e m a vms (st1, cs1) = Inr (st, cs)"
      using assms r v by (auto simp: addRuntimeToDeployment_def Let_def split: sum.split_asm)
    then show ?thesis using assms r v Some by (intro that[OF v r, of st cs]) (auto simp: addRuntimeToDeployment_def Let_def)
  qed
qed

lemma addRuntimeToDeployment_ok:
  assumes "addRuntimeToDeployment e m d = tr_ok d'"
  shows "set (names d') = set (names d) \<union> c_Name ` set (sr_Containers (md_SRSpec m)) \<union> set (adapter_names (md_SRSpec m))"
    and "distinct (names d) \<Longrightarrow> set (adapter_names (md_SRSpec m)) \<inter> (set (names d) \<union> c_Name ` set (sr_Containers (md_SRSpec m))) = {} \<Longrightarrow>
      distinct (names d')"
    and "kd_Volumes d' = kd_Volumes d"
    and "mounts_declared d \<Longrightarrow> ModelsDirVolume \<in> set (volume_names d) \<Longrightarrow> set (md_PVCs m) \<subseteq> set (volume_names d) \<Longrightarrow>
      (\<forall>c\<in>set (sr_Containers (md_SRSpec m)). mount_names (c_VolumeMounts c) \<subseteq> set (volume_names d)) \<Longrightarrow>
      socket_declared (md_SRSpec m) (set (volume_names d)) \<Longrightarrow>
      (sr_BuiltInAdapter (md_SRSpec m) \<noteq> None \<Longrightarrow> ConfigStorageMount \<in> set (volume_names d)) \<Longrightarrow> mounts_declared d'"
proof -
  obtain st0 vms st1 cs1 st cs where
    v: "append_mounts (de_grow e) (pvc_mounts m) (common_mounts m) = (st0, vms)" and
    r: "add_runtime_containers (de_grow e) (md_SRSpec m) vms (sr_Containers (md_SRSpec m)) (st0, map (\<lambda>c. (c, None)) (kd_Containers d)) = Some (st1, cs1)" and
    a: "case sr_BuiltInAdapter (md_SRSpec m) of None \<Rightarrow> (st, cs) = (st1, cs1) | Some a \<Rightarrow> add_adapter e m a vms (st1, cs1) = Inr (st, cs)" and
    d': "d' = d\<lparr>kd_Containers := map (read_slot st) cs\<rparr>" using assms by (rule addRuntimeToDeployment_stages)
  note rt = add_runtime_containers_ok[OF r]
  have n: "slot_names (map (\<lambda>c. (c, None)) (kd_Containers d)) = names d" by simp
  have dist: "distinct (names d) \<Longrightarrow> distinct (slot_names cs1)" using rt unfolding n by blast
  have ns: "names d' = slot_names cs1 @ adapter_names (md_SRSpec m)"
    using a unfolding d' adapter_names_def by (cases "sr_BuiltInAdapter (md_SRSpec m)") (auto simp: read_slot_name elim: add_adapter_ok)
  show "set (names d') = set (names d) \<union> c_Name ` set (sr_Containers (md_SRSpec m)) \<union> set (adapter_names (md_SRSpec m))"
    using rt n unfolding ns by simp
  show "distinct (names d')" if "distinct (names d)" "set (adapter_names (md_SRSpec m)) \<inter> (set (names d) \<union> c_Name ` set (sr_Containers (md_SRSpec m))) = {}"
    using rt n dist[OF that(1)] that(2) unfolding ns by (auto simp: adapter_names_def split: option.splits)
  show "kd_Volumes d' = kd_Volumes d" by (simp add: d')
  show "mounts_declared d'" if h: "mounts_declared d" "ModelsDirVolume \<in> set (volume_names d)" "set (md_PVCs m) \<subseteq> set (volume_names d)"
    "\<forall>c\<in>set (sr_Containers (md_SRSpec m)). mount_names (c_VolumeMounts c) \<subseteq> set (volume_names d)"
    "socket_declared (md_SRSpec m) (set (volume_names d))"
    "sr_BuiltInAdapter (md_SRSpec m) \<noteq> None \<Longrightarrow> ConfigStorageMount \<in> set (volume_names d)"
  proof -
    let ?V = "set (volume_names d)"
    have "slots_ok ?V st0 vms (map (\<lambda>c. (c, None)) (kd_Containers d))"
      using common_slice_ok[OF v] h(1-3) pvc_mount_names[of m] by (auto simp: slots_ok_def slot_ok_def mount_def mounts_declared_def)
    then have s1: "slots_ok ?V st1 vms cs1" using rt h(4,5) by blast
    have "slots_ok ?V st vms cs"
    proof (cases "sr_BuiltInAdapter (md_SRSpec m)")
      case (Some ad)
      then obtain c s where c: "cs = cs1 @ [(c, Some s)]" "adapter_mounts (de_grow e) (md_SRSpec m) vms st1 = Some (st, s)"
        using a by (auto elim: add_adapter_ok)
      show ?thesis using adapter_mounts_ok[OF c(2) s1, of c] h(5,6) Some unfolding c(1) by (auto simp: slots_ok_def)
    qed (use a s1 in simp)
    then have "\<forall>x\<in>set cs. mount_names (c_VolumeMounts (read_slot st x)) \<subseteq> ?V"
      unfolding slots_ok_def using read_slot_ok by blast
    then show ?thesis unfolding mounts_declared_def d' by auto
  qed
qed

section \<open>Volumes and sockets\<close>

definition valid_endpoints :: "ServingRuntimeSpec \<Rightarrow> bool" where
  "valid_endpoints rts \<longleftrightarrow> list_all (\<lambda>ep. HasPrefix ep ''port:'' \<or> HasPrefix ep ''unix:'') (runtime_endpoints rts)"

lemma addVolumes_ok:
  assumes "addVolumesToDeployment e m d = tr_ok d'"
  shows "kd_Containers d' = kd_Containers d"
    and "set (volume_names d') = vol_Name ` set (sr_Volumes (md_SRSpec m)) \<union> {ModelsDirVolume} \<union>
      (if fst (unixDomainSockets (md_SRSpec m)) then {SocketVolume} else {}) \<union>
      (if sr_BuiltInAdapter (md_SRSpec m) \<noteq> None \<or> useStorageHelper (md_SRSpec m) then {ConfigStorageMount} else {}) \<union> set (md_PVCs m)"
proof -
  have d': "d' = d\<lparr>kd_Volumes := kd_Volumes d'\<rparr>" "volume_names d' = map vol_Name (sr_Volumes (md_SRSpec m)) @ [ModelsDirVolume] @
      (if fst (unixDomainSockets (md_SRSpec m)) then [SocketVolume] else []) @
      (if sr_BuiltInAdapter (md_SRSpec m) \<noteq> None \<or> useStorageHelper (md_SRSpec m) then [ConfigStorageMount] else []) @ md_PVCs m"
    using assms by (auto simp: addVolumesToDeployment_def Let_def comp_def)
  show "kd_Containers d' = kd_Containers d" by (subst d'(1)) simp
  show "set (volume_names d') = vol_Name ` set (sr_Volumes (md_SRSpec m)) \<union> {ModelsDirVolume} \<union>
      (if fst (unixDomainSockets (md_SRSpec m)) then {SocketVolume} else {}) \<union>
      (if sr_BuiltInAdapter (md_SRSpec m) \<noteq> None \<or> useStorageHelper (md_SRSpec m) then {ConfigStorageMount} else {}) \<union> set (md_PVCs m)"
    unfolding d'(2) by auto
qed

lemma unix_endpoint_volume:
  assumes "valid_endpoints rts" and "ep \<in> set (runtime_endpoints rts)" and "\<not> HasPrefix ep ''port:''"
  shows "fst (unixDomainSockets rts)"
proof -
  have "ep \<in> set (filter (\<lambda>x. HasPrefix x ''unix:'') (runtime_endpoints rts))" using assms by (auto simp: valid_endpoints_def list_all_iff)
  then have "filter (\<lambda>x. HasPrefix x ''unix:'') (runtime_endpoints rts) \<noteq> []" by (metis empty_iff empty_set)
  then show ?thesis by (simp add: unixDomainSockets_def Let_def)
qed

lemma socket_mount_unix:
  assumes "socket_mount rts = Some (True, dir)"
  shows "\<exists>ep\<in>set (runtime_endpoints rts). \<not> HasPrefix ep ''port:''"
proof (rule ccontr)
  assume "\<not> ?thesis"
  then have "\<forall>ep\<in>set xs. HasPrefix ep ''port:''" if "set xs \<subseteq> set (runtime_endpoints rts)" for xs using that by blast
  then have "fold (\<lambda>s r. Option.bind r (socket_mount_step s)) xs (Some (False, [])) = Some (False, [])"
    if "set xs \<subseteq> set (runtime_endpoints rts)" for xs
    using that by (induction xs) (auto simp: socket_mount_step_def ParseEndpoint_def)
  then show False using assms by (simp add: socket_mount_def)
qed

lemma mountPoint_unix: "fst (mountPoint rts) \<Longrightarrow> \<exists>ep\<in>set (runtime_endpoints rts). \<not> HasPrefix ep ''port:''"
  by (auto simp: mountPoint_def findParentPath_def ParseEndpoint_def runtime_endpoints_def split: option.splits if_splits)

lemma addMMDomainSocketMount_ok:
  assumes "addMMDomainSocketMount m d = tr_ok d'"
  shows "names d' = names d" "kd_Volumes d' = kd_Volumes d"
    "mounts_declared d \<Longrightarrow> (fst (mountPoint (md_SRSpec m)) \<Longrightarrow> SocketVolume \<in> set (volume_names d)) \<Longrightarrow> mounts_declared d'"
proof -
  obtain hasUnix mp where mp: "mountPoint (md_SRSpec m) = (hasUnix, mp)" by force
  let ?f = "\<lambda>c. c\<lparr>c_VolumeMounts := c_VolumeMounts c @ [mount ''domain-socket'' mp]\<rparr>"
  obtain i where i: "findContainer ModelMeshContainerName d = Some i" "d' = (if hasUnix then modify_container i ?f d else d)"
    using assms mp by (auto simp: addMMDomainSocketMount_def split: option.splits)
  show "names d' = names d" "kd_Volumes d' = kd_Volumes d" unfolding i(2) by (auto simp: names_modify)
  show "mounts_declared d'" if d: "mounts_declared d" "fst (mountPoint (md_SRSpec m)) \<Longrightarrow> SocketVolume \<in> set (volume_names d)"
  proof (cases hasUnix)
    case True
    then have s: "SocketVolume \<in> set (volume_names d)" using d(2) mp by simp
    show ?thesis
    proof (rule mounts_declaredI)
      fix c v assume cv: "c \<in> set (kd_Containers d')" "v \<in> set (c_VolumeMounts c)"
      have "vm_Name v \<in> set (volume_names d)"
      proof (rule mounts_declared_modify[OF d(1), of i _ ?f])
        show "w \<in> set (c_VolumeMounts x) \<or> vm_Name w \<in> set (volume_names d)" if "w \<in> set (c_VolumeMounts (?f x))" for x w
          using that s by (auto simp: mount_def SocketVolume_def)
      qed (use findContainer_Some[OF i(1)] cv i(2) True in auto)
      then show "vm_Name v \<in> set (volume_names d')" by (simp add: i(2) True)
    qed
  qed (use i(2) d(1) in simp)
qed

section \<open>The whole Deployment\<close>

text \<open>The intermediate Deployments of a successful \<open>Apply\<close>.\<close>

lemma Apply_stages:
  assumes "Apply_manifest e m = tr_ok d"
  obtains d1 d2 d3 d4 d5 d6 d7 d8 d9 d10 d11 d12 d13 where
    "addVolumesToDeployment e m (render_deployment m) = tr_ok d1" "addMMDomainSocketMount m d1 = tr_ok d2"
    "addPassThroughPodFieldsToDeployment m d2 = tr_ok d3" "addRuntimeToDeployment e m d3 = tr_ok d4" "syncGracePeriod d4 = tr_ok d5"
    "addMMEnvVars m d5 = tr_ok d6" "addModelTypeConstraints e m d6 = tr_ok d7" "configureMMDeploymentForEtcdSecret m d7 = tr_ok d8"
    "addRESTProxyToDeployment m d8 = tr_ok d9" "configureMMDeploymentForTLSSecret e m d9 = tr_ok d10"
    "configureRuntimePodSpecAnnotations e m d10 = tr_ok d11" "configureRuntimePodSpecLabels e m d11 = tr_ok d12"
    "ensureMMContainerIsLast d12 = tr_ok d13"
    "(if useStorageHelper (md_SRSpec m) then addPullerSidecar m (d13\<lparr>kd_ImagePullSecrets := mergeImagePullSecrets
       [kd_ImagePullSecrets d13, md_ImagePullSecrets m, sr_ImagePullSecrets (md_SRSpec m)]\<rparr>)
      else tr_ok (d13\<lparr>kd_ImagePullSecrets := mergeImagePullSecrets
       [kd_ImagePullSecrets d13, md_ImagePullSecrets m, sr_ImagePullSecrets (md_SRSpec m)]\<rparr>)) = tr_ok d"
proof -
  have "setConfigMap e m = None" using assms by (auto simp: Apply_manifest_def split: option.splits)
  then show ?thesis
    using assms that unfolding Apply_manifest_def mesh_transforms_def configureRuntimePodSpecImagePullSecrets_def
    by (simp only: option.case transform.simps tr_bind_ok) blast
qed

lemma addPassThrough_ok:
  "addPassThroughPodFieldsToDeployment m d = tr_ok d' \<Longrightarrow> kd_Containers d' = kd_Containers d \<and> kd_Volumes d' = kd_Volumes d"
  by (auto simp: addPassThroughPodFieldsToDeployment_def Let_def)

lemma pod_metadata_ok:
  "configureRuntimePodSpecAnnotations e m d = tr_ok d' \<Longrightarrow> kd_Containers d' = kd_Containers d \<and> kd_Volumes d' = kd_Volumes d"
  "configureRuntimePodSpecLabels e m d = tr_ok d' \<Longrightarrow> kd_Containers d' = kd_Containers d \<and> kd_Volumes d' = kd_Volumes d"
  by (auto simp: configureRuntimePodSpecAnnotations_def configureRuntimePodSpecLabels_def)

lemma addPullerSidecar_ok:
  assumes "addPullerSidecar m d = tr_ok d'"
  obtains ep where "ep \<in> set (runtime_endpoints (md_SRSpec m))" "kd_Containers d' = kd_Containers d @ [puller_container m ep]" "kd_Volumes d' = kd_Volumes d"
    "is_port_endpoint ep \<or> HasPrefix ep ''unix:''"
proof -
  obtain ep where ep: "sr_GrpcMultiModelManagementEndpoint (md_SRSpec m) = Some ep" "ValidateEndpoint ep = Some ep"
    "d' = d\<lparr>kd_Containers := kd_Containers d @ [puller_container m ep]\<rparr>"
    using assms by (auto simp: addPullerSidecar_def ValidateEndpoint_def split: option.splits if_splits)
  show thesis by (rule that[of ep]) (use ep in \<open>auto simp: runtime_endpoints_def ValidateEndpoint_def split: option.splits if_splits\<close>)
qed

lemma puller_container_simps:
  "c_Name (puller_container m ep) = PullerContainerName"
  "mount_names (c_VolumeMounts (puller_container m ep)) =
     {ModelsDirVolume, ConfigStorageMount} \<union> (if HasPrefix ep ''port:'' then {} else {SocketVolume}) \<union> set (md_PVCs m)"
  by (auto simp: puller_container_def mount_def ro_mount_def ParseEndpoint_def SocketVolume_def image_image)

lemma mounts_declared_cong:
  "kd_Containers d' = kd_Containers d \<Longrightarrow> kd_Volumes d' = kd_Volumes d \<Longrightarrow> mounts_declared d' = mounts_declared d"
  by (simp add: mounts_declared_def)

lemma mounts_declared_mset:
  "mset (kd_Containers d') = mset (kd_Containers d) \<Longrightarrow> kd_Volumes d' = kd_Volumes d \<Longrightarrow> mounts_declared d' = mounts_declared d"
  unfolding mounts_declared_def by (metis mset_eq_setD)

text \<open>What the last steps do to the containers, from the model-mesh container's constraints on.\<close>

lemma Apply_last_stages:
  assumes "addModelTypeConstraints e m d6 = tr_ok d7" "configureMMDeploymentForEtcdSecret m d7 = tr_ok d8"
    "addRESTProxyToDeployment m d8 = tr_ok d9" "configureMMDeploymentForTLSSecret e m d9 = tr_ok d10"
    "configureRuntimePodSpecAnnotations e m d10 = tr_ok d11" "configureRuntimePodSpecLabels e m d11 = tr_ok d12"
    "ensureMMContainerIsLast d12 = tr_ok d13"
  shows "mset (names d13) = mset (names d6 @ (if md_RESTProxyEnabled m then [RESTProxyContainerName] else []))"
    and "\<exists>cs c. kd_Containers d13 = cs @ [c] \<and> c_Name c = ModelMeshContainerName"
    and "set (volume_names d6) \<subseteq> set (volume_names d13)" and "mounts_declared d6 \<Longrightarrow> mounts_declared d13"
proof -
  note a = addModelTypeConstraints_ok[OF assms(1)] configureMMDeploymentForEtcdSecret_ok[OF assms(2)]
    addRESTProxyToDeployment_ok[OF assms(3)] configureMMDeploymentForTLSSecret_ok[OF assms(4)] pod_metadata_ok(1)[OF assms(5)]
    pod_metadata_ok(2)[OF assms(6)]
  note l = ensureMMContainerIsLast_ok[OF assms(7)]
  have n12: "names d12 = names d6 @ (if md_RESTProxyEnabled m then [RESTProxyContainerName] else [])" using a by simp
  show "mset (names d13) = mset (names d6 @ (if md_RESTProxyEnabled m then [RESTProxyContainerName] else []))"
    using l(1) n12 by (metis mset_map)
  have "ModelMeshContainerName \<in> set (names d12)" using a(1) unfolding n12 by simp
  from l(3)[OF this] show "\<exists>cs c. kd_Containers d13 = cs @ [c] \<and> c_Name c = ModelMeshContainerName"
    by (metis append_butlast_last_id)
  show "set (volume_names d6) \<subseteq> set (volume_names d13)" using a l(2) by auto
  show "mounts_declared d13" if "mounts_declared d6"
    using that a l(1,2) mounts_declared_cong[of d11 d10] mounts_declared_cong[of d12 d11] mounts_declared_mset[of d13 d12] by auto
qed

text \<open>
  C18. The model-mesh container is the last container of the Deployment exactly when no storage helper is used;
  otherwise the puller, which is added after the containers have been ordered, is behind it, although the order is there
  to have the model-mesh container started last.
\<close>

theorem mm_container_position:
  assumes "Apply_manifest e m = tr_ok d"
  shows "\<exists>cs mm. c_Name mm = ModelMeshContainerName \<and>
     (if useStorageHelper (md_SRSpec m)
      then (\<exists>ep. kd_Containers d = cs @ [mm, puller_container m ep])
      else kd_Containers d = cs @ [mm])"
  using assms
proof (rule Apply_stages, goal_cases)
  case (1 d1 d2 d3 d4 d5 d6 d7 d8 d9 d10 d11 d12 d13)
  obtain cs mm where mm: "kd_Containers d13 = cs @ [mm]" "c_Name mm = ModelMeshContainerName"
    using Apply_last_stages(2)[OF 1(7-13)] by blast
  show ?case
  proof (cases "useStorageHelper (md_SRSpec m)")
    case True
    then obtain ep where "kd_Containers d = kd_Containers d13 @ [puller_container m ep]"
      using 1(14) by (auto elim!: addPullerSidecar_ok)
    then show ?thesis using mm True by auto
  next
    case False
    then show ?thesis using mm 1(14) by auto
  qed
qed

definition injected_names :: "Deployment \<Rightarrow> string list" where
  "injected_names m = [ModelMeshContainerName] @ adapter_names (md_SRSpec m) @
     (if md_RESTProxyEnabled m then [RESTProxyContainerName] else []) @
     (if useStorageHelper (md_SRSpec m) then [PullerContainerName] else [])"

lemma render_names: "names (render_deployment m) = [ModelMeshContainerName]"
  by (simp add: render_deployment_def Let_def ModelMeshContainerName_def)

lemma render_mounts: "mounts_declared d" if "kd_Containers d = kd_Containers (render_deployment m)"
  using that by (simp add: mounts_declared_def render_deployment_def Let_def zero_Container_def)

lemma adapter_name_other:
  "ModelMeshContainerName \<notin> set (adapter_names rts)" "RESTProxyContainerName \<notin> set (adapter_names rts)" "PullerContainerName \<notin> set (adapter_names rts)"
proof -
  have "HasSuffix n ''-adapter''" if "n \<in> set (adapter_names rts)" for n
    using that by (auto simp: adapter_names_def HasSuffix_iff split: option.splits)
  moreover have "\<not> HasSuffix ModelMeshContainerName ''-adapter''" "\<not> HasSuffix RESTProxyContainerName ''-adapter''"
    "\<not> HasSuffix PullerContainerName ''-adapter''" by (simp_all add: HasSuffix_def mesh_names)
  ultimately show "ModelMeshContainerName \<notin> set (adapter_names rts)" "RESTProxyContainerName \<notin> set (adapter_names rts)"
    "PullerContainerName \<notin> set (adapter_names rts)" by blast+
qed

text \<open>
  C15. The Deployment of a runtime has exactly the containers of the spec and the injected ones, and when the spec
  avoids the reserved names, as validation demands, and the adapter's name, no two of them share a name.
\<close>

theorem deployment_containers:
  assumes "Apply_manifest e m = tr_ok d"
  shows "set (names d) = c_Name ` set (sr_Containers (md_SRSpec m)) \<union> set (injected_names m) \<and>
     (c_Name ` set (sr_Containers (md_SRSpec m)) \<inter> set (injected_names m) = {} \<longrightarrow> distinct (names d))"
  using assms
proof (rule Apply_stages, goal_cases)
  case (1 d1 d2 d3 d4 d5 d6 d7 d8 d9 d10 d11 d12 d13)
  let ?spec = "c_Name ` set (sr_Containers (md_SRSpec m))" and ?proxy = "if md_RESTProxyEnabled m then [RESTProxyContainerName] else []"
    and ?puller = "if useStorageHelper (md_SRSpec m) then [PullerContainerName] else []"
  have n3: "names d3 = [ModelMeshContainerName]"
    using addVolumes_ok(1)[OF 1(1)] addMMDomainSocketMount_ok(1)[OF 1(2)] addPassThrough_ok[OF 1(3)] render_names by simp
  have n6: "names d6 = names d4" using syncGracePeriod_ok[OF 1(5)] addMMEnvVars_ok[OF 1(6)] by (simp add: keeps_shape_def)
  note r = addRuntimeToDeployment_ok[OF 1(4), unfolded n3]
  have m13: "mset (names d13) = mset (names d4 @ ?proxy)" using Apply_last_stages(1)[OF 1(7-13)] n6 by simp
  have m: "mset (names d) = mset (names d4 @ ?proxy @ ?puller)"
  proof (cases "useStorageHelper (md_SRSpec m)")
    case True
    then obtain ep where "kd_Containers d = kd_Containers d13 @ [puller_container m ep]" using 1(14) by (auto elim!: addPullerSidecar_ok)
    then show ?thesis using m13 True by (simp add: puller_container_simps(1))
  next
    case False
    then show ?thesis using m13 1(14) by auto
  qed
  have s: "set (names d) = set (names d4 @ ?proxy @ ?puller)" using m by (rule mset_eq_setD)
  have d: "distinct (names d)" if i: "?spec \<inter> set (injected_names m) = {}"
  proof -
    have "distinct (names d4)" using i adapter_name_other(1) by (intro r(2)) (auto simp: injected_names_def)
    moreover have "set (names d4) \<inter> set (?proxy @ ?puller) = {}"
      using i adapter_name_other r(1) by (auto simp: injected_names_def mesh_names)
    moreover have "distinct (?proxy @ ?puller)" by (simp add: mesh_names)
    ultimately have "distinct (names d4 @ ?proxy @ ?puller)" by simp
    then show ?thesis using m by (metis mset_eq_imp_distinct_iff)
  qed
  then show ?case using s r(1) by (auto simp: injected_names_def)
qed

text \<open>
  C14. Every volume mount of every container names a volume of the pod, provided that the endpoints of the
  runtime start with \<open>port:\<close> or \<open>unix:\<close> and the containers of the spec mount only volumes of the spec or the
  models directory. This holds for every growth of slices.
\<close>

theorem deployment_mounts_declared:
  assumes "Apply_manifest e m = tr_ok d" and "valid_endpoints (md_SRSpec m)"
    and "\<forall>c\<in>set (sr_Containers (md_SRSpec m)). mount_names (c_VolumeMounts c) \<subseteq> insert ModelsDirVolume (vol_Name ` set (sr_Volumes (md_SRSpec m)))"
  shows "mounts_declared d"
  using assms(1)
proof (rule Apply_stages, goal_cases)
  case (1 d1 d2 d3 d4 d5 d6 d7 d8 d9 d10 d11 d12 d13)
  note v1 = addVolumes_ok[OF 1(1)] and m2 = addMMDomainSocketMount_ok[OF 1(2)] and r = addRuntimeToDeployment_ok[OF 1(4)]
  have sock: "SocketVolume \<in> set (volume_names d1)" if "\<exists>ep\<in>set (runtime_endpoints (md_SRSpec m)). \<not> HasPrefix ep ''port:''"
    using that unix_endpoint_volume[OF assms(2)] unfolding v1(2) by auto
  have d1: "mounts_declared d1" by (rule render_mounts[OF v1(1)])
  have d2: "mounts_declared d2" using m2(3)[OF d1] sock mountPoint_unix by blast
  have v3: "kd_Volumes d3 = kd_Volumes d1" using addPassThrough_ok[OF 1(3)] m2(2) by simp
  have d3: "mounts_declared d3" using d2 addPassThrough_ok[OF 1(3)] mounts_declared_cong by blast
  have d4: "mounts_declared d4"
  proof (rule r(4)[OF d3])
    show "socket_declared (md_SRSpec m) (set (volume_names d3))" using socket_mount_unix sock unfolding socket_declared_def v3 by blast
    show "\<forall>c\<in>set (sr_Containers (md_SRSpec m)). mount_names (c_VolumeMounts c) \<subseteq> set (volume_names d3)"
      using assms(3) unfolding v3 v1(2) by blast
  qed (auto simp: v3 v1(2) simp del: set_map)
  have d6: "mounts_declared d6" "kd_Volumes d6 = kd_Volumes d1"
    using d4 r(3) v3 syncGracePeriod_ok[OF 1(5)] addMMEnvVars_ok[OF 1(6)] by (simp_all add: keeps_shape_def)
  note l = Apply_last_stages(3,4)[OF 1(7-13)]
  have d13: "mounts_declared d13" "set (volume_names d1) \<subseteq> set (volume_names d13)" using l d6 by simp_all
  show ?case
  proof (cases "useStorageHelper (md_SRSpec m)")
    case True
    then obtain ep where ep: "ep \<in> set (runtime_endpoints (md_SRSpec m))" "kd_Containers d = kd_Containers d13 @ [puller_container m ep]"
      "kd_Volumes d = kd_Volumes d13" using 1(14) by (auto elim!: addPullerSidecar_ok)
    have "HasPrefix ep ''port:'' \<or> SocketVolume \<in> set (volume_names d1)" using sock ep(1) by blast
    moreover have "{ModelsDirVolume, ConfigStorageMount} \<union> set (md_PVCs m) \<subseteq> set (volume_names d1)" using True unfolding v1(2) by auto
    ultimately have "mount_names (c_VolumeMounts (puller_container m ep)) \<subseteq> set (volume_names d1)"
      unfolding puller_container_simps(2) by auto
    then have p: "mount_names (c_VolumeMounts (puller_container m ep)) \<subseteq> set (volume_names d)" using d13(2) ep(3) by auto
    have "\<forall>c\<in>set (kd_Containers d13). \<forall>v\<in>set (c_VolumeMounts c). vm_Name v \<in> set (volume_names d)"
      using d13(1) ep(3) unfolding mounts_declared_def by simp
    then show ?thesis using p ep(2) unfolding mounts_declared_def by (metis Un_iff empty_iff empty_set image_subset_iff insert_iff list.simps(15) set_append)
  next
    case False
    then show ?thesis using d13 1(14) mounts_declared_cong[of d d13] by auto
  qed
qed

section \<open>When the volume mounts are as intended\<close>

definition full_slice :: "vm_store \<Rightarrow> vm_slice \<Rightarrow> bool" where
  "full_slice st vms \<longleftrightarrow> slice_ok st vms \<and> sl_len vms = length (st ! sl_array vms)"

definition stable_slice :: "vm_store \<Rightarrow> vm_slice \<Rightarrow> vm_slice \<Rightarrow> bool" where
  "stable_slice st vms s \<longleftrightarrow> slice_ok st s \<and> (sl_array s = sl_array vms \<longrightarrow> sl_len s \<le> sl_len vms)"

lemma append_to_full:
  assumes "full_slice st vms" and "slice_append grow st vms xs = (st', s')"
  shows "full_slice st' vms" "stable_slice st' vms s'" "s' = vms \<or> sl_array s' = length st"
    and "stable_slice st vms t \<Longrightarrow> stable_slice st' vms t \<and> slice_read st' t = slice_read st t"
proof -
  have f: "slice_ok st vms" "sl_len vms = length (st ! sl_array vms)" using assms(1) by (auto simp: full_slice_def)
  consider (same) "st' = st" "s' = vms" | (new) a where "st' = st @ [a]" "sl_array s' = length st"
    using assms(2) f by (auto simp: slice_append_def slice_ok_def Let_def split: if_splits)
  note c = this
  show "full_slice st' vms" using c
  proof cases
    case same
    then show ?thesis using assms(1) by simp
  next
    case (new a)
    then show ?thesis using f by (simp add: full_slice_def slice_ok_def nth_append)
  qed
  show "s' = vms \<or> sl_array s' = length st" using c by cases auto
  have ok: "slice_ok st' s'" using slice_append_ok(1)[OF f(1) assms(2)] .
  show "stable_slice st' vms s'" using c
  proof cases
    case same
    then show ?thesis using ok by (simp add: stable_slice_def)
  next
    case (new a)
    then show ?thesis using ok f(1) by (simp add: stable_slice_def slice_ok_def)
  qed
  show "stable_slice st' vms t \<and> slice_read st' t = slice_read st t" if "stable_slice st vms t"
    using slice_append_keeps[OF f(1) _ assms(2), of t] that by (auto simp: stable_slice_def)
qed

lemma append_to_own:
  assumes "slice_ok st s" "sl_array s \<noteq> sl_array vms" "slice_append grow st s xs = (st', s')" "full_slice st vms"
  shows "full_slice st' vms" "stable_slice st' vms s'"
    and "stable_slice st vms t \<Longrightarrow> sl_array t \<noteq> sl_array s \<Longrightarrow> stable_slice st' vms t \<and> slice_read st' t = slice_read st t"
proof -
  have v: "slice_ok st vms" "sl_len vms = length (st ! sl_array vms)" using assms(4) by (auto simp: full_slice_def)
  have "length (st' ! sl_array vms) = length (st ! sl_array vms)"
    using assms(2,3) v(1) by (auto simp: slice_append_def slice_ok_def Let_def nth_append split: if_splits)
  then show "full_slice st' vms"
    using slice_append_keeps(1)[OF assms(1) v(1) assms(3)] assms(2) v(2) by (auto simp: full_slice_def)
  have "sl_array s' \<noteq> sl_array vms"
    using assms(2,3) v(1) by (auto simp: slice_append_def slice_ok_def Let_def split: if_splits)
  then show "stable_slice st' vms s'" using slice_append_ok(1)[OF assms(1,3)] by (simp add: stable_slice_def)
  show "stable_slice st' vms t \<and> slice_read st' t = slice_read st t" if "stable_slice st vms t" "sl_array t \<noteq> sl_array s"
    using slice_append_keeps[OF assms(1) _ assms(3), of t] that by (auto simp: stable_slice_def)
qed

definition socket_mounts :: "ServingRuntimeSpec \<Rightarrow> VolumeMount list" where
  "socket_mounts rts = (case socket_mount rts of Some (True, dir) \<Rightarrow> [mount SocketVolume dir] | _ \<Rightarrow> [])"

definition intended_mounts :: "Deployment \<Rightarrow> VolumeMount list \<Rightarrow> VolumeMount list" where
  "intended_mounts m own = mount ModelsDirVolume ModelsDir # pvc_mounts m @ own @
     socket_mounts (md_SRSpec m)"

text \<open>Appending to the full slice and then the socket mount: the two steps for a container and for the adapter.\<close>

lemma append_socket_to_full:
  assumes "full_slice st vms" "slice_append grow st vms xs = (st1, s1)" "addDomainSocketMount grow rts st1 s1 = Some (st2, s2)"
  shows "full_slice st2 vms" "stable_slice st2 vms s2"
    "slice_read st2 s2 = slice_read st vms @ xs @ socket_mounts rts"
    and "stable_slice st vms t \<Longrightarrow> stable_slice st2 vms t \<and> slice_read st2 t = slice_read st t"
proof -
  note a = append_to_full[OF assms(1,2)]
  have ok1: "slice_ok st vms" "slice_ok st1 s1" using assms(1) a(2) by (auto simp: full_slice_def stable_slice_def)
  note r1 = slice_append_ok[OF ok1(1) assms(2)]
  obtain requires dir where d: "socket_mount rts = Some (requires, dir)"
    "(if requires then slice_append grow st1 s1 [mount SocketVolume dir] else (st1, s1)) = (st2, s2)"
    using assms(3) by (auto simp: addDomainSocketMount_def split: option.split_asm prod.split_asm)
  have *: "full_slice st2 vms \<and> stable_slice st2 vms s2 \<and>
    slice_read st2 s2 = slice_read st vms @ xs @ (if requires then [mount SocketVolume dir] else []) \<and>
    (stable_slice st vms t \<longrightarrow> stable_slice st2 vms t \<and> slice_read st2 t = slice_read st t)" for t
  proof (cases requires)
    case False
    then show ?thesis using d a r1 by auto
  next
    case True
    then have b: "slice_append grow st1 s1 [mount SocketVolume dir] = (st2, s2)" using d(2) by simp
    note r2 = slice_append_ok[OF ok1(2) b]
    show ?thesis
    proof (cases "sl_array s1 = sl_array vms")
      case same: True
      then have "s1 = vms" using a(3) ok1(1) by (auto simp: slice_ok_def)
      then show ?thesis using append_to_full[OF a(1), of grow "[mount SocketVolume dir]" st2 s2] b a(4)[of t] r1(2) r2(2) True by auto
    next
      case False
      then have "sl_array s1 = length st" using a(3) by auto
      then have "stable_slice st vms t \<Longrightarrow> sl_array t \<noteq> sl_array s1" by (auto simp: stable_slice_def slice_ok_def)
      then show ?thesis using append_to_own[OF ok1(2) False b a(1)] a(4)[of t] r1(2) r2(2) True by auto
    qed
  qed
  show "full_slice st2 vms" "stable_slice st2 vms s2" using * by blast+
  show "slice_read st2 s2 = slice_read st vms @ xs @ socket_mounts rts"
    using * d(1) by (cases requires) (auto simp: socket_mounts_def)
  show "stable_slice st2 vms t \<and> slice_read st2 t = slice_read st t" if "stable_slice st vms t" using * that by blast
qed

lemma put_slot_mem: "x \<in> set (put_slot x cs)"
  by (auto simp: put_slot_def set_update_memI dest: find_index_Some split: option.splits)

lemma put_slot_keeps:
  assumes "y \<in> set cs" and "c_Name (fst y) \<noteq> c_Name (fst x)"
  shows "y \<in> set (put_slot x cs)"
proof (cases "find_index (\<lambda>y. c_Name (fst y) = c_Name (fst x)) cs")
  case (Some i)
  then have i: "i < length cs" "c_Name (fst (cs ! i)) = c_Name (fst x)" by (auto dest: find_index_Some)
  obtain j where "j < length cs" "cs ! j = y" using assms(1) by (meson in_set_conv_nth)
  moreover from this have "j \<noteq> i" using i assms(2) by auto
  ultimately show ?thesis using Some by (auto simp: put_slot_def in_set_conv_nth intro!: exI[of _ j])
qed (use assms(1) in \<open>simp add: put_slot_def\<close>)

definition stable_slots :: "vm_store \<Rightarrow> vm_slice \<Rightarrow> slot list \<Rightarrow> bool" where
  "stable_slots st vms cs \<longleftrightarrow> (\<forall>x\<in>set cs. \<forall>s. snd x = Some s \<longrightarrow> stable_slice st vms s)"

lemma add_runtime_container_intended:
  assumes "add_runtime_container grow rts vms c (st, cs) = Some (st', cs')" and "full_slice st vms" and "stable_slots st vms cs"
  obtains c' s where "cs' = put_slot (c', Some s) cs" "c_Name c' = c_Name c"
    "slice_read st' s = slice_read st vms @ c_VolumeMounts c @ socket_mounts rts"
    "full_slice st' vms" "stable_slots st' vms cs'" "\<forall>t. stable_slice st vms t \<longrightarrow> stable_slice st' vms t \<and> slice_read st' t = slice_read st t"
proof -
  obtain st1 s1 where a: "slice_append grow st vms (c_VolumeMounts c) = (st1, s1)" by force
  obtain c' s2 where b: "addDomainSocketMount grow rts st1 s1 = Some (st', s2)" and c: "cs' = put_slot (c', Some s2) cs" "c_Name c' = c_Name c"
    using assms(1) by (auto simp: add_runtime_container_def Let_def a)
  note r = append_socket_to_full[OF assms(2) a b]
  have "stable_slots st' vms cs'"
    using set_put_slot[of "(c', Some s2)" cs] r(2,4) assms(3) unfolding stable_slots_def c(1) by fastforce
  then show thesis using that[OF c r(3,1)] r(4) by blast
qed

lemma add_runtime_containers_intended:
  assumes "add_runtime_containers grow rts vms specs (st, cs) = Some (st', cs')" and "full_slice st vms" and "stable_slots st vms cs"
    and "distinct (map c_Name specs)"
  shows "full_slice st' vms \<and> stable_slots st' vms cs' \<and> slice_read st' vms = slice_read st vms \<and>
     (\<forall>x\<in>set cs. c_Name (fst x) \<notin> c_Name ` set specs \<longrightarrow> x \<in> set cs') \<and>
     (\<forall>t. stable_slice st vms t \<longrightarrow> stable_slice st' vms t \<and> slice_read st' t = slice_read st t) \<and>
     (\<forall>c\<in>set specs. \<exists>c' s. (c', Some s) \<in> set cs' \<and> c_Name c' = c_Name c \<and> slice_read st' s =
        slice_read st vms @ c_VolumeMounts c @ socket_mounts rts)"
  using assms
proof (induction specs arbitrary: st cs)
  case (Cons c specs)
  then obtain st1 cs1 where r: "add_runtime_container grow rts vms c (st, cs) = Some (st1, cs1)"
    "add_runtime_containers grow rts vms specs (st1, cs1) = Some (st', cs')"
    by (auto simp: bind_eq_Some_conv simp del: add_runtime_containers.simps(1))
  obtain c' s where s: "cs1 = put_slot (c', Some s) cs" "c_Name c' = c_Name c"
    "slice_read st1 s = slice_read st vms @ c_VolumeMounts c @ socket_mounts rts"
    "full_slice st1 vms" "stable_slots st1 vms cs1" "\<forall>t. stable_slice st vms t \<longrightarrow> stable_slice st1 vms t \<and> slice_read st1 t = slice_read st t"
    using r(1) Cons.prems(2,3) by (rule add_runtime_container_intended)
  have vs: "stable_slice st vms vms" using Cons.prems(2) by (simp add: full_slice_def stable_slice_def)
  note vms1 = s(6)[rule_format, OF vs]
  note IH = Cons.IH[OF r(2) s(4,5)]
  have d: "distinct (map c_Name specs)" "c_Name c \<notin> c_Name ` set specs" using Cons.prems(4) by auto
  have m: "(c', Some s) \<in> set cs1" unfolding s(1) by (rule put_slot_mem)
  then have "stable_slice st1 vms s" using s(5) unfolding stable_slots_def by force
  moreover have "(c', Some s) \<in> set cs'" using IH[OF d(1)] m d(2) s(2) by auto
  ultimately have c: "\<exists>c' s. (c', Some s) \<in> set cs' \<and> c_Name c' = c_Name c \<and> slice_read st' s =
        slice_read st vms @ c_VolumeMounts c @ socket_mounts rts"
    using IH[OF d(1)] s(2,3) by metis
  have k: "x \<in> set cs'" if "x \<in> set cs" "c_Name (fst x) \<notin> c_Name ` set (c # specs)" for x
    using IH[OF d(1)] put_slot_keeps[OF that(1), of "(c', Some s)"] that(2) s(1,2) by auto
  show ?case using IH[OF d(1)] vms1 s(6) c k by auto
qed simp

text \<open>
  C16. If the slice of the common mounts is full, as it is when the growth of slices is exact or the number of claims is
  one less than a power of two, every container of the spec is deployed with the models directory, the claims, its own
  mounts and the socket, in this order.
\<close>

theorem runtime_mounts_as_intended:
  assumes "addRuntimeToDeployment e m d = tr_ok d'"
    and "append_mounts (de_grow e) (pvc_mounts m) (common_mounts m) = (st0, vms)" and "full_slice st0 vms"
    and "distinct (map c_Name (sr_Containers (md_SRSpec m)))" and "c \<in> set (sr_Containers (md_SRSpec m))"
  shows "\<exists>c'. c' \<in> set (kd_Containers d') \<and> c_Name c' = c_Name c \<and> c_VolumeMounts c' = intended_mounts m (c_VolumeMounts c)"
  using assms(1)
proof (rule addRuntimeToDeployment_stages, goal_cases)
  case (1 st0' vms' st1 cs1 st cs)
  have e: "st0' = st0" "vms' = vms" using 1(1) assms(2) by auto
  have "stable_slots st0 vms (map (\<lambda>c. (c, None)) (kd_Containers d))" by (auto simp: stable_slots_def)
  note r = add_runtime_containers_intended[OF 1(2)[unfolded e] assms(3) this assms(4)]
  have i: "slice_read st0 vms @ c_VolumeMounts c @ socket_mounts (md_SRSpec m)
      = intended_mounts m (c_VolumeMounts c)"
    using common_slice_ok[OF assms(2)] by (simp add: intended_mounts_def)
  obtain c' s where c': "(c', Some s) \<in> set cs1" "c_Name c' = c_Name c" "slice_read st1 s = intended_mounts m (c_VolumeMounts c)"
    using r assms(5) i by metis
  have "(c', Some s) \<in> set cs \<and> slice_read st s = slice_read st1 s"
  proof (cases "sr_BuiltInAdapter (md_SRSpec m)")
    case None
    then show ?thesis using 1(3) c'(1) by simp
  next
    case (Some a)
    then have "add_adapter e m a vms (st1, cs1) = Inr (st, cs)" using 1(3) e by simp
    then obtain ac as where ad: "cs = cs1 @ [(ac, Some as)]" "adapter_mounts (de_grow e) (md_SRSpec m) vms st1 = Some (st, as)"
      by (rule add_adapter_ok)
    obtain st2 s2 where a: "slice_append (de_grow e) st1 vms [ro_mount ConfigStorageMount PullerConfigPath] = (st2, s2)" by force
    have f: "full_slice st1 vms" and st: "stable_slice st1 vms s" using r c'(1) by (auto simp: stable_slots_def)
    have "slice_read st s = slice_read st1 s"
      using append_to_full(4)[OF f a st] append_socket_to_full(4)[OF f a _ st] ad(2) by (auto simp: adapter_mounts_def a split: if_splits)
    then show ?thesis using c'(1) ad(1) by simp
  qed
  then have "read_slot st (c', Some s) \<in> set (kd_Containers d')" "slice_read st s = slice_read st1 s" using 1(4) by auto
  then show ?case using c' by (intro exI[of _ "read_slot st (c', Some s)"]) (simp add: read_slot_def)
qed

section \<open>Examples\<close>

definition sample_env :: "(nat \<Rightarrow> nat \<Rightarrow> nat) \<Rightarrow> deploy_env" where
  "sample_env grow = \<lparr>de_ks = \<lparr>ks_ProtocolV1 = ''v1'', ks_ProtocolV2 = ''v2'', ks_ProtocolGRPCV2 = ''grpc-v2'', ks_ProtocolUnknown = []\<rparr>,
     de_Union = concat, de_StorageSecretName = ''storage-config'', de_GetSecret = (\<lambda>n. Inl NotFound), de_GetConfigMap = (\<lambda>_. None), de_grow = grow\<rparr>"

definition sample_md :: "ServingRuntimeSpec \<Rightarrow> string list \<Rightarrow> Deployment" where
  "sample_md rts pvcs = \<lparr>md_ServiceName = ''s'', md_ServicePort = 8033, md_Name = ''r'', md_Namespace = ''ns'', md_OwnerAnnotations = [], md_SRSpec = rts,
     md_DefaultVModelOwner = ''ksp'', md_Metrics = False, md_PrometheusPort = 2112, md_PrometheusScheme = ''https'', md_PayloadProcessors = [],
     md_ModelMeshImage = ''mm:1'', md_ModelMeshResources = \<lparr>res_Limits = [], res_Requests = []\<rparr>, md_RESTProxyEnabled = False, md_RESTProxySkipVerify = False,
     md_RESTProxyImage = ''p:1'', md_RESTProxyResources = \<lparr>res_Limits = [], res_Requests = []\<rparr>, md_RESTProxyPort = 8008, md_PVCs = pvcs,
     md_ModelMeshAdditionalEnvVars = [], md_PullerImage = ''a:1'', md_PullerImageCommand = [], md_PullerResources = \<lparr>res_Limits = [], res_Requests = []\<rparr>,
     md_Replicas = 2, md_Port = 8033, md_TLSSecretName = [], md_TLSClientAuth = [], md_EtcdSecretName = ''e'', md_ServiceAccountName = [],
     md_GrpcMaxMessageSize = 0, md_AnnotationsMap = [], md_LabelsMap = [], md_ImagePullSecrets = [], md_EnableAccessLogging = False\<rparr>"

definition sample_spec :: ServingRuntimeSpec where
  "sample_spec = zero_RuntimeSpec
     \<lparr>sr_Containers := [zero_Container\<lparr>c_Name := ''rt'', c_Image := ''i:2''\<rparr>], sr_GrpcDataEndpoint := Some ''unix:///s/d.sock'',
      sr_GrpcMultiModelManagementEndpoint := Some ''port:8001''\<rparr>"

definition adapter_spec :: ServingRuntimeSpec where
  "adapter_spec = sample_spec\<lparr>sr_BuiltInAdapter := Some \<lparr>ba_ServerType = ''rt'', ba_RuntimeManagementPort = 8001, ba_MemBufferBytes = 0,
     ba_ModelLoadingTimeoutMillis = 0, ba_Env = []\<rparr>\<rparr>"

definition succeeded :: "'a tr \<Rightarrow> bool" where
  "succeeded r = (case r of Some (Inr _) \<Rightarrow> True | _ \<Rightarrow> False)"

lemma succeededE: "succeeded r \<Longrightarrow> \<exists>a. r = tr_ok a"
  by (auto simp: succeeded_def split: option.splits sum.splits)

lemma sample_applied: "succeeded (Apply_manifest (sample_env go_grow) (sample_md sample_spec [''p'']))"
  by code_simp

lemma sample_mounts: "\<forall>c\<in>set (sr_Containers (md_SRSpec (sample_md sample_spec pvcs))).
    mount_names (c_VolumeMounts c) \<subseteq> insert ModelsDirVolume (vol_Name ` set (sr_Volumes (md_SRSpec (sample_md sample_spec pvcs))))"
  by (simp add: sample_md_def sample_spec_def zero_RuntimeSpec_def zero_Container_def)

theorem mm_container_position_witness:
  "\<exists>d cs mm ep. Apply_manifest (sample_env go_grow) (sample_md sample_spec [''p'']) = tr_ok d \<and> c_Name mm = ModelMeshContainerName \<and>
     kd_Containers d = cs @ [mm, puller_container (sample_md sample_spec [''p'']) ep]"
proof -
  obtain d where d: "Apply_manifest (sample_env go_grow) (sample_md sample_spec [''p'']) = tr_ok d" using succeededE[OF sample_applied] by blast
  have "useStorageHelper (md_SRSpec (sample_md sample_spec [''p'']))" by (simp add: sample_md_def sample_spec_def zero_RuntimeSpec_def useStorageHelper_def)
  then show ?thesis using mm_container_position[OF d] d by auto
qed

theorem deployment_containers_witness:
  "\<exists>d. Apply_manifest (sample_env go_grow) (sample_md sample_spec [''p'']) = tr_ok d \<and> distinct (names d) \<and> ''rt'' \<in> set (names d)"
proof -
  obtain d where d: "Apply_manifest (sample_env go_grow) (sample_md sample_spec [''p'']) = tr_ok d" using succeededE[OF sample_applied] by blast
  have "c_Name ` set (sr_Containers (md_SRSpec (sample_md sample_spec [''p'']))) = {''rt''}" "''rt'' \<notin> set (injected_names (sample_md sample_spec [''p'']))"
    by (auto simp: sample_md_def sample_spec_def zero_RuntimeSpec_def injected_names_def adapter_names_def mesh_names)
  then show ?thesis using deployment_containers[OF d] d by auto
qed

theorem deployment_mounts_declared_witness:
  "\<exists>d. Apply_manifest (sample_env go_grow) (sample_md sample_spec [''p'']) = tr_ok d \<and> mounts_declared d"
proof -
  obtain d where d: "Apply_manifest (sample_env go_grow) (sample_md sample_spec [''p'']) = tr_ok d" using succeededE[OF sample_applied] by blast
  have "valid_endpoints (md_SRSpec (sample_md sample_spec [''p'']))" by code_simp
  from deployment_mounts_declared[OF d this sample_mounts] show ?thesis using d by blast
qed

lemma adapter_applied: "succeeded (addRuntimeToDeployment (sample_env go_grow) (sample_md adapter_spec [''p'']) (render_deployment (sample_md adapter_spec [''p''])))"
  by code_simp

theorem runtime_mounts_as_intended_witness:
  "\<exists>d c'. addRuntimeToDeployment (sample_env go_grow) (sample_md adapter_spec [''p'']) (render_deployment (sample_md adapter_spec [''p''])) = tr_ok d \<and>
     c' \<in> set (kd_Containers d) \<and> c_Name c' = ''rt'' \<and> c_VolumeMounts c' = intended_mounts (sample_md adapter_spec [''p'']) []"
proof -
  let ?m = "sample_md adapter_spec [''p'']"
  obtain d where d: "addRuntimeToDeployment (sample_env go_grow) ?m (render_deployment ?m) = tr_ok d" using succeededE[OF adapter_applied] by blast
  have v: "append_mounts (de_grow (sample_env go_grow)) (pvc_mounts ?m) (common_mounts ?m) =
      ([[mount ModelsDirVolume ModelsDir], [mount ModelsDirVolume ModelsDir, ro_mount ''p'' ''/pvc_mounts/p'']], \<lparr>sl_array = 1, sl_len = 2\<rparr>)"
    by code_simp
  have f: "full_slice [[mount ModelsDirVolume ModelsDir], [mount ModelsDirVolume ModelsDir, ro_mount ''p'' ''/pvc_mounts/p'']] \<lparr>sl_array = 1, sl_len = 2\<rparr>"
    by (simp add: full_slice_def slice_ok_def)
  have c: "sr_Containers (md_SRSpec ?m) = [zero_Container\<lparr>c_Name := ''rt'', c_Image := ''i:2''\<rparr>]"
    by (simp add: sample_md_def adapter_spec_def sample_spec_def)
  show ?thesis using runtime_mounts_as_intended[OF d v f, of "zero_Container\<lparr>c_Name := ''rt'', c_Image := ''i:2''\<rparr>"] d
    by (auto simp: c zero_Container_def)
qed


end
