(* ===== verification/Cluster_Config.thy ===== *)
theory Cluster_Config
  imports Runtime_Types
begin

text \<open>
  The objects that tell the model-mesh of a namespace what it needs: the ConfigMap with the type constraints
  (controllers/modelmesh/cluster\_config.go) and the etcd secret (pkg/mmesh/etcd\_secret.go). The API server is a record of
  answers; the requests that change something are returned in order.
\<close>

section \<open>Type constraints\<close>

definition defaultTypeConstraint :: string where
  "defaultTypeConstraint = ''_default''"

type_synonym constraints = "(string, string list) gomap"

definition runtime_constraints :: "ks_protocols \<Rightarrow> bool \<Rightarrow> string \<times> ServingRuntimeSpec \<Rightarrow> constraints \<Rightarrow> constraints" where
  "runtime_constraints ks restProxyEnabled = (\<lambda>(name, spec) m.
     if \<not> sr_IsDisabled spec \<and> sr_IsMultiModelRuntime spec then
       (let (mtLabels, pvLabels, rtLabel) =
              GetServingRuntimeLabelSets ks (sr_SupportedModelFormats spec) (sr_ProtocolVersions spec) restProxyEnabled name
        in fold (\<lambda>l m. fold (\<lambda>pvl. gomap_set (l @ ''|'' @ pvl) [l, pvl]) pvLabels (gomap_set l [l] m)) mtLabels
             (gomap_set rtLabel [rtLabel] m))
     else m)"

definition constraint_map :: "ks_protocols \<Rightarrow> (string, ServingRuntimeSpec) gomap \<Rightarrow> bool \<Rightarrow> constraints" where
  "constraint_map ks srSpecs restProxyEnabled =
     gomap_set defaultTypeConstraint [ModelTypeLabelThatNoRuntimeSupports] (fold (runtime_constraints ks restProxyEnabled) srSpecs [])"

definition calculateConstraintData :: "ks_protocols \<Rightarrow> (string, ServingRuntimeSpec) gomap \<Rightarrow> bool \<Rightarrow> string" where
  "calculateConstraintData ks srSpecs restProxyEnabled =
     json_encode (JObject (map (\<lambda>(k, required). (k, JObject [(''required'', JArray (map JString required))]))
       (sort_keys (constraint_map ks srSpecs restProxyEnabled))))"

definition dataPlaneApiJsonConfigBytes :: string where
  "dataPlaneApiJsonConfigBytes = join_with [CHR 0x0A]
     [''{'',
      ''    \"rpcConfigs\": {'',
      ''        \"inference.GRPCInferenceService/ModelInfer\": {'',
      ''            \"idExtractionPath\": [1],'',
      ''            \"vModelId\": true'',
      ''        },'',
      ''        \"inference.GRPCInferenceService/ModelMetadata\": {'',
      ''            \"idExtractionPath\": [1],'',
      ''            \"vModelId\": true'',
      ''        },'',
      ''        \"tensorflow.serving.PredictionService/Predict\": {'',
      ''            \"idExtractionPath\": [1, 1],'',
      ''            \"vModelId\": true'',
      ''        },'',
      ''        \"org.pytorch.serve.grpc.inference.InferenceAPIsService/Predictions\": {'',
      ''            \"idExtractionPath\": [1],'',
      ''            \"vModelId\": true'',
      ''        }'',
      ''    },'',
      ''    \"allowOtherRpcs\": true'',
      ''}'']"

section \<open>The ConfigMap\<close>

text \<open>A ConfigMap with its \<open>BinaryData\<close>, or a Secret with its \<open>Data\<close>; bytes are characters.\<close>

record data_object =
  do_Meta :: ObjectMeta
  do_Data :: "(string, string) gomap"

definition zero_data_object :: data_object where
  "zero_data_object = \<lparr>do_Meta = zero_Meta, do_Data = []\<rparr>"

record object_client =
  ocl_Get :: "NamespacedName \<Rightarrow> api_error + data_object"
  ocl_Create :: "data_object \<Rightarrow> api_error option"
  ocl_Update :: "data_object \<Rightarrow> api_error option"
  ocl_Delete :: "data_object \<Rightarrow> api_error option"

datatype object_call = ObjCreate data_object | ObjUpdate data_object | ObjDelete data_object

definition MMTypeConstraintsKey :: string where
  "MMTypeConstraintsKey = ''type_constraints''"

definition MMDataPlaneConfigKey :: string where
  "MMDataPlaneConfigKey = ''dataplane_api_config''"

definition addConstraints :: "ks_protocols \<Rightarrow> (string, ServingRuntimeSpec) gomap \<Rightarrow> data_object \<Rightarrow> bool \<Rightarrow> data_object" where
  "addConstraints ks srSpecs m restProxyEnabled =
     (let b = calculateConstraintData ks srSpecs restProxyEnabled
      in m\<lparr>do_Data := gomap_set MMDataPlaneConfigKey dataPlaneApiJsonConfigBytes
              (gomap_set MMTypeConstraintsKey b (do_Data m))\<rparr>)"

definition config_map_meta :: "string \<Rightarrow> ObjectMeta" where
  "config_map_meta namespace = zero_Meta
     \<lparr>om_Name := InternalConfigMapName, om_Namespace := namespace,
      om_Labels := [(''app.kubernetes.io/instance'', ''modelmesh-controller''),
        (''app.kubernetes.io/managed-by'', ''modelmesh-controller''), (''app.kubernetes.io/name'', ''modelmesh-controller'')]\<rparr>"

definition ClusterConfig_Reconcile ::
  "ks_protocols \<Rightarrow> object_client \<Rightarrow> (string, ServingRuntimeSpec) gomap \<Rightarrow> string \<Rightarrow> bool \<Rightarrow> api_error option \<times> object_call list" where
  "ClusterConfig_Reconcile ks cl srSpecs namespace restProxyEnabled =
     (let put = (\<lambda>m. addConstraints ks srSpecs (m\<lparr>do_Meta := config_map_meta namespace\<rparr>) restProxyEnabled)
      in case ocl_Get cl \<lparr>nn_Namespace = namespace, nn_Name = InternalConfigMapName\<rparr> of
           Inl NotFound \<Rightarrow>
             if srSpecs = [] then (None, [])
             else (let m = put zero_data_object in (ocl_Create cl m, [ObjCreate m]))
         | Inl err \<Rightarrow> (Some err, [])
         | Inr found \<Rightarrow>
             if srSpecs = [] then (ocl_Delete cl found, [ObjDelete found])
             else (let m = put found in (ocl_Update cl m, [ObjUpdate m])))"

section \<open>The etcd secret\<close>

record EtcdConfig =
  ec_Endpoints :: string
  ec_Username :: string
  ec_Password :: string
  ec_RootPrefix :: string
  ec_Certificate :: string
  ec_CertificateFile :: string
  ec_ClientKey :: string
  ec_ClientKeyFile :: string
  ec_ClientCertificate :: string
  ec_ClientCertificateFile :: string
  ec_OverrideAuthority :: string

definition omit_empty_string :: "string \<Rightarrow> string \<Rightarrow> (string \<times> json) list" where
  "omit_empty_string k v = (if v = [] then [] else [(k, JString v)])"

definition json_EtcdConfig :: "EtcdConfig \<Rightarrow> json" where
  "json_EtcdConfig c = JObject
     ([(''endpoints'', JString (ec_Endpoints c))] @
      omit_empty_string ''userid'' (ec_Username c) @
      omit_empty_string ''password'' (ec_Password c) @
      omit_empty_string ''root_prefix'' (ec_RootPrefix c) @
      omit_empty_string ''certificate'' (ec_Certificate c) @
      omit_empty_string ''certificate_file'' (ec_CertificateFile c) @
      omit_empty_string ''client_key'' (ec_ClientKey c) @
      omit_empty_string ''client_key_file'' (ec_ClientKeyFile c) @
      omit_empty_string ''client_certificate'' (ec_ClientCertificate c) @
      omit_empty_string ''client_certificate_file'' (ec_ClientCertificateFile c) @
      omit_empty_string ''override_authority'' (ec_OverrideAuthority c))"

text \<open>
  \<open>addData\<close> changes the configuration its receiver points to, so the new one is returned. Marshalling a
  struct of strings does not fail.
\<close>

definition EtcdSecret_addData :: "string \<Rightarrow> EtcdConfig \<Rightarrow> data_object \<Rightarrow> EtcdConfig \<times> data_object" where
  "EtcdSecret_addData namespace config s =
     (let config' = config\<lparr>ec_RootPrefix := ec_RootPrefix config @ ''/mm_ns/'' @ namespace\<rparr>;
          b = json_encode (json_EtcdConfig config')
      in (config', s\<lparr>do_Data := gomap_set EtcdSecretKey b (do_Data s)\<rparr>))"

definition EtcdSecret_Apply ::
  "object_client \<Rightarrow> string \<Rightarrow> string \<Rightarrow> EtcdConfig \<Rightarrow> (api_error option \<times> object_call list) \<times> EtcdConfig" where
  "EtcdSecret_Apply cl name namespace config =
     (let meta = zero_Meta\<lparr>om_Name := name, om_Namespace := namespace,
            om_Labels := [(''app.kubernetes.io/managed-by'', ''modelmesh-controller'')]\<rparr>;
          put = (\<lambda>s. EtcdSecret_addData namespace config (s\<lparr>do_Meta := meta\<rparr>))
      in case ocl_Get cl \<lparr>nn_Namespace = namespace, nn_Name = name\<rparr> of
           Inl NotFound \<Rightarrow> (let (config', s) = put zero_data_object in ((ocl_Create cl s, [ObjCreate s]), config'))
         | Inl err \<Rightarrow> ((Some err, []), config)
         | Inr found \<Rightarrow> (let (config', s) = put found in ((ocl_Update cl s, [ObjUpdate s]), config')))"

section \<open>What the constraints say\<close>

text \<open>The label expressions an enabled runtime answers for.\<close>

definition runtime_keys :: "ks_protocols \<Rightarrow> bool \<Rightarrow> string \<times> ServingRuntimeSpec \<Rightarrow> string set" where
  "runtime_keys ks rest = (\<lambda>(name, spec).
     if \<not> sr_IsDisabled spec \<and> sr_IsMultiModelRuntime spec then
       {''rt:'' @ name} \<union> set (mt_labels (sr_SupportedModelFormats spec)) \<union>
       {l @ ''|'' @ pvl | l pvl. l \<in> set (mt_labels (sr_SupportedModelFormats spec)) \<and> pvl \<in> set (pv_labels ks rest (sr_ProtocolVersions spec))}
     else {})"

definition labels_plain :: "ks_protocols \<Rightarrow> bool \<Rightarrow> string \<times> ServingRuntimeSpec \<Rightarrow> bool" where
  "labels_plain ks rest = (\<lambda>(name, spec). \<forall>l \<in> set (sr_LabelSet ks spec rest name). CHR ''|'' \<notin> set l)"

text \<open>A map in which every key is bound to its own parts.\<close>

definition bound_to_parts :: "constraints \<Rightarrow> string set \<Rightarrow> bool" where
  "bound_to_parts m K \<longleftrightarrow> (\<forall>q. gomap_get m q = (if q \<in> K then Some (split_on CHR ''|'' q) else None))"

lemma bound_to_parts_set:
  "bound_to_parts m K \<Longrightarrow> split_on CHR ''|'' k = v \<Longrightarrow> bound_to_parts (gomap_set k v m) (insert k K)"
  by (auto simp: bound_to_parts_def)

lemma bound_to_parts_fold:
  assumes "\<And>x m K. x \<in> set xs \<Longrightarrow> bound_to_parts m K \<Longrightarrow> bound_to_parts (f x m) (K \<union> g x)"
  shows "bound_to_parts m K \<Longrightarrow> bound_to_parts (fold f xs m) (K \<union> (\<Union>x \<in> set xs. g x))"
  using assms by (induction xs arbitrary: m K) (simp_all add: Un_assoc[symmetric])

lemma split_on_pair: "CHR ''|'' \<notin> set a \<Longrightarrow> CHR ''|'' \<notin> set b \<Longrightarrow> split_on CHR ''|'' (a @ ''|'' @ b) = [a, b]"
  by (simp add: split_on_append split_on_no_sep)

lemma runtime_constraints_parts:
  assumes "labels_plain ks rest r" and "bound_to_parts m K"
  shows "bound_to_parts (runtime_constraints ks rest r m) (K \<union> runtime_keys ks rest r)"
proof (cases r)
  case (Pair name spec)
  let ?mt = "mt_labels (sr_SupportedModelFormats spec)" and ?pv = "pv_labels ks rest (sr_ProtocolVersions spec)"
  have plain: "CHR ''|'' \<notin> set l" if "l \<in> set ?mt \<or> l \<in> set ?pv \<or> l = ''rt:'' @ name" for l
    using assms(1) that unfolding Pair labels_plain_def set_GetServingRuntimeLabelSet by auto
  have inner: "bound_to_parts (fold (\<lambda>pvl. gomap_set (l @ ''|'' @ pvl) [l, pvl]) ?pv n)
      (L \<union> (\<Union>pvl \<in> set ?pv. {l @ ''|'' @ pvl}))" if l: "l \<in> set ?mt" and n: "bound_to_parts n L" for l n L
    using n by (rule bound_to_parts_fold[rotated])
      (simp only: Un_insert_right Un_empty_right, intro bound_to_parts_set split_on_pair; use plain l in blast)
  have outer: "bound_to_parts (fold (\<lambda>l m. fold (\<lambda>pvl. gomap_set (l @ ''|'' @ pvl) [l, pvl]) ?pv (gomap_set l [l] m)) ?mt n)
      (L \<union> (\<Union>l \<in> set ?mt. insert l (\<Union>pvl \<in> set ?pv. {l @ ''|'' @ pvl})))" if n: "bound_to_parts n L" for n L
  proof (rule bound_to_parts_fold[OF _ n])
    fix l m' K' assume l: "l \<in> set ?mt" and m': "bound_to_parts m' K'"
    have "bound_to_parts (gomap_set l [l] m') (insert l K')"
      by (rule bound_to_parts_set[OF m']) (use plain l in \<open>simp add: split_on_no_sep\<close>)
    from inner[OF l this]
    show "bound_to_parts (fold (\<lambda>pvl. gomap_set (l @ ''|'' @ pvl) [l, pvl]) ?pv (gomap_set l [l] m'))
        (K' \<union> insert l (\<Union>pvl \<in> set ?pv. {l @ ''|'' @ pvl}))" by simp
  qed
  have rt: "bound_to_parts (gomap_set (''rt:'' @ name) [''rt:'' @ name] m) (insert (''rt:'' @ name) K)"
    by (rule bound_to_parts_set[OF assms(2)], rule split_on_no_sep, rule plain, simp)
  have keys: "runtime_keys ks rest r = (if \<not> sr_IsDisabled spec \<and> sr_IsMultiModelRuntime spec
      then insert (''rt:'' @ name) (\<Union>l \<in> set ?mt. insert l (\<Union>pvl \<in> set ?pv. {l @ ''|'' @ pvl})) else {})"
    unfolding runtime_keys_def Pair by auto
  show ?thesis
    using outer[OF rt] assms(2) keys unfolding Pair runtime_constraints_def GetServingRuntimeLabelSets_def by simp
qed

lemma constraint_map_get:
  assumes "\<forall>r \<in> set srSpecs. labels_plain ks rest r" and "q \<noteq> defaultTypeConstraint"
  shows "gomap_get (constraint_map ks srSpecs rest) q =
     (if q \<in> (\<Union>r \<in> set srSpecs. runtime_keys ks rest r) then Some (split_on CHR ''|'' q) else None)"
proof -
  have "bound_to_parts (fold (runtime_constraints ks rest) srSpecs []) ({} \<union> (\<Union>r \<in> set srSpecs. runtime_keys ks rest r))"
    by (rule bound_to_parts_fold) (use assms(1) runtime_constraints_parts in \<open>auto simp: bound_to_parts_def\<close>)
  with assms(2) show ?thesis by (simp add: constraint_map_def bound_to_parts_def)
qed

end
