(* ===== verification/Config.thy ===== *)
theory Config
  imports Runtime_Types
begin

text \<open>
  The configuration of the controller (pkg/config/config.go): the \<open>Config\<close> record, merging the user's YAML into the
  defaults, and the \<open>ConfigProvider\<close> that serves snapshots and reloads them when the user's ConfigMap changes.

  Viper, the library that reads the YAML and merges it with the defaults, and the parser of Kubernetes quantities are
  arguments (\<open>viper\<close>, \<open>parseQuantity\<close>). The atomic pointer to the current snapshot is the field \<open>cp_config\<close>; the mutex
  makes one reload a single step. A panic is \<open>None\<close>.
\<close>

section \<open>Data\<close>

record ImageConfig =
  im_Name :: string
  im_Tag :: string
  im_Digest :: string
  im_Command :: "string list"

record ResourceQuantities =
  rq_CPU :: string
  rq_Memory :: string

record ConfigResources =
  rs_Requests :: ResourceQuantities
  rs_Limits :: ResourceQuantities
  rs_parsed :: "ResourceRequirements option"

record RESTProxyConfig =
  rp_Enabled :: bool
  rp_SkipVerify :: bool
  rp_Port :: u16
  rp_Image :: ImageConfig
  rp_Resources :: ConfigResources

record TLSConfig =
  tc_SecretName :: string
  tc_ClientAuth :: string

record PrometheusConfig =
  pm_Enabled :: bool
  pm_Port :: u16
  pm_Scheme :: string
  pm_DisablePrometheusOperatorSupport :: bool

record ScaleToZeroConfig =
  sz_Enabled :: bool
  sz_GracePeriodSeconds :: u16

record Config =
  cfg_EtcdSecretName :: string
  cfg_ModelMeshEndpoint :: string
  cfg_AllowAnyPVC :: bool
  cfg_InferenceServiceName :: string
  cfg_InferenceServicePort :: u16
  cfg_TLS :: TLSConfig
  cfg_HeadlessService :: bool
  cfg_GrpcMaxMessageSizeBytes :: int
  cfg_ModelMeshImage :: ImageConfig
  cfg_ModelMeshResources :: ConfigResources
  cfg_RESTProxy :: RESTProxyConfig
  cfg_StorageHelperImage :: ImageConfig
  cfg_StorageHelperResources :: ConfigResources
  cfg_PodsPerRuntime :: u16
  cfg_StorageSecretName :: string
  cfg_EnableAccessLogging :: bool
  cfg_BuiltInServerTypes :: "string list"
  cfg_PayloadProcessors :: "string list"
  cfg_ServiceAccountName :: string
  cfg_Metrics :: PrometheusConfig
  cfg_ScaleToZero :: ScaleToZeroConfig
  cfg_RuntimePodLabels :: "(string, string) gomap"
  cfg_RuntimePodAnnotations :: "(string, string) gomap"
  cfg_ImagePullSecrets :: "string list"
  cfg_InternalModelMeshEnvVars :: "(string \<times> string) list"

datatype config_error =
    ConfigMapGet api_error
  | MissingConfigYaml
  | ReadConfig string
  | UnmarshalConfig string
  | BadResources string string
  | SpaceInProcessor string

section \<open>Derived values\<close>

definition EnvVarList_ToKubernetesType :: "(string \<times> string) list \<Rightarrow> EnvVar list" where
  "EnvVarList_ToKubernetesType evl = map (\<lambda>(name, val). \<lparr>ev_Name = name, ev_Value = val, ev_ValueFrom = None\<rparr>) evl"

definition DefaultEtcdSecretName :: string where
  "DefaultEtcdSecretName = ''model-serving-etcd''"

text \<open>\<open>env\<close> is the environment variable \<open>ETCD_SECRET_NAME\<close>.\<close>

definition GetEtcdSecretName :: "string option \<Rightarrow> Config \<Rightarrow> string" where
  "GetEtcdSecretName env c =
     (let secretName = (case env of None \<Rightarrow> DefaultEtcdSecretName | Some n \<Rightarrow> n)
      in if secretName = DefaultEtcdSecretName \<and> cfg_EtcdSecretName c \<noteq> [] then cfg_EtcdSecretName c else secretName)"

definition TaggedImage :: "ImageConfig \<Rightarrow> string" where
  "TaggedImage m =
     (if im_Digest m \<noteq> [] then im_Name m @ ''@'' @ im_Digest m
      else if im_Tag m \<noteq> [] then im_Name m @ '':'' @ im_Tag m
      else im_Name m)"

definition Resources_ToKubernetesType :: "ConfigResources \<Rightarrow> ResourceRequirements option" where
  "Resources_ToKubernetesType rr = rs_parsed rr"

type_synonym quantity_parser = "string \<Rightarrow> string + Quantity"

definition parse_field :: "quantity_parser \<Rightarrow> string \<Rightarrow> string \<Rightarrow> string + Quantity" where
  "parse_field parseQuantity field s = (case parseQuantity s of Inl _ \<Rightarrow> Inl field | Inr q \<Rightarrow> Inr q)"

definition parseAndValidate :: "quantity_parser \<Rightarrow> ConfigResources \<Rightarrow> string + ConfigResources" where
  "parseAndValidate parseQuantity rr =
     (case parse_field parseQuantity ''Limits.CPU'' (rq_CPU (rs_Limits rr)) of
        Inl e \<Rightarrow> Inl e
      | Inr limitsCPU \<Rightarrow>
          (case parse_field parseQuantity ''Requests.CPU'' (rq_CPU (rs_Requests rr)) of
             Inl e \<Rightarrow> Inl e
           | Inr requestsCPU \<Rightarrow>
               (case parse_field parseQuantity ''Limits.Memory'' (rq_Memory (rs_Limits rr)) of
                  Inl e \<Rightarrow> Inl e
                | Inr limitsMemory \<Rightarrow>
                    (case parse_field parseQuantity ''Requests.Memory'' (rq_Memory (rs_Requests rr)) of
                       Inl e \<Rightarrow> Inl e
                     | Inr requestsMemory \<Rightarrow>
                         Inr (rr\<lparr>rs_parsed := Some
                           \<lparr>res_Limits = [(''cpu'', limitsCPU), (''memory'', limitsMemory)],
                            res_Requests = [(''cpu'', requestsCPU), (''memory'', requestsMemory)]\<rparr>\<rparr>)))))"

section \<open>Merging\<close>

text \<open>
  Viper as it is used: \<open>vp_Read\<close> makes an instance with the defaults and reads the YAML into it, \<open>vp_default_GetString\<close>
  reads the instance with the defaults only.
\<close>

record 'v viper =
  vp_Read :: "string \<Rightarrow> string + 'v"
  vp_GetString :: "'v \<Rightarrow> string \<Rightarrow> string"
  vp_default_GetString :: "string \<Rightarrow> string"
  vp_Set :: "string \<Rightarrow> string \<Rightarrow> 'v \<Rightarrow> 'v"
  vp_Unmarshal :: "'v \<Rightarrow> string + Config"

definition clearDigestIfTagsDiffer :: "('v, 'z) viper_scheme \<Rightarrow> string \<Rightarrow> 'v \<Rightarrow> 'v" where
  "clearDigestIfTagsDiffer vp imageConfigField v =
     (let tag = imageConfigField @ ''.tag''; digest = imageConfigField @ ''.digest''
      in if vp_GetString vp v tag \<noteq> vp_default_GetString vp tag \<and> vp_GetString vp v digest = vp_default_GetString vp digest
         then vp_Set vp digest [] v else v)"

definition validate_resources :: "quantity_parser \<Rightarrow> Config \<Rightarrow> config_error + Config" where
  "validate_resources parseQuantity c =
     (case parseAndValidate parseQuantity (cfg_ModelMeshResources c) of
        Inl e \<Rightarrow> Inl (BadResources ''ModelMeshResources'' e)
      | Inr mm \<Rightarrow>
          (case parseAndValidate parseQuantity (rp_Resources (cfg_RESTProxy c)) of
             Inl e \<Rightarrow> Inl (BadResources ''RESTProxy.Resources'' e)
           | Inr rp \<Rightarrow>
               (case parseAndValidate parseQuantity (cfg_StorageHelperResources c) of
                  Inl e \<Rightarrow> Inl (BadResources ''StorageHelperResources'' e)
                | Inr sh \<Rightarrow>
                    Inr (c\<lparr>cfg_ModelMeshResources := mm, cfg_RESTProxy := (cfg_RESTProxy c)\<lparr>rp_Resources := rp\<rparr>,
                           cfg_StorageHelperResources := sh\<rparr>))))"

definition NewMergedConfigFromString :: "('v, 'z) viper_scheme \<Rightarrow> quantity_parser \<Rightarrow> string \<Rightarrow> config_error + Config" where
  "NewMergedConfigFromString vp parseQuantity configYaml =
     (case vp_Read vp configYaml of
        Inl e \<Rightarrow> Inl (ReadConfig e)
      | Inr v \<Rightarrow>
          (let v = clearDigestIfTagsDiffer vp ''modelMeshImage'' v;
               v = clearDigestIfTagsDiffer vp ''storageHelperImage'' v;
               v = clearDigestIfTagsDiffer vp ''restProxy.image'' v
           in case vp_Unmarshal vp v of
                Inl e \<Rightarrow> Inl (UnmarshalConfig e)
              | Inr config \<Rightarrow>
                  (case validate_resources parseQuantity config of
                     Inl e \<Rightarrow> Inl e
                   | Inr config' \<Rightarrow>
                       (case find (\<lambda>p. Contains p '' '') (cfg_PayloadProcessors config') of
                          Some p \<Rightarrow> Inl (SpaceInProcessor p)
                        | None \<Rightarrow> Inr config'))))"

record UserConfigMap =
  uc_ResourceVersion :: string
  uc_Data :: "(string, string) gomap"

definition NewMergedConfigFromConfigMap :: "('v, 'z) viper_scheme \<Rightarrow> quantity_parser \<Rightarrow> UserConfigMap \<Rightarrow> config_error + Config" where
  "NewMergedConfigFromConfigMap vp parseQuantity m =
     (case gomap_get (uc_Data m) ''config.yaml'' of
        None \<Rightarrow> Inl MissingConfigYaml
      | Some configYaml \<Rightarrow> NewMergedConfigFromString vp parseQuantity configYaml)"

section \<open>The provider\<close>

record ConfigProvider =
  cp_config :: Config
  cp_isReloading :: bool
  cp_loadedResourceVersion :: string

text \<open>\<open>got\<close> is the API server's answer for the user's ConfigMap.\<close>

definition ReloadConfigMap ::
  "('v, 'z) viper_scheme \<Rightarrow> quantity_parser \<Rightarrow> api_error + UserConfigMap \<Rightarrow> ConfigProvider \<Rightarrow> config_error option \<times> ConfigProvider" where
  "ReloadConfigMap vp parseQuantity got cp =
     (let cp = cp\<lparr>cp_isReloading := True\<rparr>;
          finish = (\<lambda>cp. cp\<lparr>cp_isReloading := False\<rparr>);
          reload = (\<lambda>configmap.
            if uc_ResourceVersion configmap \<noteq> cp_loadedResourceVersion cp then
              (case (if uc_ResourceVersion configmap = [] then NewMergedConfigFromString vp parseQuantity []
                     else NewMergedConfigFromConfigMap vp parseQuantity configmap) of
                 Inl err \<Rightarrow> (Some err, finish cp)
               | Inr newConfig \<Rightarrow>
                   (None, finish (cp\<lparr>cp_config := newConfig, cp_loadedResourceVersion := uc_ResourceVersion configmap\<rparr>)))
            else (None, finish cp))
      in case got of
           Inl NotFound \<Rightarrow> reload \<lparr>uc_ResourceVersion = [], uc_Data = []\<rparr>
         | Inl err \<Rightarrow> (Some (ConfigMapGet err), finish cp)
         | Inr configmap \<Rightarrow> reload configmap)"

definition NewConfigProvider ::
  "('v, 'z) viper_scheme \<Rightarrow> quantity_parser \<Rightarrow> api_error + UserConfigMap \<Rightarrow> config_error + (config_error option \<times> ConfigProvider)" where
  "NewConfigProvider vp parseQuantity got =
     (case NewMergedConfigFromString vp parseQuantity [] of
        Inl err \<Rightarrow> Inl err
      | Inr config \<Rightarrow>
          Inr (ReloadConfigMap vp parseQuantity got \<lparr>cp_config = config, cp_isReloading = False, cp_loadedResourceVersion = []\<rparr>))"

text \<open>
  The event handler of a controller that depends on the configuration: \<open>f\<close> makes the requests from the provider after
  the reload.
\<close>

definition ConfigWatchHandler ::
  "('v, 'z) viper_scheme \<Rightarrow> quantity_parser \<Rightarrow> NamespacedName \<Rightarrow> (ConfigProvider \<Rightarrow> 'r list) \<Rightarrow> api_error + UserConfigMap \<Rightarrow>
     NamespacedName \<Rightarrow> ConfigProvider \<Rightarrow> 'r list \<times> ConfigProvider" where
  "ConfigWatchHandler vp parseQuantity configMapName f got ob cp =
     (if nn_Name ob = nn_Name configMapName \<and> nn_Namespace ob = nn_Namespace configMapName
      then (let cp' = snd (ReloadConfigMap vp parseQuantity got cp) in (f cp', cp'))
      else ([], cp))"

section \<open>Lemmas\<close>

text \<open>What every consumer of a snapshot relies on.\<close>

definition resources_ok :: "ConfigResources \<Rightarrow> bool" where
  "resources_ok rr \<longleftrightarrow> (\<exists>r. Resources_ToKubernetesType rr = Some r \<and>
     map fst (res_Limits r) = [''cpu'', ''memory''] \<and> map fst (res_Requests r) = [''cpu'', ''memory''])"

definition config_ok :: "Config \<Rightarrow> bool" where
  "config_ok c \<longleftrightarrow> resources_ok (cfg_ModelMeshResources c) \<and> resources_ok (rp_Resources (cfg_RESTProxy c)) \<and>
     resources_ok (cfg_StorageHelperResources c) \<and> (\<forall>p \<in> set (cfg_PayloadProcessors c). CHR '' '' \<notin> set p)"

lemma parseAndValidate_ok: "parseAndValidate pq rr = Inr rr' \<Longrightarrow> resources_ok rr'"
  by (auto simp: parseAndValidate_def resources_ok_def Resources_ToKubernetesType_def split: sum.splits)

lemma Contains_char: "Contains s [c] \<longleftrightarrow> c \<in> set s"
  by (induction s) (auto simp: HasPrefix_def)

lemma NewMergedConfigFromString_ok:
  assumes "NewMergedConfigFromString vp pq y = Inr c"
  shows "config_ok c"
proof -
  obtain c0 where v: "validate_resources pq c0 = Inr c" and p: "find (\<lambda>p. Contains p '' '') (cfg_PayloadProcessors c) = None"
    using assms by (auto simp: NewMergedConfigFromString_def Let_def split: sum.splits option.splits)
  have "resources_ok (cfg_ModelMeshResources c)" "resources_ok (rp_Resources (cfg_RESTProxy c))"
    "resources_ok (cfg_StorageHelperResources c)"
    using v by (auto simp: validate_resources_def dest: parseAndValidate_ok split: sum.splits)
  then show ?thesis using p by (auto simp: config_ok_def find_None_iff Contains_char)
qed

text \<open>The configuration merged from a ConfigMap; a missing one has the empty version.\<close>

definition merged_config :: "('v, 'z) viper_scheme \<Rightarrow> quantity_parser \<Rightarrow> UserConfigMap \<Rightarrow> config_error + Config" where
  "merged_config vp pq m =
     (if uc_ResourceVersion m = [] then NewMergedConfigFromString vp pq [] else NewMergedConfigFromConfigMap vp pq m)"

lemma merged_config_ok: "merged_config vp pq m = Inr c \<Longrightarrow> config_ok c"
  by (auto simp: merged_config_def NewMergedConfigFromConfigMap_def dest: NewMergedConfigFromString_ok split: if_splits option.splits)

definition provider_inv :: "('v, 'z) viper_scheme \<Rightarrow> quantity_parser \<Rightarrow> ConfigProvider \<Rightarrow> bool" where
  "provider_inv vp pq cp \<longleftrightarrow> \<not> cp_isReloading cp \<and>
     (\<exists>m. uc_ResourceVersion m = cp_loadedResourceVersion cp \<and> merged_config vp pq m = Inr (cp_config cp))"

text \<open>A reload in terms of \<open>merged_config\<close>.\<close>

definition answered :: "api_error + UserConfigMap \<Rightarrow> UserConfigMap option" where
  "answered got = (case got of Inr m \<Rightarrow> Some m | Inl NotFound \<Rightarrow> Some \<lparr>uc_ResourceVersion = [], uc_Data = []\<rparr> | Inl _ \<Rightarrow> None)"

lemma ReloadConfigMap_cases:
  assumes "ReloadConfigMap vp pq got cp = (err, cp')" and "\<not> cp_isReloading cp"
  obtains (loaded) m c where "answered got = Some m" "uc_ResourceVersion m \<noteq> cp_loadedResourceVersion cp"
      "merged_config vp pq m = Inr c" "err = None" "cp' = cp\<lparr>cp_config := c, cp_loadedResourceVersion := uc_ResourceVersion m\<rparr>"
  | (current) m where "answered got = Some m" "uc_ResourceVersion m = cp_loadedResourceVersion cp" "err = None" "cp' = cp"
  | (failed) e where "err = Some e" "cp' = cp"
proof -
  have idle: "cp\<lparr>cp_isReloading := False\<rparr> = cp" using assms(2) by (cases cp) simp
  show ?thesis
  proof (cases "answered got")
    case None
    then have "err \<noteq> None \<and> cp' = cp" using assms(1) idle
      by (auto simp: ReloadConfigMap_def answered_def Let_def split: sum.splits api_error.splits)
    then show ?thesis using failed by blast
  next
    case (Some m)
    have r: "ReloadConfigMap vp pq got cp =
        (if uc_ResourceVersion m \<noteq> cp_loadedResourceVersion cp then
           (case merged_config vp pq m of Inl e \<Rightarrow> (Some e, cp)
            | Inr c \<Rightarrow> (None, cp\<lparr>cp_config := c, cp_loadedResourceVersion := uc_ResourceVersion m\<rparr>)) else (None, cp))"
      using Some idle assms(2)
      by (cases cp) (auto simp: ReloadConfigMap_def merged_config_def answered_def Let_def split: sum.splits api_error.splits)
    show ?thesis using Some r assms(1) loaded current failed by (cases "merged_config vp pq m") (auto split: if_splits)
  qed
qed

lemma ReloadConfigMap_inv:
  assumes "provider_inv vp pq cp" and "ReloadConfigMap vp pq got cp = (err, cp')"
  shows "provider_inv vp pq cp'"
proof -
  have "\<not> cp_isReloading cp" using assms(1) by (simp add: provider_inv_def)
  from assms(2) this show ?thesis
    by (cases rule: ReloadConfigMap_cases) (use assms(1) in \<open>auto simp: provider_inv_def\<close>)
qed

text \<open>The states of a provider: after its construction and any number of reloads.\<close>

inductive provider_reach :: "('v, 'z) viper_scheme \<Rightarrow> quantity_parser \<Rightarrow> ConfigProvider \<Rightarrow> bool" for vp pq where
  created: "NewConfigProvider vp pq got = Inr (err, cp) \<Longrightarrow> provider_reach vp pq cp"
| reloaded: "provider_reach vp pq cp \<Longrightarrow> ReloadConfigMap vp pq got cp = (err, cp') \<Longrightarrow> provider_reach vp pq cp'"

lemma provider_reach_inv: "provider_reach vp pq cp \<Longrightarrow> provider_inv vp pq cp"
proof (induction rule: provider_reach.induct)
  case (created got err cp)
  then obtain c where c: "NewMergedConfigFromString vp pq [] = Inr c"
    "ReloadConfigMap vp pq got \<lparr>cp_config = c, cp_isReloading = False, cp_loadedResourceVersion = []\<rparr> = (err, cp)"
    by (auto simp: NewConfigProvider_def split: sum.splits)
  have "provider_inv vp pq \<lparr>cp_config = c, cp_isReloading = False, cp_loadedResourceVersion = []\<rparr>"
    using c(1) by (auto simp: provider_inv_def merged_config_def intro!: exI[of _ "\<lparr>uc_ResourceVersion = [], uc_Data = []\<rparr>"])
  then show ?case using c(2) by (rule ReloadConfigMap_inv)
qed (rule ReloadConfigMap_inv)

section \<open>Properties\<close>

text \<open>
  C26. Every snapshot a provider ever serves has passed validation: the three resource sections have been parsed, so
  that converting them never panics, and no payload processor contains a space. The snapshot is the one merged from the
  ConfigMap of the version recorded as loaded, and a reload that fails leaves both as they were.
\<close>

theorem served_config_valid:
  assumes "provider_reach vp pq cp"
  shows "config_ok (cp_config cp) \<and>
     (\<exists>m. uc_ResourceVersion m = cp_loadedResourceVersion cp \<and> merged_config vp pq m = Inr (cp_config cp)) \<and>
     (case ReloadConfigMap vp pq got cp of
        (Some _, cp') \<Rightarrow> cp' = cp
      | (None, cp') \<Rightarrow> \<exists>m. answered got = Some m \<and> cp_loadedResourceVersion cp' = uc_ResourceVersion m)"
proof -
  note inv = provider_reach_inv[OF assms]
  obtain err cp' where r: "ReloadConfigMap vp pq got cp = (err, cp')" by fastforce
  have "\<not> cp_isReloading cp" using inv by (simp add: provider_inv_def)
  with r have "case (err, cp') of (Some _, cp') \<Rightarrow> cp' = cp
      | (None, cp') \<Rightarrow> \<exists>m. answered got = Some m \<and> cp_loadedResourceVersion cp' = uc_ResourceVersion m"
    by (cases rule: ReloadConfigMap_cases) auto
  then show ?thesis using inv r by (auto simp: provider_inv_def intro: merged_config_ok)
qed

definition zero_Image :: ImageConfig where
  "zero_Image = \<lparr>im_Name = [], im_Tag = [], im_Digest = [], im_Command = []\<rparr>"

definition zero_Resources :: ConfigResources where
  "zero_Resources = \<lparr>rs_Requests = \<lparr>rq_CPU = [], rq_Memory = []\<rparr>, rs_Limits = \<lparr>rq_CPU = [], rq_Memory = []\<rparr>, rs_parsed = None\<rparr>"

definition zero_Config :: Config where
  "zero_Config = \<lparr>cfg_EtcdSecretName = [], cfg_ModelMeshEndpoint = [], cfg_AllowAnyPVC = False, cfg_InferenceServiceName = [],
     cfg_InferenceServicePort = 0, cfg_TLS = \<lparr>tc_SecretName = [], tc_ClientAuth = []\<rparr>, cfg_HeadlessService = False,
     cfg_GrpcMaxMessageSizeBytes = 0, cfg_ModelMeshImage = zero_Image, cfg_ModelMeshResources = zero_Resources,
     cfg_RESTProxy = \<lparr>rp_Enabled = False, rp_SkipVerify = False, rp_Port = 0, rp_Image = zero_Image, rp_Resources = zero_Resources\<rparr>,
     cfg_StorageHelperImage = zero_Image, cfg_StorageHelperResources = zero_Resources, cfg_PodsPerRuntime = 0,
     cfg_StorageSecretName = [], cfg_EnableAccessLogging = False, cfg_BuiltInServerTypes = [], cfg_PayloadProcessors = [],
     cfg_ServiceAccountName = [],
     cfg_Metrics = \<lparr>pm_Enabled = False, pm_Port = 0, pm_Scheme = [], pm_DisablePrometheusOperatorSupport = False\<rparr>,
     cfg_ScaleToZero = \<lparr>sz_Enabled = False, sz_GracePeriodSeconds = 0\<rparr>, cfg_RuntimePodLabels = [], cfg_RuntimePodAnnotations = [],
     cfg_ImagePullSecrets = [], cfg_InternalModelMeshEnvVars = []\<rparr>"

text \<open>A viper that reads a YAML text as the name of the service.\<close>

definition sample_viper :: "Config viper" where
  "sample_viper = \<lparr>vp_Read = (\<lambda>y. Inr (zero_Config\<lparr>cfg_InferenceServiceName := y\<rparr>)), vp_GetString = (\<lambda>_ _. []),
     vp_default_GetString = (\<lambda>_. []), vp_Set = (\<lambda>_ _ v. v), vp_Unmarshal = Inr\<rparr>"

definition sample_provider :: ConfigProvider where
  "sample_provider = snd (projr (NewConfigProvider sample_viper (\<lambda>_. Inr 1)
     (Inr \<lparr>uc_ResourceVersion = ''1'', uc_Data = [(''config.yaml'', ''mesh'')]\<rparr>)))"

lemma sample_provider_reach: "provider_reach sample_viper (\<lambda>_. Inr 1) sample_provider"
proof (rule provider_reach.created)
  show "NewConfigProvider sample_viper (\<lambda>_. Inr 1) (Inr \<lparr>uc_ResourceVersion = ''1'', uc_Data = [(''config.yaml'', ''mesh'')]\<rparr>) =
      Inr (None, sample_provider)" unfolding sample_provider_def by code_simp
qed

theorem served_config_valid_witness:
  "cfg_InferenceServiceName (cp_config sample_provider) = ''mesh'' \<and> config_ok (cp_config sample_provider) \<and>
   snd (ReloadConfigMap sample_viper (\<lambda>_. Inr 1) (Inr \<lparr>uc_ResourceVersion = ''2'', uc_Data = []\<rparr>) sample_provider) = sample_provider"
proof -
  have n: "cfg_InferenceServiceName (cp_config sample_provider) = ''mesh''" by code_simp
  have f: "fst (ReloadConfigMap sample_viper (\<lambda>_. Inr 1) (Inr \<lparr>uc_ResourceVersion = ''2'', uc_Data = []\<rparr>) sample_provider) = Some MissingConfigYaml"
    by code_simp
  show ?thesis
    using n f served_config_valid[OF sample_provider_reach, of "Inr \<lparr>uc_ResourceVersion = ''2'', uc_Data = []\<rparr>"]
    by (auto split: prod.splits option.splits)
qed

end
