(* ===== verification/Runtime_Scaling.thy ===== *)
theory Runtime_Scaling
  imports Cluster_Config Config Registry Predictor_Controller InferenceService_Registry
begin

text \<open>
  Which Predictors a serving runtime answers for and how many pods it gets (controllers/servingruntime\_controller.go
  and controllers/util.go): namespaces enabled for model-mesh, the match of labels, the scale-to-zero decision with its
  grace period, and the reconcile requests that events of other objects lead to. The main handler is in
  \<open>Runtime_Controller\<close>. A runtime and a cluster runtime have the same fields here; the latter has no namespace.
\<close>

section \<open>Enabled namespaces (util.go)\<close>

text \<open>Failed requests are tried again after this time (const.go).\<close>

definition RequeueResult :: ctrl_result where
  "RequeueResult = RequeueAfter (5 * Second)"

record Namespace =
  ns_Name :: string
  ns_Labels :: "(string, string) gomap"
  ns_Terminating :: bool

definition zero_Namespace :: Namespace where
  "zero_Namespace = \<lparr>ns_Name = [], ns_Labels = [], ns_Terminating = False\<rparr>"

record runtime_client =
  rcl_GetNamespace :: "string \<Rightarrow> api_error + Namespace"
  rcl_ListNamespaces :: "api_error + Namespace list"
  rcl_ListRuntimes :: "string \<Rightarrow> api_error + ServingRuntime list"
  rcl_ListClusterRuntimes :: "api_error + ServingRuntime list"

text \<open>\<open>rcl_ListRuntimes\<close> with the empty namespace lists all.\<close>

record ServingRuntimeReconciler =
  srr_ControllerNamespace :: string
  srr_ClusterScope :: bool
  srr_EnableCSRWatch :: bool
  srr_EnableSecretWatch :: bool
  srr_RegistryMap :: "(string, PredictorRegistry) gomap"

definition modelMeshEnabled :: "Namespace \<Rightarrow> string \<Rightarrow> bool" where
  "modelMeshEnabled n controllerNamespace =
     (case gomap_get (ns_Labels n) ''modelmesh-enabled'' of
        Some v \<Rightarrow> if ns_Terminating n then False else v = ''true''
      | None \<Rightarrow> ns_Name n = controllerNamespace)"

text \<open>The error result is always nil: an error other than not-found leaves an empty namespace object to be judged.\<close>

definition modelMeshEnabled2 :: "('a runtime_client_scheme) \<Rightarrow> string \<Rightarrow> string \<Rightarrow> bool \<Rightarrow> bool" where
  "modelMeshEnabled2 cl namespace controllerNamespace clusterScope =
     (if \<not> clusterScope then namespace = controllerNamespace
      else (case rcl_GetNamespace cl namespace of
              Inl NotFound \<Rightarrow> False
            | Inl _ \<Rightarrow> modelMeshEnabled zero_Namespace controllerNamespace
            | Inr n \<Rightarrow> modelMeshEnabled n controllerNamespace))"

section \<open>Runtimes and Predictors\<close>

text \<open>\<open>None\<close>: the nil dereference of \<open>GetPredictorTypeLabel\<close>.\<close>

definition runtimeSupportsPredictor :: "ks_protocols \<Rightarrow> ServingRuntimeSpec \<Rightarrow> Predictor \<Rightarrow> bool \<Rightarrow> string \<Rightarrow> bool option" where
  "runtimeSupportsPredictor ks rt p restProxyEnabled rtName =
     (let runtimeLabelSet = sr_LabelSet ks rt restProxyEnabled rtName
      in map_option (\<lambda>predictorTypeString. list_all (\<lambda>label. label \<in> set runtimeLabelSet) (split_on CHR ''|'' predictorTypeString))
           (GetPredictorTypeLabel p))"

fun any_registry_Find ::
  "PredictorRegistry list \<Rightarrow> string \<Rightarrow> (Predictor \<Rightarrow> bool option) \<Rightarrow> (api_error + bool) option" where
  "any_registry_Find [] namespace f = Some (Inr False)"
| "any_registry_Find (pr # prs) namespace f =
     (case registry_Find (rg_Items pr namespace) (\<lambda>s p. map_option (\<lambda>b. (s, b)) (f p)) () of
        None \<Rightarrow> None
      | Some (Inl err) \<Rightarrow> Some (Inl err)
      | Some (Inr (_, True)) \<Rightarrow> Some (Inr True)
      | Some (Inr (_, False)) \<Rightarrow> any_registry_Find prs namespace f)"

definition runtimeHasPredictors ::
  "ks_protocols \<Rightarrow> PredictorRegistry list \<Rightarrow> bool \<Rightarrow> ServingRuntimeSpec \<Rightarrow> NamespacedName \<Rightarrow> (api_error + bool) option" where
  "runtimeHasPredictors ks registries restProxyEnabled rt rtName =
     any_registry_Find registries (nn_Namespace rtName) (\<lambda>p. runtimeSupportsPredictor ks rt p restProxyEnabled (nn_Name rtName))"

definition supporting_names :: "ks_protocols \<Rightarrow> bool \<Rightarrow> Predictor \<Rightarrow> ServingRuntime list \<Rightarrow> sset \<Rightarrow> sset option" where
  "supporting_names ks restProxyEnabled p rts srnns =
     fold (\<lambda>rt acc. case acc of
        None \<Rightarrow> None
      | Some s \<Rightarrow>
          if sr_IsMultiModelRuntime (rt_Spec rt)
          then map_option (\<lambda>b. if b then sset_insert (om_Name (rt_Meta rt)) s else s)
                 (runtimeSupportsPredictor ks (rt_Spec rt) p restProxyEnabled (om_Name (rt_Meta rt)))
          else Some s) rts (Some srnns)"

definition getRuntimesSupportingPredictor ::
  "ks_protocols \<Rightarrow> ('a runtime_client_scheme) \<Rightarrow> bool \<Rightarrow> bool \<Rightarrow> Predictor \<Rightarrow> (api_error + sset) option" where
  "getRuntimesSupportingPredictor ks cl enableCSRWatch restProxyEnabled p =
     (case rcl_ListRuntimes cl (p_Namespace p) of
        Inl err \<Rightarrow> Some (Inl err)
      | Inr runtimes \<Rightarrow>
          (case (if enableCSRWatch then rcl_ListClusterRuntimes cl else Inr []) of
             Inl err \<Rightarrow> Some (Inl err)
           | Inr csrs \<Rightarrow>
               map_option Inr (Option.bind (supporting_names ks restProxyEnabled p csrs []) (supporting_names ks restProxyEnabled p runtimes))))"

section \<open>Replicas\<close>

type_synonym runtimeInfoMap = "(NamespacedName, gotime option) gomap option"

definition determineReplicas :: "Config \<Rightarrow> ServingRuntimeSpec \<Rightarrow> u16" where
  "determineReplicas cfg rt = (case sr_Replicas rt of None \<Rightarrow> cfg_PodsPerRuntime cfg | Some n \<Rightarrow> n)"

definition gracePeriod :: "Config \<Rightarrow> duration" where
  "gracePeriod cfg = uint (sz_GracePeriodSeconds (cfg_ScaleToZero cfg)) * Second"

text \<open>
  The part under the mutex. \<open>now1\<close> and \<open>now2\<close> are the two readings of the clock, the first one taken only when the
  runtime has just lost its last Predictor.
\<close>

definition scale_decision ::
  "Config \<Rightarrow> u16 \<Rightarrow> NamespacedName \<Rightarrow> bool \<Rightarrow> gotime \<Rightarrow> gotime \<Rightarrow> runtimeInfoMap \<Rightarrow> (u16 \<times> duration) \<times> runtimeInfoMap" where
  "scale_decision cfg scaledUp rtName hasPredictors now1 now2 infoMap =
     (let m = (case infoMap of None \<Rightarrow> [] | Some m \<Rightarrow> m);
          info = (case gomap_get m rtName of None \<Rightarrow> Some zero_time | Some t \<Rightarrow> t);
          m = gomap_set rtName info m
      in if hasPredictors then ((scaledUp, 0), Some (gomap_set rtName None m))
         else (let t = (case info of None \<Rightarrow> now1 | Some t \<Rightarrow> t);
                   m = gomap_set rtName (Some t) m;
                   durationSinceLastTransition = time_Sub now2 t
               in if durationSinceLastTransition < gracePeriod cfg
                  then ((scaledUp, gracePeriod cfg - durationSinceLastTransition), Some m)
                  else ((0, 0), Some m)))"

definition determineReplicasAndRequeueDuration ::
  "ks_protocols \<Rightarrow> PredictorRegistry list \<Rightarrow> Config \<Rightarrow> ServingRuntimeSpec \<Rightarrow> NamespacedName \<Rightarrow> gotime \<Rightarrow> gotime \<Rightarrow> runtimeInfoMap \<Rightarrow>
     ((api_error + (u16 \<times> duration)) \<times> runtimeInfoMap) option" where
  "determineReplicasAndRequeueDuration ks registries cfg rt rtName now1 now2 infoMap =
     (let scaledUp = determineReplicas cfg rt
      in if \<not> sz_Enabled (cfg_ScaleToZero cfg) then Some (Inr (scaledUp, 0), infoMap)
         else (case runtimeHasPredictors ks registries (rp_Enabled (cfg_RESTProxy cfg)) rt rtName of
                 None \<Rightarrow> None
               | Some (Inl err) \<Rightarrow> Some (Inl err, infoMap)
               | Some (Inr hasPredictors) \<Rightarrow>
                   (let (res, infoMap') = scale_decision cfg scaledUp rtName hasPredictors now1 now2 infoMap
                    in Some (Inr res, infoMap'))))"

definition removeRuntimeFromInfoMap :: "NamespacedName \<Rightarrow> runtimeInfoMap \<Rightarrow> runtimeInfoMap" where
  "removeRuntimeFromInfoMap n infoMap = map_option (gomap_delete n) infoMap"

section \<open>Requests for runtimes\<close>

definition rt_nn :: "ServingRuntime \<Rightarrow> NamespacedName" where
  "rt_nn rt = \<lparr>nn_Namespace = om_Namespace (rt_Meta rt), nn_Name = om_Name (rt_Meta rt)\<rparr>"

text \<open>\<open>filter\<close> is \<open>None\<close> for nil. An error while listing is logged and gives no requests.\<close>

definition requestsForRuntimes ::
  "('a runtime_client_scheme) \<Rightarrow> bool \<Rightarrow> string \<Rightarrow> (string \<Rightarrow> bool) option \<Rightarrow> NamespacedName list" where
  "requestsForRuntimes cl enableCSRWatch namespace flt =
     (let keep = (\<lambda>n. case flt of None \<Rightarrow> True | Some f \<Rightarrow> f n)
      in case rcl_ListRuntimes cl namespace of
           Inl _ \<Rightarrow> []
         | Inr runtimes \<Rightarrow>
             (case (if enableCSRWatch then rcl_ListClusterRuntimes cl else Inr []) of
                Inl _ \<Rightarrow> []
              | Inr csrs \<Rightarrow>
                  if csrs \<noteq> [] then
                    (case (if namespace \<noteq> [] then Inr [namespace]
                           else (case rcl_ListNamespaces cl of Inl e \<Rightarrow> Inl e | Inr list \<Rightarrow> Inr (filter keep (map ns_Name list)))) of
                       Inl _ \<Rightarrow> []
                     | Inr namespaces \<Rightarrow>
                         fold List.insert (map rt_nn (filter (\<lambda>rt. keep (om_Namespace (rt_Meta rt))) runtimes))
                           (fold List.insert
                             (concat (map (\<lambda>csr. map (\<lambda>ns. \<lparr>nn_Namespace = ns, nn_Name = om_Name (rt_Meta csr)\<rparr>) namespaces)
                               (filter (\<lambda>csr. sr_IsMultiModelRuntime (rt_Spec csr)) csrs))) []))
                  else map rt_nn (filter (\<lambda>rt. keep (om_Namespace (rt_Meta rt))) runtimes)))"

definition runtimeRequestsForPredictor ::
  "ks_protocols \<Rightarrow> ('a runtime_client_scheme) \<Rightarrow> bool \<Rightarrow> bool \<Rightarrow> Predictor \<Rightarrow> NamespacedName list option" where
  "runtimeRequestsForPredictor ks cl enableCSRWatch restProxyEnabled p =
     map_option (\<lambda>r. case r of
          Inl _ \<Rightarrow> []
        | Inr srnns \<Rightarrow> map (\<lambda>n. \<lparr>nn_Namespace = p_Namespace p, nn_Name = n\<rparr>) srnns)
       (getRuntimesSupportingPredictor ks cl enableCSRWatch restProxyEnabled p)"

definition clusterServingRuntimeRequests ::
  "('a runtime_client_scheme) \<Rightarrow> string \<Rightarrow> bool \<Rightarrow> ServingRuntime \<Rightarrow> NamespacedName list" where
  "clusterServingRuntimeRequests cl controllerNamespace clusterScope csr =
     (if sr_MultiModel (rt_Spec csr) \<noteq> Some True then []
      else (case rcl_ListNamespaces cl of
              Inl _ \<Rightarrow> []
            | Inr list \<Rightarrow>
                map (\<lambda>ns. \<lparr>nn_Namespace = ns_Name ns, nn_Name = om_Name (rt_Meta csr)\<rparr>)
                  (filter (\<lambda>ns. modelMeshEnabled2 cl (ns_Name ns) controllerNamespace clusterScope) list)))"

definition storageSecretRequests ::
  "('a runtime_client_scheme) \<Rightarrow> string \<Rightarrow> bool \<Rightarrow> bool \<Rightarrow> string \<Rightarrow> NamespacedName \<Rightarrow> NamespacedName list" where
  "storageSecretRequests cl controllerNamespace clusterScope enableCSRWatch storageSecretName secret =
     (if \<not> modelMeshEnabled2 cl (nn_Namespace secret) controllerNamespace clusterScope then []
      else if nn_Name secret = storageSecretName then requestsForRuntimes cl enableCSRWatch (nn_Namespace secret) None
      else [])"

text \<open>
  The handlers that \<open>SetupWithManager\<close> registers: for the user's ConfigMap, for a namespace, for an InferenceService and
  for the events of source plug-ins.
\<close>

definition config_requests :: "ServingRuntimeReconciler \<Rightarrow> ('a runtime_client_scheme) \<Rightarrow> NamespacedName list" where
  "config_requests r cl = requestsForRuntimes cl (srr_EnableCSRWatch r) []
     (Some (\<lambda>namespace. modelMeshEnabled2 cl namespace (srr_ControllerNamespace r) (srr_ClusterScope r)))"

definition namespace_requests :: "ServingRuntimeReconciler \<Rightarrow> ('a runtime_client_scheme) \<Rightarrow> string \<Rightarrow> NamespacedName list" where
  "namespace_requests r cl name = requestsForRuntimes cl (srr_EnableCSRWatch r) name None"

definition isvc_requests ::
  "ks_protocols \<Rightarrow> ks_env \<Rightarrow> ServingRuntimeReconciler \<Rightarrow> ('a runtime_client_scheme) \<Rightarrow> bool \<Rightarrow> InferenceService \<Rightarrow> NamespacedName list option" where
  "isvc_requests ks kse r cl restProxyEnabled isvc =
     (case BuildBasePredictorFromInferenceService kse isvc of
        Inr (Some p) \<Rightarrow> runtimeRequestsForPredictor ks cl (srr_EnableCSRWatch r) restProxyEnabled p
      | _ \<Rightarrow> Some [])"

definition plugin_requests ::
  "ks_protocols \<Rightarrow> ServingRuntimeReconciler \<Rightarrow> ('a runtime_client_scheme) \<Rightarrow> bool \<Rightarrow> NamespacedName \<Rightarrow> NamespacedName list option" where
  "plugin_requests ks r cl restProxyEnabled ob =
     (let (n, src) = ResolveSource ob PredictorCRSourceId
      in case gomap_get (srr_RegistryMap r) src of
           None \<Rightarrow> Some []
         | Some registry \<Rightarrow>
             (case rg_Get registry n of
                Inr (Some p) \<Rightarrow> runtimeRequestsForPredictor ks cl (srr_EnableCSRWatch r) restProxyEnabled p
              | _ \<Rightarrow> Some []))"

section \<open>Registries the controller uses\<close>

definition known_registry :: "PredictorRegistry \<Rightarrow> bool" where
  "known_registry pr \<longleftrightarrow>
     (\<exists>client. predictor_client_consistent client \<and> rg_Get pr = cr_Get client \<and> rg_Items pr = cr_Find_items client) \<or>
     (\<exists>c. isvc_client_consistent c \<and> rg_Get pr = (\<lambda>n. the (isvc_Get c n)) \<and> rg_Items pr = (\<lambda>ns. the (isvc_Find_items c ns))) \<or>
     (\<exists>now s. cs_inv s \<and> rg_Get pr = cached_Get (now, s) \<and> rg_Items pr = cached_Find_items (now, s))"

interpretation known: predictor_registry rg_Get rg_Items known_registry
proof unfold_locales
  fix pr :: PredictorRegistry and n xs p
  assume k: "known_registry pr" and i: "rg_Items pr (nn_Namespace n) = Inr xs" and g: "rg_Get pr n = Inr (Some p)"
  show "None \<in> set xs \<or> (\<exists>q. Some q \<in> set xs \<and> p_Spec q = p_Spec p \<and> p_Meta q = p_Meta p)"
    using k unfolding known_registry_def
  proof (elim disjE exE conjE)
    fix client assume "predictor_client_consistent client" "rg_Get pr = cr_Get client" "rg_Items pr = cr_Find_items client"
    then show ?thesis using cr.items_complete[of client n xs p] i g by simp
  next
    fix c assume "isvc_client_consistent c" "rg_Get pr = (\<lambda>n. the (isvc_Get c n))" "rg_Items pr = (\<lambda>ns. the (isvc_Find_items c ns))"
    then show ?thesis using isvc.items_complete[of c n xs p] i g by simp
  next
    fix now s assume "cs_inv s" "rg_Get pr = cached_Get (now, s)" "rg_Items pr = cached_Find_items (now, s)"
    then show ?thesis using cached.items_complete[of "(now, s)" n xs p] i g by simp
  qed
qed

lemma GetPredictorTypeLabel_spec: "p_Spec p = p_Spec q \<Longrightarrow> GetPredictorTypeLabel p = GetPredictorTypeLabel q"
  by (simp add: GetPredictorTypeLabel_def)

lemma runtimeSupportsPredictor_spec:
  "p_Spec p = p_Spec q \<Longrightarrow> runtimeSupportsPredictor ks rt p rest name = runtimeSupportsPredictor ks rt q rest name"
  by (simp add: runtimeSupportsPredictor_def GetPredictorTypeLabel_spec[of p q])

lemma any_registry_Find_False:
  assumes "any_registry_Find prs ns f = Some (Inr False)" and "pr \<in> set prs"
  shows "registry_Find (rg_Items pr ns) (\<lambda>s p. map_option (\<lambda>b. (s, b)) (f p)) () = Some (Inr ((), False))"
  using assms by (induction prs ns f rule: any_registry_Find.induct) (auto split: option.splits sum.splits bool.splits prod.splits)

lemma runtimeHasPredictors_False:
  assumes "runtimeHasPredictors ks prs rest rt rtName = Some (Inr False)" and "pr \<in> set prs" and "known_registry pr"
    and "rg_Get pr n = Inr (Some p)" and "nn_Namespace n = nn_Namespace rtName"
  shows "runtimeSupportsPredictor ks rt p rest (nn_Name rtName) = Some False"
proof -
  let ?f = "\<lambda>p. runtimeSupportsPredictor ks rt p rest (nn_Name rtName)"
  let ?g = "\<lambda>(s :: unit) p. map_option (\<lambda>b. (s, b)) (?f p)"
  have r: "registry_Find (rg_Items pr (nn_Namespace n)) ?g () = Some (Inr ((), False))"
    unfolding assms(5) by (rule any_registry_Find_False[OF assms(1)[unfolded runtimeHasPredictors_def] assms(2)])
  have st: "(\<exists>v. ?g s p = Some (v, b)) \<longleftrightarrow> (\<exists>v. ?g s' q = Some (v, b))" if "p_Spec p = p_Spec q" for p q b s s'
    using runtimeSupportsPredictor_spec[OF that, of ks rt rest "nn_Name rtName"] by simp
  have "\<exists>v. ?g () p = Some (v, False)" by (rule known.find_false_means_none[OF assms(3) r assms(4)]) (rule st)
  then show ?thesis by auto
qed

section \<open>Scaling decisions\<close>

lemma gracePeriod_bounds: "0 \<le> gracePeriod cfg \<and> gracePeriod cfg \<le> maxDuration"
proof -
  have "uint (sz_GracePeriodSeconds (cfg_ScaleToZero cfg)) < 2 ^ 16" using uint_lt2p[of "sz_GracePeriodSeconds (cfg_ScaleToZero cfg)"] by simp
  then show ?thesis by (simp add: gracePeriod_def Second_def maxDuration_def)
qed

lemma time_Sub_ge: "0 \<le> g \<Longrightarrow> g \<le> maxDuration \<Longrightarrow> g \<le> time_Sub t u \<longleftrightarrow> g \<le> t - u"
  by (auto simp: time_Sub_def minDuration_def maxDuration_def)

definition info_of :: "runtimeInfoMap \<Rightarrow> NamespacedName \<Rightarrow> gotime option option" where
  "info_of infoMap n = Option.bind infoMap (\<lambda>m. gomap_get m n)"

text \<open>The moment from which the grace period counts.\<close>

definition idle_since :: "runtimeInfoMap \<Rightarrow> NamespacedName \<Rightarrow> gotime \<Rightarrow> gotime" where
  "idle_since infoMap n now = (case info_of infoMap n of None \<Rightarrow> zero_time | Some None \<Rightarrow> now | Some (Some t) \<Rightarrow> t)"

lemma scale_decision_busy:
  "scale_decision cfg scaledUp n True now1 now2 m = (r, m') \<Longrightarrow> r = (scaledUp, 0) \<and> info_of m' n = Some None"
  by (auto simp: scale_decision_def info_of_def Let_def)

lemma scale_decision_idle:
  assumes "scale_decision cfg scaledUp n False now1 now2 m = (r, m')"
  shows "info_of m' n = Some (Some (idle_since m n now1))"
    and "r = (if now2 - idle_since m n now1 < gracePeriod cfg
          then (scaledUp, gracePeriod cfg - time_Sub now2 (idle_since m n now1)) else (0, 0))"
proof -
  let ?t = "idle_since m n now1"
  have t: "(case case gomap_get (case m of None \<Rightarrow> [] | Some m \<Rightarrow> m) n of None \<Rightarrow> Some zero_time | Some t \<Rightarrow> t of
      None \<Rightarrow> now1 | Some t \<Rightarrow> t) = ?t"
    by (simp add: idle_since_def info_of_def split: option.split)
  have c: "time_Sub now2 ?t < gracePeriod cfg \<longleftrightarrow> now2 - ?t < gracePeriod cfg"
    using time_Sub_ge[of "gracePeriod cfg" now2 ?t] gracePeriod_bounds[of cfg] by linarith
  show "info_of m' n = Some (Some ?t)"
    using assms by (auto simp: scale_decision_def Let_def t info_of_def split: if_splits)
  show "r = (if now2 - ?t < gracePeriod cfg then (scaledUp, gracePeriod cfg - time_Sub now2 ?t) else (0, 0))"
    using assms by (auto simp: scale_decision_def Let_def t c split: if_splits)
qed

lemma scale_decision_other:
  "scale_decision cfg scaledUp n' b now1 now2 m = (r, m') \<Longrightarrow> n \<noteq> n' \<Longrightarrow> info_of m' n = info_of m n"
  by (auto simp: scale_decision_def info_of_def Let_def split: option.splits if_splits)

lemma determine_cases:
  assumes "determineReplicasAndRequeueDuration ks prs cfg rt n now1 now2 m = Some (Inr r, m')"
  obtains (disabled) "\<not> sz_Enabled (cfg_ScaleToZero cfg)" "r = (determineReplicas cfg rt, 0)" "m' = m"
  | (busy) "sz_Enabled (cfg_ScaleToZero cfg)" "runtimeHasPredictors ks prs (rp_Enabled (cfg_RESTProxy cfg)) rt n = Some (Inr True)"
      "scale_decision cfg (determineReplicas cfg rt) n True now1 now2 m = (r, m')"
  | (idle) "sz_Enabled (cfg_ScaleToZero cfg)" "runtimeHasPredictors ks prs (rp_Enabled (cfg_RESTProxy cfg)) rt n = Some (Inr False)"
      "scale_decision cfg (determineReplicas cfg rt) n False now1 now2 m = (r, m')"
proof (cases "sz_Enabled (cfg_ScaleToZero cfg)")
  case False
  then show ?thesis using assms disabled by (simp add: determineReplicasAndRequeueDuration_def)
next
  case True
  then obtain b where "runtimeHasPredictors ks prs (rp_Enabled (cfg_RESTProxy cfg)) rt n = Some (Inr b)"
    "scale_decision cfg (determineReplicas cfg rt) n b now1 now2 m = (r, m')"
    using assms by (auto simp: determineReplicasAndRequeueDuration_def Let_def split: option.splits sum.splits prod.splits)
  then show ?thesis using True busy idle by (cases b) simp_all
qed

section \<open>Properties\<close>

text \<open>
  C28. A runtime is scaled to zero only when it is safe: scale to zero is enabled, no registry has a Predictor in the
  namespace that the runtime supports, whatever kind of registry it is, and the grace period since the runtime was first
  seen without Predictors is over. No further reconciliation is asked for.
\<close>

theorem scaled_to_zero_without_predictors:
  assumes "determineReplicasAndRequeueDuration ks prs cfg rt rtName now1 now2 m = Some (Inr (0, d), m')"
    and "determineReplicas cfg rt \<noteq> 0" and "\<forall>pr \<in> set prs. known_registry pr"
  shows "sz_Enabled (cfg_ScaleToZero cfg) \<and> d = 0 \<and> gracePeriod cfg \<le> now2 - idle_since m rtName now1 \<and>
     (\<forall>pr \<in> set prs. \<forall>n p. nn_Namespace n = nn_Namespace rtName \<and> rg_Get pr n = Inr (Some p) \<longrightarrow>
        runtimeSupportsPredictor ks rt p (rp_Enabled (cfg_RESTProxy cfg)) (nn_Name rtName) = Some False)"
  using assms(1)
proof (cases rule: determine_cases)
  case disabled
  with assms(2) show ?thesis by simp
next
  case busy
  with assms(2) show ?thesis using scale_decision_busy by fastforce
next
  case idle
  have "\<not> now2 - idle_since m rtName now1 < gracePeriod cfg" "d = 0"
    using scale_decision_idle(2)[OF idle(3)] assms(2) by (auto split: if_splits)
  then show ?thesis using idle(1) runtimeHasPredictors_False[OF idle(2)] assms(3) by auto
qed

text \<open>
  C27. Scaling to zero is always reached. When a reconciliation finds no Predictors, either it scales to zero at once, or
  it asks to be repeated after at most the grace period, and the repetition scales to zero if no Predictor has come.
\<close>

theorem scale_to_zero_reached:
  assumes "determineReplicasAndRequeueDuration ks prs cfg rt rtName now1 now2 m = Some (Inr (k, d), m')"
    and "sz_Enabled (cfg_ScaleToZero cfg)"
    and "runtimeHasPredictors ks prs (rp_Enabled (cfg_RESTProxy cfg)) rt rtName = Some (Inr False)"
    and "idle_since m rtName now1 \<le> now2"
  shows "(k, d) = (0, 0) \<or>
     0 < d \<and> d \<le> gracePeriod cfg \<and>
     (\<forall>prs' now1' now2'. runtimeHasPredictors ks prs' (rp_Enabled (cfg_RESTProxy cfg)) rt rtName = Some (Inr False) \<and> now2 + d \<le> now2' \<longrightarrow>
        (\<exists>m''. determineReplicasAndRequeueDuration ks prs' cfg rt rtName now1' now2' m' = Some (Inr (0, 0), m'')))"
  using assms(1)
proof (cases rule: determine_cases)
  case idle
  let ?t = "idle_since m rtName now1"
  note i = scale_decision_idle[OF idle(3)]
  have t': "idle_since m' rtName u = ?t" for u using i(1) by (simp add: idle_since_def)
  show ?thesis
  proof (cases "now2 - ?t < gracePeriod cfg")
    case True
    have "time_Sub now2 ?t = now2 - ?t"
      using True assms(4) gracePeriod_bounds[of cfg] by (simp add: time_Sub_def minDuration_def maxDuration_def)
    then have d: "d = gracePeriod cfg - (now2 - ?t)" using i(2) True by simp
    have "\<exists>m''. determineReplicasAndRequeueDuration ks prs' cfg rt rtName now1' now2' m' = Some (Inr (0, 0), m'')"
      if "runtimeHasPredictors ks prs' (rp_Enabled (cfg_RESTProxy cfg)) rt rtName = Some (Inr False)" "now2 + d \<le> now2'" for prs' now1' now2'
    proof -
      obtain r m'' where r: "scale_decision cfg (determineReplicas cfg rt) rtName False now1' now2' m' = (r, m'')" by fastforce
      have "r = (0, 0)" using scale_decision_idle(2)[OF r] t' d that(2) by simp
      then show ?thesis using r that(1) assms(2) by (simp add: determineReplicasAndRequeueDuration_def)
    qed
    then show ?thesis using d True assms(4) by auto
  qed (use i(2) in simp)
qed (use assms(2,3) in simp_all)

text \<open>
  The observations of one runtime, oldest first: whether it had Predictors, the two clock readings and the decision.
  Between them other runtimes are reconciled and removed.
\<close>

record observation =
  ob_has :: bool
  ob_now1 :: gotime
  ob_now2 :: gotime
  ob_result :: "u16 \<times> duration"

inductive scaling_trace ::
  "ks_protocols \<Rightarrow> Config \<Rightarrow> ServingRuntimeSpec \<Rightarrow> NamespacedName \<Rightarrow> observation list \<Rightarrow> runtimeInfoMap \<Rightarrow> bool"
  for ks cfg rt n where
  start: "scaling_trace ks cfg rt n [] None"
| decided: "scaling_trace ks cfg rt n obs m \<Longrightarrow>
     runtimeHasPredictors ks prs (rp_Enabled (cfg_RESTProxy cfg)) rt n = Some (Inr b) \<Longrightarrow>
     determineReplicasAndRequeueDuration ks prs cfg rt n now1 now2 m = Some (Inr r, m') \<Longrightarrow>
     scaling_trace ks cfg rt n (obs @ [\<lparr>ob_has = b, ob_now1 = now1, ob_now2 = now2, ob_result = r\<rparr>]) m'"
| other: "scaling_trace ks cfg rt n obs m \<Longrightarrow> n' \<noteq> n \<Longrightarrow>
     determineReplicasAndRequeueDuration ks prs cfg' rt' n' now1 now2 m = Some (res, m') \<Longrightarrow> scaling_trace ks cfg rt n obs m'"
| removed: "scaling_trace ks cfg rt n obs m \<Longrightarrow> n' \<noteq> n \<Longrightarrow> scaling_trace ks cfg rt n obs (removeRuntimeFromInfoMap n' m)"

text \<open>What the map records after such a history, once Predictors have been seen.\<close>

definition trace_info :: "observation list \<Rightarrow> gotime option \<Rightarrow> bool" where
  "trace_info obs info \<longleftrightarrow>
     (case info of
        None \<Rightarrow> obs \<noteq> [] \<and> ob_has (last obs)
      | Some t \<Rightarrow> \<exists>pre ob suf. obs = pre @ ob # suf \<and> ob_now1 ob = t \<and> list_all (\<lambda>q. \<not> ob_has q) (ob # suf))"

lemma determine_other:
  assumes "determineReplicasAndRequeueDuration ks prs cfg rt n' now1 now2 m = Some (res, m')" and "n \<noteq> n'"
  shows "info_of m' n = info_of m n"
  using assms scale_decision_other[OF _ assms(2)]
  by (auto simp: determineReplicasAndRequeueDuration_def Let_def split: if_splits option.splits sum.splits prod.splits)

lemma trace_info_step:
  assumes "scale_decision cfg up n b now1 now2 m = (r, m')"
    and "list_ex ob_has obs \<Longrightarrow> \<exists>info. info_of m n = Some info \<and> trace_info obs info"
    and "list_ex ob_has (obs @ [\<lparr>ob_has = b, ob_now1 = now1, ob_now2 = now2, ob_result = r\<rparr>])"
  shows "\<exists>info. info_of m' n = Some info \<and> trace_info (obs @ [\<lparr>ob_has = b, ob_now1 = now1, ob_now2 = now2, ob_result = r\<rparr>]) info"
proof (cases b)
  case True
  then show ?thesis using scale_decision_busy assms(1) by (fastforce simp: trace_info_def)
next
  case False
  let ?ob = "\<lparr>ob_has = b, ob_now1 = now1, ob_now2 = now2, ob_result = r\<rparr>"
  obtain info where i: "info_of m n = Some info" "trace_info obs info" using assms(2,3) False by auto
  have m': "info_of m' n = Some (Some (idle_since m n now1))" using assms(1) False by (simp add: scale_decision_idle(1))
  have "trace_info (obs @ [?ob]) (Some (idle_since m n now1))"
  proof (cases info)
    case None
    then have "obs @ [?ob] = obs @ ?ob # [] \<and> ob_now1 ?ob = idle_since m n now1 \<and> list_all (\<lambda>q. \<not> ob_has q) (?ob # [])"
      using i(1) False by (simp add: idle_since_def)
    then show ?thesis unfolding trace_info_def option.case by blast
  next
    case (Some t)
    then obtain pre ob suf where "obs = pre @ ob # suf" "ob_now1 ob = t" "list_all (\<lambda>q. \<not> ob_has q) (ob # suf)"
      using i(2) by (auto simp: trace_info_def)
    then have "obs @ [?ob] = pre @ ob # (suf @ [?ob]) \<and> ob_now1 ob = idle_since m n now1 \<and> list_all (\<lambda>q. \<not> ob_has q) (ob # (suf @ [?ob]))"
      using i(1) Some False by (simp add: idle_since_def)
    then show ?thesis unfolding trace_info_def option.case by blast
  qed
  then show ?thesis using m' by blast
qed

lemma scaling_trace_info:
  assumes "scaling_trace ks cfg rt n obs m" and "sz_Enabled (cfg_ScaleToZero cfg)" and "list_ex ob_has obs"
  shows "\<exists>info. info_of m n = Some info \<and> trace_info obs info"
  using assms(1,3)
proof (induction rule: scaling_trace.induct)
  case (decided obs m prs b now1 now2 r m')
  have "scale_decision cfg (determineReplicas cfg rt) n b now1 now2 m = (r, m')"
    using decided.hyps(3) by (cases rule: determine_cases) (use assms(2) decided.hyps(2) in simp_all)
  from trace_info_step[OF this decided.IH decided.prems] show ?case .
next
  case (other obs m n' prs cfg' rt' now1 now2 res m')
  then show ?case using determine_other[OF other.hyps(3)] by metis
next
  case (removed obs m n')
  have "info_of (removeRuntimeFromInfoMap n' m) n = info_of m n"
    using removed.hyps(2) by (cases m) (simp_all add: info_of_def removeRuntimeFromInfoMap_def)
  then show ?case using removed.IH removed.prems by simp
qed simp

text \<open>
  C29. The grace period is kept along every history: if a runtime that has had Predictors is scaled to zero, it has been
  seen without Predictors ever since some observation that lies at least the grace period back. This holds whatever
  happens to other runtimes in between.
\<close>

theorem grace_period_respected:
  assumes "scaling_trace ks cfg rt n (obs @ [ob]) m" and "list_ex ob_has obs"
    and "fst (ob_result ob) = 0" and "determineReplicas cfg rt \<noteq> 0"
  shows "\<exists>pre ob0 suf. obs @ [ob] = pre @ ob0 # suf \<and> list_all (\<lambda>q. \<not> ob_has q) (ob0 # suf) \<and>
     gracePeriod cfg \<le> ob_now2 ob - ob_now1 ob0"
  using assms(1)
proof (induction "obs @ [ob]" m rule: scaling_trace.induct)
  case (decided obs' m prs b now1 now2 r m')
  then have e: "obs' = obs" "ob = \<lparr>ob_has = b, ob_now1 = now1, ob_now2 = now2, ob_result = r\<rparr>" by simp_all
  have idle: "sz_Enabled (cfg_ScaleToZero cfg)" "scale_decision cfg (determineReplicas cfg rt) n b now1 now2 m = (r, m')" "\<not> b"
    using decided.hyps(4) by (cases rule: determine_cases; use decided.hyps(3) assms(3,4) e scale_decision_busy in fastforce)+
  let ?t = "idle_since m n now1"
  obtain info where "info_of m' n = Some info" "trace_info (obs @ [ob]) info"
    using trace_info_step[OF idle(2), of obs] scaling_trace_info[OF decided.hyps(1) idle(1)] assms(2) e by auto
  moreover have "info_of m' n = Some (Some ?t)" "gracePeriod cfg \<le> now2 - ?t"
    using scale_decision_idle[of cfg "determineReplicas cfg rt" n now1 now2 m r m'] idle(2,3) assms(3,4) e(2) by (auto split: if_splits)
  ultimately have "trace_info (obs @ [ob]) (Some ?t)" by simp
  then obtain pre ob0 suf where "obs @ [ob] = pre @ ob0 # suf" "ob_now1 ob0 = ?t" "list_all (\<lambda>q. \<not> ob_has q) (ob0 # suf)"
    by (auto simp: trace_info_def)
  then show ?case using \<open>gracePeriod cfg \<le> now2 - ?t\<close> e(2) by (intro exI[of _ pre] exI[of _ ob0] exI[of _ suf]) simp
qed simp_all

section \<open>Witnesses\<close>

definition sample_protocols :: ks_protocols where
  "sample_protocols = \<lparr>ks_ProtocolV1 = ''v1'', ks_ProtocolV2 = ''v2'', ks_ProtocolGRPCV2 = ''grpc-v2'', ks_ProtocolUnknown = ''unknown''\<rparr>"

definition sample_cfg :: Config where
  "sample_cfg = zero_Config\<lparr>cfg_PodsPerRuntime := 2, cfg_ScaleToZero := \<lparr>sz_Enabled = True, sz_GracePeriodSeconds = 60\<rparr>\<rparr>"

definition sample_rt_spec :: ServingRuntimeSpec where
  "sample_rt_spec = zero_RuntimeSpec\<lparr>sr_IsMultiModelRuntime := True, sr_ProtocolVersions := [''v2''],
     sr_SupportedModelFormats := [\<lparr>smf_Name = ''onnx'', smf_Version = Some ''1'', smf_AutoSelect = Some True\<rparr>]\<rparr>"

definition onnx_predictor :: Predictor where
  "onnx_predictor = zero_Predictor\<lparr>p_Meta := zero_Meta\<lparr>om_Namespace := ''ns'', om_Name := ''m''\<rparr>,
     p_Spec := zero_Spec\<lparr>m_Type := \<lparr>mt_Name = ''onnx'', mt_Version = None\<rparr>, ps_ProtocolVersion := Some ''v2''\<rparr>\<rparr>"

text \<open>The registry of a store with the given Predictors in its only namespace.\<close>

definition store_client :: "Predictor list \<Rightarrow> predictor_client" where
  "store_client ps = \<lparr>pcl_Get = (\<lambda>n. case find (\<lambda>p. nn p = n) ps of None \<Rightarrow> Inl NotFound | Some p \<Rightarrow> Inr p),
     pcl_List = (\<lambda>_. Inr ps), pcl_StatusUpdate = (\<lambda>_. None)\<rparr>"

definition rt_name :: NamespacedName where
  "rt_name = \<lparr>nn_Namespace = ''ns'', nn_Name = ''rt''\<rparr>"

lemma store_client_known: "known_registry (PredictorCRRegistry (store_client ps))"
proof -
  have "predictor_client_consistent (store_client ps)"
    by (auto simp: predictor_client_consistent_def store_client_def find_Some_iff split: option.splits)
  then show ?thesis unfolding known_registry_def PredictorCRRegistry_def by auto
qed

lemma sample_scaling:
  "determineReplicasAndRequeueDuration sample_protocols [PredictorCRRegistry (store_client [])] sample_cfg sample_rt_spec rt_name
     0 (100 * Second) None = Some (Inr (0, 0), Some [(rt_name, Some 0)])"
  "determineReplicasAndRequeueDuration sample_protocols [PredictorCRRegistry (store_client [onnx_predictor])] sample_cfg sample_rt_spec rt_name
     0 0 None = Some (Inr (2, 0), Some [(rt_name, None)])"
  "determineReplicasAndRequeueDuration sample_protocols [PredictorCRRegistry (store_client [])] sample_cfg sample_rt_spec rt_name
     Second (11 * Second) (Some [(rt_name, None)]) = Some (Inr (2, 50 * Second), Some [(rt_name, Some Second)])"
  "determineReplicasAndRequeueDuration sample_protocols [PredictorCRRegistry (store_client [])] sample_cfg sample_rt_spec rt_name
     (61 * Second) (61 * Second) (Some [(rt_name, Some Second)]) = Some (Inr (0, 0), Some [(rt_name, Some Second)])"
  by code_simp+

lemma sample_has:
  "runtimeHasPredictors sample_protocols [PredictorCRRegistry (store_client [])] (rp_Enabled (cfg_RESTProxy sample_cfg)) sample_rt_spec rt_name = Some (Inr False)"
  "runtimeHasPredictors sample_protocols [PredictorCRRegistry (store_client [onnx_predictor])] (rp_Enabled (cfg_RESTProxy sample_cfg)) sample_rt_spec rt_name = Some (Inr True)"
  by code_simp+

lemma sample_replicas: "determineReplicas sample_cfg sample_rt_spec = 2" "gracePeriod sample_cfg = 60 * Second" "sz_Enabled (cfg_ScaleToZero sample_cfg)"
  by code_simp+

theorem scaled_to_zero_without_predictors_witness:
  "fst (the (determineReplicasAndRequeueDuration sample_protocols [PredictorCRRegistry (store_client [])] sample_cfg sample_rt_spec rt_name
      0 (100 * Second) None)) = Inr (0, 0) \<and> 60 * Second \<le> 100 * Second - idle_since None rt_name 0"
  using scaled_to_zero_without_predictors[OF sample_scaling(1)] store_client_known sample_replicas sample_scaling(1) by simp

theorem scale_to_zero_reached_witness:
  "\<exists>m''. determineReplicasAndRequeueDuration sample_protocols [PredictorCRRegistry (store_client [])] sample_cfg sample_rt_spec rt_name
     (61 * Second) (61 * Second) (Some [(rt_name, Some Second)]) = Some (Inr (0, 0), m'')"
  using scale_to_zero_reached[OF sample_scaling(3) sample_replicas(3) sample_has(1)] sample_has(1)
  by (force simp: idle_since_def info_of_def Second_def)

theorem grace_period_respected_witness:
  "\<exists>pre ob0 suf. [\<lparr>ob_has = True, ob_now1 = 0, ob_now2 = 0, ob_result = (2, 0)\<rparr>,
      \<lparr>ob_has = False, ob_now1 = Second, ob_now2 = 11 * Second, ob_result = (2, 50 * Second)\<rparr>,
      \<lparr>ob_has = False, ob_now1 = 61 * Second, ob_now2 = 61 * Second, ob_result = (0, 0)\<rparr>] = pre @ ob0 # suf \<and>
     list_all (\<lambda>q. \<not> ob_has q) (ob0 # suf) \<and> gracePeriod sample_cfg \<le> 61 * Second - ob_now1 ob0"
proof -
  note t1 = scaling_trace.decided[OF scaling_trace.start sample_has(2) sample_scaling(2)]
  note t2 = scaling_trace.decided[OF t1 sample_has(1) sample_scaling(3)]
  note t3 = scaling_trace.decided[OF t2 sample_has(1) sample_scaling(4)]
  show ?thesis using grace_period_respected[OF t3] sample_replicas(1) by simp
qed

section \<open>Constraints and support\<close>

text \<open>
  What model-mesh requires of an instance for a model type, by the constraints it is given: the entry of the type, or the
  default entry.
\<close>

definition required_labels :: "constraints \<Rightarrow> string \<Rightarrow> string list" where
  "required_labels m label =
     (case gomap_get m label of
        Some req \<Rightarrow> req
      | None \<Rightarrow> (case gomap_get m defaultTypeConstraint of Some req \<Rightarrow> req | None \<Rightarrow> []))"

definition predictor_plain :: "Predictor \<Rightarrow> bool" where
  "predictor_plain p \<longleftrightarrow> CHR ''|'' \<notin> set (mt_Name (m_Type (p_Spec p))) \<and>
     (case mt_Version (m_Type (p_Spec p)) of None \<Rightarrow> True | Some v \<Rightarrow> CHR ''|'' \<notin> set v) \<and>
     (case ps_ProtocolVersion (p_Spec p) of None \<Rightarrow> True | Some v \<Rightarrow> CHR ''|'' \<notin> set v) \<and>
     (case Option.bind (ps_Runtime (p_Spec p)) pr_RuntimeRef of None \<Rightarrow> True | Some r \<Rightarrow> CHR ''|'' \<notin> set (rr_Name r))"

lemma predictor_label_shape:
  assumes "GetPredictorTypeLabel p = Some label" and "predictor_plain p"
  obtains (rt) n where "label = ''rt:'' @ n" "split_on CHR ''|'' label = [label]"
  | (mt) a where "label = ''mt:'' @ a" "split_on CHR ''|'' label = [label]"
  | (mtpv) a v where "label = (''mt:'' @ a) @ ''|'' @ ''pv:'' @ v" "split_on CHR ''|'' label = [''mt:'' @ a, ''pv:'' @ v]"
proof -
  let ?mt = "m_Type (p_Spec p)"
  define a where "a = mt_Name ?mt @ (case mt_Version ?mt of None \<Rightarrow> [] | Some v \<Rightarrow> '':'' @ v)"
  have a: "CHR ''|'' \<notin> set a" using assms(2) by (auto simp: a_def predictor_plain_def split: option.splits)
  have noRt: "label = ''mt:'' @ a @ (case ps_ProtocolVersion (p_Spec p) of None \<Rightarrow> [] | Some pv \<Rightarrow> ''|pv:'' @ pv) \<or> (\<exists>n. label = ''rt:'' @ n \<and> CHR ''|'' \<notin> set n)"
    using assms by (auto simp: GetPredictorTypeLabel_def a_def predictor_plain_def Let_def split: option.splits if_splits)
  show ?thesis
  proof (cases "\<exists>n. label = ''rt:'' @ n \<and> CHR ''|'' \<notin> set n")
    case True
    then obtain n where n: "label = ''rt:'' @ n" "CHR ''|'' \<notin> set n" by blast
    then have "split_on CHR ''|'' label = [label]" by (intro split_on_no_sep) simp
    then show ?thesis using rt n(1) by blast
  next
    case False
    show ?thesis
    proof (cases "ps_ProtocolVersion (p_Spec p)")
      case None
      then have l: "label = ''mt:'' @ a" using False noRt by auto
      then have "split_on CHR ''|'' label = [label]" using a by (intro split_on_no_sep) simp
      then show ?thesis using mt l by blast
    next
      case (Some v)
      then have "CHR ''|'' \<notin> set v" using assms(2) by (simp add: predictor_plain_def)
      then have "split_on CHR ''|'' ((''mt:'' @ a) @ ''|'' @ ''pv:'' @ v) = [''mt:'' @ a, ''pv:'' @ v]"
        using a by (intro split_on_pair) simp_all
      moreover have "label = (''mt:'' @ a) @ ''|'' @ ''pv:'' @ v" using False noRt Some by auto
      ultimately show ?thesis using mtpv by blast
    qed
  qed
qed

lemma label_prefixes:
  assumes "l \<in> set (sr_LabelSet ks spec rest name)"
  shows "HasPrefix l ''mt:'' \<longleftrightarrow> l \<in> set (mt_labels (sr_SupportedModelFormats spec))"
    and "HasPrefix l ''pv:'' \<longleftrightarrow> l \<in> set (pv_labels ks rest (sr_ProtocolVersions spec))"
    and "HasPrefix l ''rt:'' \<longleftrightarrow> l = ''rt:'' @ name"
    and "l \<noteq> ModelTypeLabelThatNoRuntimeSupports"
  using assms unfolding set_GetServingRuntimeLabelSet set_mt_labels set_pv_labels
  by (auto simp: HasPrefix_iff ModelTypeLabelThatNoRuntimeSupports_def split: option.splits)

lemma supported_label_is_key:
  assumes "GetPredictorTypeLabel p = Some label" and "predictor_plain p"
    and "\<not> sr_IsDisabled spec" and "sr_IsMultiModelRuntime spec"
    and "list_all (\<lambda>l. l \<in> set (sr_LabelSet ks spec rest name)) (split_on CHR ''|'' label)"
  shows "label \<in> runtime_keys ks rest (name, spec)"
  using assms(1,2)
proof (cases rule: predictor_label_shape)
  case (rt n)
  then have "label \<in> set (sr_LabelSet ks spec rest name)" "HasPrefix label ''rt:''"
    using assms(5) unfolding rt(2) by (simp_all only: list.pred_inject HasPrefix_append)
  then have "label = ''rt:'' @ name" using label_prefixes(3) by blast
  then show ?thesis using assms(3,4) by (simp add: runtime_keys_def)
next
  case (mt a)
  then have "label \<in> set (sr_LabelSet ks spec rest name)" "HasPrefix label ''mt:''"
    using assms(5) unfolding mt(2) by (simp_all only: list.pred_inject HasPrefix_append)
  then have "label \<in> set (mt_labels (sr_SupportedModelFormats spec))" using label_prefixes(1) by blast
  then show ?thesis using assms(3,4) by (simp add: runtime_keys_def)
next
  case (mtpv a v)
  then have "''mt:'' @ a \<in> set (sr_LabelSet ks spec rest name)" "''pv:'' @ v \<in> set (sr_LabelSet ks spec rest name)"
    using assms(5) unfolding mtpv(2) by (simp_all only: list.pred_inject)
  then have "''mt:'' @ a \<in> set (mt_labels (sr_SupportedModelFormats spec))" "''pv:'' @ v \<in> set (pv_labels ks rest (sr_ProtocolVersions spec))"
    using label_prefixes(1,2) HasPrefix_append by blast+
  then have "label \<in> {l @ ''|'' @ pvl | l pvl. l \<in> set (mt_labels (sr_SupportedModelFormats spec)) \<and>
      pvl \<in> set (pv_labels ks rest (sr_ProtocolVersions spec))}" using mtpv(1) by blast
  then show ?thesis using assms(3,4) by (simp add: runtime_keys_def)
qed

text \<open>
  C30. The two ways to decide whether a runtime may load a Predictor's model agree. For an enabled runtime of the namespace, the
  labels that the type constraints require for the Predictor's type are all carried by the runtime exactly when
  \<open>runtimeSupportsPredictor\<close>, which drives scaling, says so; a type that no enabled runtime has falls to the default
  entry, which no runtime satisfies. No name in play contains the separator of the expressions.
\<close>

theorem constraints_match_support:
  assumes "\<forall>r \<in> set srSpecs. labels_plain ks rest r" and "predictor_plain p" and "GetPredictorTypeLabel p = Some label"
    and "(name, spec) \<in> set srSpecs" and "\<not> sr_IsDisabled spec" and "sr_IsMultiModelRuntime spec"
  shows "runtimeSupportsPredictor ks spec p rest name =
     Some (list_all (\<lambda>l. l \<in> set (sr_LabelSet ks spec rest name)) (required_labels (constraint_map ks srSpecs rest) label))"
proof -
  let ?m = "constraint_map ks srSpecs rest" and ?K = "\<Union>r \<in> set srSpecs. runtime_keys ks rest r"
  let ?has = "\<lambda>l. l \<in> set (sr_LabelSet ks spec rest name)"
  have "label \<noteq> defaultTypeConstraint"
    using assms(3,2) by (cases rule: predictor_label_shape) (auto simp: defaultTypeConstraint_def)
  note get = constraint_map_get[OF assms(1) this]
  have def: "gomap_get ?m defaultTypeConstraint = Some [ModelTypeLabelThatNoRuntimeSupports]" by (simp add: constraint_map_def)
  have "list_all ?has (required_labels ?m label) \<longleftrightarrow> list_all ?has (split_on CHR ''|'' label)"
  proof (cases "label \<in> ?K")
    case True
    then show ?thesis using get by (simp add: required_labels_def)
  next
    case False
    then have "\<not> list_all ?has (split_on CHR ''|'' label)" using supported_label_is_key[OF assms(3,2,5,6)] assms(4) by blast
    then show ?thesis using False get def label_prefixes(4)[of _ ks spec rest name] by (auto simp: required_labels_def)
  qed
  then show ?thesis by (simp add: runtimeSupportsPredictor_def assms(3))
qed

theorem constraints_match_support_witness:
  "runtimeSupportsPredictor sample_protocols sample_rt_spec onnx_predictor False ''rt'' = Some True \<and>
   required_labels (constraint_map sample_protocols [(''rt'', sample_rt_spec)] False) ''mt:onnx|pv:v2'' = [''mt:onnx'', ''pv:v2'']"
proof -
  have "\<forall>r \<in> set [(''rt'', sample_rt_spec)]. labels_plain sample_protocols False r" by code_simp
  moreover have "predictor_plain onnx_predictor" "GetPredictorTypeLabel onnx_predictor = Some ''mt:onnx|pv:v2''"
    "\<not> sr_IsDisabled sample_rt_spec" "sr_IsMultiModelRuntime sample_rt_spec" by code_simp+
  moreover have "required_labels (constraint_map sample_protocols [(''rt'', sample_rt_spec)] False) ''mt:onnx|pv:v2'' = [''mt:onnx'', ''pv:v2'']"
    "list_all (\<lambda>l. l \<in> set (sr_LabelSet sample_protocols sample_rt_spec False ''rt'')) [''mt:onnx'', ''pv:v2'']" by code_simp+
  ultimately show ?thesis using constraints_match_support[of "[(''rt'', sample_rt_spec)]" sample_protocols False onnx_predictor "''mt:onnx|pv:v2''" "''rt''" sample_rt_spec]
    by simp
qed

end
