(* ===== verification/Runtime_Controller.thy ===== *)
theory Runtime_Controller
  imports Runtime_Scaling Runtime_Validator Autoscaling Mesh_Deployment
begin

text \<open>
  The reconciler of serving runtimes (controllers/servingruntime\_controller.go): collecting the claims to mount, and the
  whole handler \<open>Reconcile\<close>, from the type constraints and the etcd secret of the namespace to the autoscaler and
  the Deployment. The API server is a record of answers; the requests that change something are returned in order, and the
  map with the scaling information is threaded through. \<open>None\<close> is a panic. A returned error comes without its result, which
  controller-runtime ignores.
\<close>

section \<open>Environment\<close>

record runtime_api = runtime_client +
  rcl_GetRuntime :: "NamespacedName \<Rightarrow> api_error + ServingRuntime"
  rcl_GetClusterRuntime :: "string \<Rightarrow> api_error + ServingRuntime"
  rcl_ConfigMaps :: object_client
  rcl_Secrets :: object_client
  rcl_GetPVC :: "NamespacedName \<Rightarrow> api_error option"
  rcl_HPA :: hpa_client
  rcl_GetDeploymentReplicas :: "NamespacedName \<Rightarrow> api_error + int option"
  rcl_ApplyDeployment :: "KDeployment \<Rightarrow> api_error option"
  rcl_DeleteDeployment :: "NamespacedName \<Rightarrow> api_error option"

text \<open>
  Code outside the repository: constants and functions of kserve, \<open>SetControllerReference\<close>, and \<open>json.Unmarshal\<close>, which for the
  storage configuration reads into a map that may already have entries.
\<close>

record runtime_env =
  re_deploy :: deploy_env
  re_ka :: ks_autoscaling
  re_setOwner :: "ObjectMeta \<Rightarrow> HPA \<Rightarrow> string option"
  re_EtcdSecretNameEnv :: "string option"
  re_UnmarshalEtcd :: "string \<Rightarrow> string + EtcdConfig"
  re_UnmarshalStorage :: "string \<Rightarrow> (string, string) gomap \<Rightarrow> string + (string, string) gomap"

datatype runtime_error =
    ListFailed api_error
  | ConstraintsFailed api_error
  | EtcdSecretFailed api_error
  | EtcdConfigUnparsable string
  | RuntimeUnavailable api_error
  | InvalidSpec validation_error
  | StorageUnparsable string
  | RegistryFailed api_error
  | HPAFailed api_error
  | DeploymentUnavailable api_error
  | TransformFailed transform_error
  | ApplyFailed api_error
  | DeleteFailed api_error

datatype runtime_call =
    CallConfigMap object_call
  | CallSecret object_call
  | CallHPA hpa_call
  | CallApply KDeployment
  | CallDelete NamespacedName

section \<open>Claims\<close>

definition go_string :: "string option \<Rightarrow> string" where
  "go_string v = (case v of None \<Rightarrow> [] | Some s \<Rightarrow> s)"

text \<open>The loop over the entries of the storage secret, with the map that all of them are read into.\<close>

fun storage_claims ::
  "(string \<Rightarrow> (string, string) gomap \<Rightarrow> string + (string, string) gomap) \<Rightarrow> string list \<Rightarrow> (string, string) gomap \<Rightarrow> sset \<Rightarrow> string + sset" where
  "storage_claims unmarshal [] storageConfig claims = Inr claims"
| "storage_claims unmarshal (storageData # rest) storageConfig claims =
     (case unmarshal storageData storageConfig of
        Inl err \<Rightarrow> Inl err
      | Inr storageConfig' \<Rightarrow>
          (let name = go_string (gomap_get storageConfig' ''name'')
           in storage_claims unmarshal rest storageConfig'
                (if go_string (gomap_get storageConfig' ''type'') = ''pvc'' \<and> name \<noteq> [] then sset_insert name claims else claims)))"

definition predictor_claim :: "Predictor \<Rightarrow> string option" where
  "predictor_claim p =
     (case Option.bind (m_Storage (p_Spec p)) ss_Parameters of
        None \<Rightarrow> None
      | Some params \<Rightarrow>
          (let name = go_string (gomap_get params ''name'')
           in if go_string (gomap_get params ''type'') = ''pvc'' \<and> name \<noteq> [] then Some name else None))"

definition collect_claim ::
  "ks_protocols \<Rightarrow> ServingRuntimeSpec \<Rightarrow> bool \<Rightarrow> string \<Rightarrow> sset \<Rightarrow> Predictor \<Rightarrow> (sset \<times> bool) option" where
  "collect_claim ks rt restProxyEnabled rtName claims p =
     map_option (\<lambda>supported. (case predictor_claim p of
          Some name \<Rightarrow> if supported then sset_insert name claims else claims
        | None \<Rightarrow> claims, False))
       (runtimeSupportsPredictor ks rt p restProxyEnabled rtName)"

fun predictor_claims ::
  "(sset \<Rightarrow> Predictor \<Rightarrow> (sset \<times> bool) option) \<Rightarrow> PredictorRegistry list \<Rightarrow> string \<Rightarrow> sset \<Rightarrow> (api_error + sset) option" where
  "predictor_claims f [] namespace claims = Some (Inr claims)"
| "predictor_claims f (pr # prs) namespace claims =
     (case registry_Find (rg_Items pr namespace) f claims of
        None \<Rightarrow> None
      | Some (Inl err) \<Rightarrow> Some (Inl err)
      | Some (Inr (claims', _)) \<Rightarrow> predictor_claims f prs namespace claims')"

definition getPVCs ::
  "runtime_env \<Rightarrow> runtime_api \<Rightarrow> PredictorRegistry list \<Rightarrow> NamespacedName \<Rightarrow> ServingRuntimeSpec \<Rightarrow> Config \<Rightarrow> (runtime_error + string list) option" where
  "getPVCs e cl registries req rt cfg =
     (case (case ocl_Get (rcl_Secrets cl) \<lparr>nn_Namespace = nn_Namespace req, nn_Name = de_StorageSecretName (re_deploy e)\<rparr> of
              Inl _ \<Rightarrow> Inr []
            | Inr s \<Rightarrow> storage_claims (re_UnmarshalStorage e) (map snd (do_Data s)) [] []) of
        Inl err \<Rightarrow> Some (Inl (StorageUnparsable err))
      | Inr storageConfigPVCs \<Rightarrow>
          (case (if cfg_AllowAnyPVC cfg
                 then predictor_claims (collect_claim (de_ks (re_deploy e)) rt (rp_Enabled (cfg_RESTProxy cfg)) (nn_Name req))
                        registries (nn_Namespace req) []
                 else Some (Inr [])) of
             None \<Rightarrow> None
           | Some (Inl err) \<Rightarrow> Some (Inl (RegistryFailed err))
           | Some (Inr predictorPVCs) \<Rightarrow>
               Some (Inr (sset_List (storageConfigPVCs @
                 filter (\<lambda>claimName. claimName \<notin> set storageConfigPVCs \<and>
                   rcl_GetPVC cl \<lparr>nn_Namespace = nn_Namespace req, nn_Name = claimName\<rparr> = None) predictorPVCs)))))"

section \<open>The parts of Reconcile\<close>

text \<open>The specs by name: runtimes of the namespace override cluster runtimes.\<close>

definition collect_specs :: "ServingRuntime list \<Rightarrow> ServingRuntime list \<Rightarrow> (string, ServingRuntimeSpec) gomap" where
  "collect_specs csrs runtimes =
     fold (\<lambda>rt. gomap_set (om_Name (rt_Meta rt)) (rt_Spec rt)) runtimes
       (fold (\<lambda>crt. gomap_set (om_Name (rt_Meta crt)) (rt_Spec crt)) (filter (\<lambda>crt. sr_IsMultiModelRuntime (rt_Spec crt)) csrs) [])"

definition list_specs :: "runtime_api \<Rightarrow> bool \<Rightarrow> bool \<Rightarrow> string \<Rightarrow> api_error + (string, ServingRuntimeSpec) gomap" where
  "list_specs cl mmEnabled enableCSRWatch namespace =
     (if \<not> mmEnabled then Inr []
      else (case rcl_ListRuntimes cl namespace of
              Inl err \<Rightarrow> Inl err
            | Inr runtimes \<Rightarrow>
                (case (if enableCSRWatch then rcl_ListClusterRuntimes cl else Inr []) of
                   Inl err \<Rightarrow> Inl err
                 | Inr csrs \<Rightarrow> Inr (collect_specs csrs runtimes))))"

definition reconcile_etcd_secret ::
  "runtime_env \<Rightarrow> runtime_api \<Rightarrow> string \<Rightarrow> string \<Rightarrow> string \<Rightarrow> bool \<Rightarrow> runtime_error option \<times> object_call list" where
  "reconcile_etcd_secret e cl controllerNamespace namespace etcdSecretName noRuntimes =
     (if namespace = controllerNamespace then (None, [])
      else if noRuntimes then
        (case ocl_Get (rcl_Secrets cl) \<lparr>nn_Namespace = namespace, nn_Name = etcdSecretName\<rparr> of
           Inr s \<Rightarrow> (map_option EtcdSecretFailed (ocl_Delete (rcl_Secrets cl) s), [ObjDelete s])
         | Inl NotFound \<Rightarrow> (None, [])
         | Inl err \<Rightarrow> (Some (EtcdSecretFailed err), []))
      else (case ocl_Get (rcl_Secrets cl) \<lparr>nn_Namespace = controllerNamespace, nn_Name = etcdSecretName\<rparr> of
              Inl err \<Rightarrow> (Some (EtcdSecretFailed err), [])
            | Inr s \<Rightarrow>
                (case re_UnmarshalEtcd e (go_string (gomap_get (do_Data s) EtcdSecretKey)) of
                   Inl err \<Rightarrow> (Some (EtcdConfigUnparsable err), [])
                 | Inr etcdConfig \<Rightarrow>
                     (let (err, calls) = fst (EtcdSecret_Apply (rcl_Secrets cl) etcdSecretName namespace etcdConfig)
                      in (map_option EtcdSecretFailed err, calls)))))"

datatype found_runtime = NamespaceRuntime ServingRuntime | ClusterRuntime ServingRuntime | NoRuntime

definition find_runtime :: "runtime_api \<Rightarrow> bool \<Rightarrow> NamespacedName \<Rightarrow> api_error + found_runtime" where
  "find_runtime cl enableCSRWatch req =
     (case rcl_GetRuntime cl req of
        Inr rt \<Rightarrow> Inr (NamespaceRuntime rt)
      | Inl NotFound \<Rightarrow>
          if \<not> enableCSRWatch then Inr NoRuntime
          else (case rcl_GetClusterRuntime cl (nn_Name req) of
                  Inr crt \<Rightarrow> Inr (ClusterRuntime crt)
                | Inl NotFound \<Rightarrow> Inr NoRuntime
                | Inl err \<Rightarrow> Inl err)
      | Inl err \<Rightarrow> Inl err)"

text \<open>\<open>None\<close> when a resource section of the configuration has not been parsed.\<close>

definition mesh_deployment :: "runtime_env \<Rightarrow> Config \<Rightarrow> NamespacedName \<Rightarrow> ObjectMeta \<Rightarrow> ServingRuntimeSpec \<Rightarrow> string list \<Rightarrow> Deployment option" where
  "mesh_deployment e cfg req owner spec pvcs =
     (case (Resources_ToKubernetesType (cfg_ModelMeshResources cfg), Resources_ToKubernetesType (rp_Resources (cfg_RESTProxy cfg)),
            Resources_ToKubernetesType (cfg_StorageHelperResources cfg)) of
        (Some mmResources, Some proxyResources, Some pullerResources) \<Rightarrow>
          Some \<lparr>md_ServiceName = cfg_InferenceServiceName cfg, md_ServicePort = cfg_InferenceServicePort cfg,
            md_Name = nn_Name req, md_Namespace = nn_Namespace req, md_OwnerAnnotations = om_Annotations owner,
            md_SRSpec = spec, md_DefaultVModelOwner = PredictorCRSourceId, md_Metrics = pm_Enabled (cfg_Metrics cfg),
            md_PrometheusPort = pm_Port (cfg_Metrics cfg), md_PrometheusScheme = pm_Scheme (cfg_Metrics cfg),
            md_PayloadProcessors = join_with '' '' (cfg_PayloadProcessors cfg), md_ModelMeshImage = TaggedImage (cfg_ModelMeshImage cfg),
            md_ModelMeshResources = mmResources, md_RESTProxyEnabled = rp_Enabled (cfg_RESTProxy cfg),
            md_RESTProxySkipVerify = rp_SkipVerify (cfg_RESTProxy cfg), md_RESTProxyImage = TaggedImage (rp_Image (cfg_RESTProxy cfg)),
            md_RESTProxyResources = proxyResources, md_RESTProxyPort = rp_Port (cfg_RESTProxy cfg), md_PVCs = pvcs,
            md_ModelMeshAdditionalEnvVars = EnvVarList_ToKubernetesType (cfg_InternalModelMeshEnvVars cfg),
            md_PullerImage = TaggedImage (cfg_StorageHelperImage cfg), md_PullerImageCommand = im_Command (cfg_StorageHelperImage cfg),
            md_PullerResources = pullerResources, md_Replicas = 0, md_Port = cfg_InferenceServicePort cfg,
            md_TLSSecretName = tc_SecretName (cfg_TLS cfg), md_TLSClientAuth = tc_ClientAuth (cfg_TLS cfg),
            md_EtcdSecretName = GetEtcdSecretName (re_EtcdSecretNameEnv e) cfg, md_ServiceAccountName = cfg_ServiceAccountName cfg,
            md_GrpcMaxMessageSize = cfg_GrpcMaxMessageSizeBytes cfg, md_AnnotationsMap = cfg_RuntimePodAnnotations cfg,
            md_LabelsMap = cfg_RuntimePodLabels cfg, md_ImagePullSecrets = cfg_ImagePullSecrets cfg,
            md_EnableAccessLogging = cfg_EnableAccessLogging cfg\<rparr>
      | _ \<Rightarrow> None)"

text \<open>\<open>errors.IsConflict\<close> looks through wrapped errors; the error of \<open>setConfigMap\<close> wraps that of the API server.\<close>

definition is_conflict :: "runtime_error \<Rightarrow> bool" where
  "is_conflict err =
     (case err of
        ApplyFailed Conflict \<Rightarrow> True
      | TransformFailed (ConfigMapUnavailable _ Conflict) \<Rightarrow> True
      | _ \<Rightarrow> False)"

definition apply_deployment :: "runtime_env \<Rightarrow> runtime_api \<Rightarrow> Deployment \<Rightarrow> (runtime_error option \<times> runtime_call list) option" where
  "apply_deployment e cl m =
     (case Apply_manifest (re_deploy e) m of
        None \<Rightarrow> None
      | Some (Inl err) \<Rightarrow> Some (Some (TransformFailed err), [])
      | Some (Inr d) \<Rightarrow> Some (map_option ApplyFailed (rcl_ApplyDeployment cl d), [CallApply d]))"

text \<open>
  The replicas of the Deployment and the HPA: scaled to zero or without autoscaler, the replicas are those decided and
  the HPA goes; otherwise they are those of the existing Deployment, or the minimum of the HPA when that has none.
\<close>

definition scale_deployment ::
  "runtime_env \<Rightarrow> runtime_api \<Rightarrow> NamespacedName \<Rightarrow> string \<Rightarrow> Autoscaler \<Rightarrow> u16 \<Rightarrow> (runtime_error + u16) option \<times> runtime_call list" where
  "scale_deployment e cl req mmDeploymentName as replicas =
     (let reconcile = (\<lambda>scaleToZero n.
            case Autoscaler_Reconcile (re_ka e) (rcl_HPA cl) as scaleToZero of
              None \<Rightarrow> (None, [])
            | Some (Inl err, calls) \<Rightarrow> (Some (Inl (HPAFailed err)), map CallHPA calls)
            | Some (Inr _, calls) \<Rightarrow> (Some (Inr n), map CallHPA calls))
      in if replicas = 0 \<or> as_AutoscalerClass as = AutoscalerClassNone then reconcile True replicas
         else (case rcl_GetDeploymentReplicas cl \<lparr>nn_Namespace = nn_Namespace req, nn_Name = mmDeploymentName\<rparr> of
                 Inl err \<Rightarrow> (Some (Inl (DeploymentUnavailable err)), [])
               | Inr None \<Rightarrow> (None, [])
               | Inr (Some existing) \<Rightarrow>
                   if existing = 0 then
                     (case Option.bind (as_HPA as) hpa_MinReplicas of
                        None \<Rightarrow> (None, [])
                      | Some n \<Rightarrow> reconcile False (word_of_int n))
                   else reconcile False (word_of_int existing)))"

section \<open>Reconcile\<close>

definition result_after :: "duration \<Rightarrow> ctrl_result" where
  "result_after d = (if d = 0 then Done else RequeueAfter d)"

type_synonym runtime_outcome = "((runtime_error + ctrl_result) \<times> runtime_call list \<times> runtimeInfoMap) option"

text \<open>
  From the autoscaler on. A failure to create the autoscaler is only logged, so that its nil pointer is used afterwards.
\<close>

definition reconcile_enabled ::
  "runtime_env \<Rightarrow> runtime_api \<Rightarrow> PredictorRegistry list \<Rightarrow> Config \<Rightarrow> NamespacedName \<Rightarrow> ObjectMeta \<Rightarrow> ServingRuntimeSpec \<Rightarrow>
     Deployment \<Rightarrow> gotime \<Rightarrow> gotime \<Rightarrow> runtimeInfoMap \<Rightarrow> runtime_outcome" where
  "reconcile_enabled e cl registries cfg req runtimeMeta spec m now1 now2 infoMap =
     (let mmDeploymentName = md_ServiceName m @ ''-'' @ md_Name m;
          as = createAutoscaler (re_ka e) (de_Union (re_deploy e)) (re_setOwner e) runtimeMeta mmDeploymentName (md_Namespace m)
      in case determineReplicasAndRequeueDuration (de_ks (re_deploy e)) registries cfg spec req now1 now2 infoMap of
           None \<Rightarrow> None
         | Some (Inl err, infoMap') \<Rightarrow> Some (Inl (RegistryFailed err), [], infoMap')
         | Some (Inr (replicas, requeueDuration), infoMap') \<Rightarrow>
             (case as of
                Inl _ \<Rightarrow> None
              | Inr as \<Rightarrow>
                  (case scale_deployment e cl req mmDeploymentName as replicas of
                     (None, _) \<Rightarrow> None
                   | (Some (Inl err), calls) \<Rightarrow> Some (Inl err, calls, infoMap')
                   | (Some (Inr n), calls) \<Rightarrow>
                       (case apply_deployment e cl (m\<lparr>md_Replicas := n\<rparr>) of
                          None \<Rightarrow> None
                        | Some (Some err, calls') \<Rightarrow>
                            Some (if is_conflict err then Inr RequeueResult else Inl err, calls @ calls', infoMap')
                        | Some (None, calls') \<Rightarrow> Some (Inr (result_after requeueDuration), calls @ calls', infoMap')))))"

definition reconcile_found ::
  "runtime_env \<Rightarrow> runtime_api \<Rightarrow> PredictorRegistry list \<Rightarrow> Config \<Rightarrow> NamespacedName \<Rightarrow> bool \<Rightarrow> ObjectMeta \<Rightarrow> ObjectMeta \<Rightarrow> ServingRuntimeSpec \<Rightarrow>
     gotime \<Rightarrow> gotime \<Rightarrow> runtimeInfoMap \<Rightarrow> runtime_outcome" where
  "reconcile_found e cl registries cfg req mmEnabled owner runtimeMeta spec now1 now2 infoMap =
     (case validateServingRuntimeSpec (cfg_BuiltInServerTypes cfg) spec of
        Some err \<Rightarrow> Some (Inl (InvalidSpec err), [], infoMap)
      | None \<Rightarrow>
          (case getPVCs e cl registries req spec cfg of
             None \<Rightarrow> None
           | Some (Inl err) \<Rightarrow> Some (Inl err, [], infoMap)
           | Some (Inr pvcs) \<Rightarrow>
               (case mesh_deployment e cfg req owner spec pvcs of
                  None \<Rightarrow> None
                | Some m \<Rightarrow>
                    if sr_IsDisabled spec \<or> \<not> sr_IsMultiModelRuntime spec \<or> \<not> mmEnabled then
                      (let n = \<lparr>nn_Namespace = md_Namespace m, nn_Name = md_ServiceName m @ ''-'' @ md_Name m\<rparr>
                       in Some (case rcl_DeleteDeployment cl n of Some err \<Rightarrow> Inl (DeleteFailed err) | None \<Rightarrow> Inr Done, [CallDelete n], infoMap))
                    else reconcile_enabled e cl registries cfg req runtimeMeta spec m now1 now2 infoMap)))"

definition Runtime_Reconcile ::
  "runtime_env \<Rightarrow> runtime_api \<Rightarrow> ServingRuntimeReconciler \<Rightarrow> Config \<Rightarrow> NamespacedName \<Rightarrow> gotime \<Rightarrow> gotime \<Rightarrow> runtimeInfoMap \<Rightarrow> runtime_outcome" where
  "Runtime_Reconcile e cl r cfg req now1 now2 infoMap =
     (let namespace = nn_Namespace req;
          registries = map snd (srr_RegistryMap r);
          mmEnabled = modelMeshEnabled2 cl namespace (srr_ControllerNamespace r) (srr_ClusterScope r)
      in case list_specs cl mmEnabled (srr_EnableCSRWatch r) namespace of
           Inl err \<Rightarrow> Some (Inl (ListFailed err), [], infoMap)
         | Inr srSpecs \<Rightarrow>
             (case ClusterConfig_Reconcile (de_ks (re_deploy e)) (rcl_ConfigMaps cl) srSpecs namespace (rp_Enabled (cfg_RESTProxy cfg)) of
                (Some err, calls) \<Rightarrow> Some (Inl (ConstraintsFailed err), map CallConfigMap calls, infoMap)
              | (None, calls) \<Rightarrow>
                  (let etcdSecretName = GetEtcdSecretName (re_EtcdSecretNameEnv e) cfg;
                       (err, calls') = reconcile_etcd_secret e cl (srr_ControllerNamespace r) namespace etcdSecretName (srSpecs = []);
                       made = map CallConfigMap calls @ map CallSecret calls';
                       continue = (\<lambda>owner runtimeMeta spec.
                         map_option (\<lambda>(res, calls'', m). (res, made @ calls'', m))
                           (reconcile_found e cl registries cfg req mmEnabled owner runtimeMeta spec now1 now2 infoMap))
                   in case err of
                        Some err \<Rightarrow> Some (Inl err, made, infoMap)
                      | None \<Rightarrow>
                          (case find_runtime cl (srr_EnableCSRWatch r) req of
                             Inl err \<Rightarrow> Some (Inl (RuntimeUnavailable err), made, infoMap)
                           | Inr NoRuntime \<Rightarrow> Some (Inr Done, made, removeRuntimeFromInfoMap req infoMap)
                           | Inr (NamespaceRuntime rt) \<Rightarrow> continue (rt_Meta rt) (rt_Meta rt) (rt_Spec rt)
                           | Inr (ClusterRuntime crt) \<Rightarrow>
                               continue (rt_Meta crt) (if om_Name (rt_Meta crt) \<noteq> [] then rt_Meta crt else zero_Meta) (rt_Spec crt)))))"

section \<open>Claims: lemmas\<close>

text \<open>Sorted by Go's order of strings.\<close>

definition sorted_strings :: "string list \<Rightarrow> bool" where
  "sorted_strings = sorted_wrt string_leq"

lemma string_leq_linear: "string_leq a b \<or> string_leq b a"
  by (induction a b rule: string_leq.induct) auto

lemma string_leq_trans: "string_leq a b \<Longrightarrow> string_leq b c \<Longrightarrow> string_leq a c"
proof (induction a b arbitrary: c rule: string_leq.induct)
  case (3 x a y b)
  then show ?case by (cases c) (auto split: if_splits)
qed auto

lemma sorted_insert_key:
  assumes "sorted_strings (map fst m)"
  shows "sorted_strings (map fst (insert_key e m))"
  using assms
proof (induction e m rule: insert_key.induct)
qed (use string_leq_linear in \<open>auto simp: sorted_strings_def dest: string_leq_trans\<close>)

lemma mset_insert_key: "mset (insert_key e m) = add_mset e (mset m)"
  by (induction e m rule: insert_key.induct) auto

lemma mset_sort_keys: "mset (sort_keys m) = mset m"
  by (induction m) (simp_all add: sort_keys_def mset_insert_key)

lemma sset_List_sorted: "sorted_strings (sset_List s)" and sset_List_distinct: "distinct (sset_List s) \<longleftrightarrow> distinct s"
proof -
  have "sorted_strings (map fst (sort_keys m))" for m :: "(string \<times> unit) list"
    by (induction m) (simp_all add: sort_keys_def sorted_insert_key, simp add: sorted_strings_def)
  then show "sorted_strings (sset_List s)" by (simp add: sset_List_def)
  have "mset (sset_List s) = image_mset fst (mset (sort_keys (map (\<lambda>k. (k, ())) s)))" by (simp add: sset_List_def)
  also have "\<dots> = mset s" unfolding mset_sort_keys by (simp add: multiset.map_comp comp_def)
  finally have "mset (sset_List s) = mset s" .
  then show "distinct (sset_List s) \<longleftrightarrow> distinct s" by (metis mset_eq_imp_distinct_iff)
qed

lemma storage_claims_distinct: "storage_claims um ds sc claims = Inr s \<Longrightarrow> distinct claims \<Longrightarrow> distinct s"
proof (induction ds arbitrary: sc claims)
  case (Cons d ds)
  show ?case
  proof (cases "um d sc")
    case (Inr sc')
    have "distinct (if P then sset_insert n claims else claims)" for P n using Cons.prems(2) by simp
    then show ?thesis using Cons.prems(1) Cons.IH unfolding storage_claims.simps Inr sum.case Let_def by blast
  qed (use Cons.prems(1) in simp)
qed simp

text \<open>The claim a runtime takes from a Predictor.\<close>

definition wants_claim :: "ks_protocols \<Rightarrow> ServingRuntimeSpec \<Rightarrow> bool \<Rightarrow> string \<Rightarrow> Predictor \<Rightarrow> string \<Rightarrow> bool" where
  "wants_claim ks rt rest name p c \<longleftrightarrow> runtimeSupportsPredictor ks rt p rest name = Some True \<and> predictor_claim p = Some c"

lemma collect_claim_iff:
  "collect_claim ks rt rest name s p = Some (s', b) \<Longrightarrow>
     \<not> b \<and> (distinct s \<longrightarrow> distinct s') \<and> (\<forall>c. c \<in> set s' \<longleftrightarrow> c \<in> set s \<or> wants_claim ks rt rest name p c)"
  by (cases "predictor_claim p"; cases "runtimeSupportsPredictor ks rt p rest name = Some True")
    (auto simp: collect_claim_def wants_claim_def)

lemma visit_claims:
  assumes "visit_loop (find_body (collect_claim ks rt rest name)) s xs = Some (s', b)"
  shows "(distinct s \<longrightarrow> distinct s') \<and> set s \<subseteq> set s' \<and>
     (\<forall>c \<in> set s'. c \<in> set s \<or> (\<exists>p. Some p \<in> set xs \<and> wants_claim ks rt rest name p c)) \<and>
     (None \<notin> set xs \<longrightarrow> (\<forall>p c. Some p \<in> set xs \<and> wants_claim ks rt rest name p c \<longrightarrow> c \<in> set s'))"
  using assms
proof (induction xs arbitrary: s)
  case (Cons x xs)
  show ?case
  proof (cases x)
    case None
    then show ?thesis using Cons.prems by (simp add: find_body_def)
  next
    case (Some p)
    obtain s1 b1 where c: "collect_claim ks rt rest name s p = Some (s1, b1)"
      using Cons.prems Some by (cases "collect_claim ks rt rest name s p") (auto simp: find_body_def)
    note i = collect_claim_iff[OF c]
    have "visit_loop (find_body (collect_claim ks rt rest name)) s1 xs = Some (s', b)"
      using Cons.prems Some c i by (simp add: find_body_def[of _ s "Some p"])
    from Cons.IH[OF this] show ?thesis using i Some by auto
  qed
qed simp

definition registry_claim :: "(Predictor \<Rightarrow> string \<Rightarrow> bool) \<Rightarrow> string \<Rightarrow> PredictorRegistry \<Rightarrow> string \<Rightarrow> bool" where
  "registry_claim wants ns pr c \<longleftrightarrow> (\<exists>xs p. rg_Items pr ns = Inr xs \<and> Some p \<in> set xs \<and> wants p c)"

definition registry_readable :: "string \<Rightarrow> PredictorRegistry \<Rightarrow> bool" where
  "registry_readable ns pr \<longleftrightarrow> (\<forall>xs. rg_Items pr ns = Inr xs \<longrightarrow> None \<notin> set xs)"

lemma predictor_claims_iff:
  assumes "predictor_claims (collect_claim ks rt rest name) prs ns s = Some (Inr s')"
  shows "(distinct s \<longrightarrow> distinct s') \<and> set s \<subseteq> set s' \<and>
     (\<forall>c \<in> set s'. c \<in> set s \<or> (\<exists>pr \<in> set prs. registry_claim (wants_claim ks rt rest name) ns pr c)) \<and>
     (\<forall>pr \<in> set prs. registry_readable ns pr \<longrightarrow> (\<forall>c. registry_claim (wants_claim ks rt rest name) ns pr c \<longrightarrow> c \<in> set s'))"
  using assms
proof (induction prs arbitrary: s)
  case (Cons pr prs)
  obtain xs s1 b where x: "rg_Items pr ns = Inr xs" "visit_loop (find_body (collect_claim ks rt rest name)) s xs = Some (s1, b)"
    "predictor_claims (collect_claim ks rt rest name) prs ns s1 = Some (Inr s')"
    using Cons.prems by (auto simp: registry_Find_def split: option.splits sum.splits)
  note v = visit_claims[OF x(2)] and ih = Cons.IH[OF x(3)]
  have c1: "registry_claim (wants_claim ks rt rest name) ns pr c \<longleftrightarrow> (\<exists>p. Some p \<in> set xs \<and> wants_claim ks rt rest name p c)" for c
    by (simp add: registry_claim_def x(1))
  have c2: "registry_readable ns pr \<longleftrightarrow> None \<notin> set xs" by (simp add: registry_readable_def x(1))
  have "\<forall>c \<in> set s'. c \<in> set s \<or> (\<exists>pr \<in> set (pr # prs). registry_claim (wants_claim ks rt rest name) ns pr c)"
    using v ih c1 by auto
  moreover have "\<forall>pr' \<in> set (pr # prs). registry_readable ns pr' \<longrightarrow>
      (\<forall>c. registry_claim (wants_claim ks rt rest name) ns pr' c \<longrightarrow> c \<in> set s')"
    using v ih c1 c2 by auto
  ultimately show ?case using v ih by blast
qed simp


section \<open>Witnesses for the claims\<close>

definition sample_deploy_env :: deploy_env where
  "sample_deploy_env = \<lparr>de_ks = sample_protocols, de_Union = concat, de_StorageSecretName = ''storage-config'',
     de_GetSecret = (\<lambda>_. Inl NotFound), de_GetConfigMap = (\<lambda>_. None), de_grow = (\<lambda>_ n. n)\<rparr>"

text \<open>A JSON reader that knows two entries.\<close>

definition sample_unmarshal :: "string \<Rightarrow> (string, string) gomap \<Rightarrow> string + (string, string) gomap" where
  "sample_unmarshal d m = (if d = ''local'' then Inr (gomap_set ''name'' ''b'' (gomap_set ''type'' ''pvc'' m))
     else if d = ''s3'' then Inr (gomap_set ''type'' ''s3'' m) else Inl ''syntax'')"

definition sample_runtime_env :: runtime_env where
  "sample_runtime_env = \<lparr>re_deploy = sample_deploy_env, re_ka = sample_ka, re_setOwner = (\<lambda>_ _. None), re_EtcdSecretNameEnv = None,
     re_UnmarshalEtcd = Inl, re_UnmarshalStorage = sample_unmarshal\<rparr>"

definition no_objects :: object_client where
  "no_objects = \<lparr>ocl_Get = (\<lambda>_. Inl NotFound), ocl_Create = (\<lambda>_. None), ocl_Update = (\<lambda>_. None), ocl_Delete = (\<lambda>_. None)\<rparr>"

definition storage_secret :: data_object where
  "storage_secret = \<lparr>do_Meta = zero_Meta, do_Data = [(''x'', ''local''), (''y'', ''s3'')]\<rparr>"

definition sample_api :: runtime_api where
  "sample_api = \<lparr>rcl_GetNamespace = (\<lambda>_. Inl NotFound), rcl_ListNamespaces = Inr [], rcl_ListRuntimes = (\<lambda>_. Inr []),
     rcl_ListClusterRuntimes = Inr [], rcl_GetRuntime = (\<lambda>n. Inr \<lparr>rt_Meta = zero_Meta\<lparr>om_Name := nn_Name n, om_Namespace := nn_Namespace n\<rparr>, rt_Spec = sample_rt_spec\<rparr>),
     rcl_GetClusterRuntime = (\<lambda>_. Inl NotFound), rcl_ConfigMaps = no_objects, rcl_Secrets = no_objects\<lparr>ocl_Get := (\<lambda>_. Inr storage_secret)\<rparr>,
     rcl_GetPVC = (\<lambda>n. if nn_Name n = ''a'' then None else Some NotFound), rcl_HPA = hpa_server None,
     rcl_GetDeploymentReplicas = (\<lambda>_. Inl NotFound), rcl_ApplyDeployment = (\<lambda>_. None), rcl_DeleteDeployment = (\<lambda>_. None)\<rparr>"

definition claim_predictor :: "string \<Rightarrow> Predictor" where
  "claim_predictor c = onnx_predictor\<lparr>p_Spec := (p_Spec onnx_predictor)
     \<lparr>m_Storage := Some \<lparr>ss_Path = None, ss_SchemaPath = None, ss_Parameters = Some [(''type'', ''pvc''), (''name'', c)], ss_StorageKey = None,
        st_PersistentVolumeClaim = None, st_S3 = None\<rparr>\<rparr>\<rparr>"


section \<open>The handler\<close>

lemma scale_deployment_calls:
  assumes "scale_deployment e cl req nm as r = (y, cs)"
  shows "CallApply d \<notin> set cs \<and> CallDelete x \<notin> set cs"
    and "y = Some (Inr n) \<Longrightarrow> as_AutoscalerClass as = AutoscalerClassNone \<or> r = 0 \<Longrightarrow> n = r"
  using assms by (auto simp: scale_deployment_def Let_def split: if_splits option.splits sum.splits prod.splits)

lemma apply_deployment_calls:
  assumes "apply_deployment e cl m = Some (y, cs)"
  shows "cs = [] \<or> (\<exists>d. cs = [CallApply d] \<and> Apply_manifest (re_deploy e) m = tr_ok d)"
  using assms by (auto simp: apply_deployment_def split: option.splits sum.splits)

lemma reconcile_enabled_stages:
  assumes "reconcile_enabled e cl prs cfg req meta spec m now1 now2 im = Some (res, calls, im')" and "call \<in> set calls"
  obtains replicas dur as y hc where
    "determineReplicasAndRequeueDuration (de_ks (re_deploy e)) prs cfg spec req now1 now2 im = Some (Inr (replicas, dur), im')"
    "createAutoscaler (re_ka e) (de_Union (re_deploy e)) (re_setOwner e) meta (md_ServiceName m @ ''-'' @ md_Name m) (md_Namespace m) = Inr as"
    "scale_deployment e cl req (md_ServiceName m @ ''-'' @ md_Name m) as replicas = (y, hc)"
    "calls = hc \<or> (\<exists>n d. y = Some (Inr n) \<and> calls = hc @ [CallApply d] \<and> Apply_manifest (re_deploy e) (m\<lparr>md_Replicas := n\<rparr>) = tr_ok d)"
proof -
  let ?det = "determineReplicasAndRequeueDuration (de_ks (re_deploy e)) prs cfg spec req now1 now2 im"
  let ?as = "createAutoscaler (re_ka e) (de_Union (re_deploy e)) (re_setOwner e) meta (md_ServiceName m @ ''-'' @ md_Name m) (md_Namespace m)"
  let ?name = "md_ServiceName m @ ''-'' @ md_Name m"
  note r = assms(1)[unfolded reconcile_enabled_def Let_def]
  obtain replicas dur im1 where det: "?det = Some (Inr (replicas, dur), im1)"
    using r assms(2) by (auto split: option.splits prod.splits sum.splits)
  obtain as where as: "?as = Inr as" using r unfolding det by (auto split: sum.splits)
  note r' = r[unfolded det as option.case prod.case sum.case]
  obtain y hc where sc: "scale_deployment e cl req ?name as replicas = (y, hc)" by fastforce
  have im: "im1 = im'" and "calls = hc \<or> (\<exists>n d. y = Some (Inr n) \<and> calls = hc @ [CallApply d] \<and> Apply_manifest (re_deploy e) (m\<lparr>md_Replicas := n\<rparr>) = tr_ok d)"
    using r'[unfolded sc] by (auto split: option.splits sum.splits dest!: apply_deployment_calls)
  then show thesis using that det as sc by simp
qed

definition runtime_enabled :: "runtime_api \<Rightarrow> ServingRuntimeReconciler \<Rightarrow> NamespacedName \<Rightarrow> ServingRuntimeSpec \<Rightarrow> bool" where
  "runtime_enabled cl r req spec \<longleftrightarrow> modelMeshEnabled2 cl (nn_Namespace req) (srr_ControllerNamespace r) (srr_ClusterScope r) \<and>
     \<not> sr_IsDisabled spec \<and> sr_IsMultiModelRuntime spec"

definition runtime_found :: "runtime_api \<Rightarrow> ServingRuntimeReconciler \<Rightarrow> NamespacedName \<Rightarrow> ServingRuntime \<Rightarrow> bool" where
  "runtime_found cl r req rt \<longleftrightarrow> find_runtime cl (srr_EnableCSRWatch r) req = Inr (NamespaceRuntime rt) \<or>
     find_runtime cl (srr_EnableCSRWatch r) req = Inr (ClusterRuntime rt)"

lemma Runtime_Reconcile_found:
  assumes "Runtime_Reconcile e cl r cfg req now1 now2 im = Some (res, calls, im')"
    and "call \<in> set calls" and "(\<exists>d. call = CallApply d) \<or> (\<exists>n. call = CallDelete n)"
  obtains rt meta c1 c2 calls2 where
    "runtime_found cl r req rt"
    "calls = map CallConfigMap c1 @ map CallSecret c2 @ calls2" "call \<in> set calls2"
    "reconcile_found e cl (map snd (srr_RegistryMap r)) cfg req (modelMeshEnabled2 cl (nn_Namespace req) (srr_ControllerNamespace r) (srr_ClusterScope r))
       (rt_Meta rt) meta (rt_Spec rt) now1 now2 im = Some (res, calls2, im')"
  using assms unfolding Runtime_Reconcile_def runtime_found_def Let_def
  by (auto split: sum.splits prod.splits option.splits found_runtime.splits)

lemma reconcile_found_stages:
  assumes "reconcile_found e cl prs cfg req mmEnabled owner meta spec now1 now2 im = Some (res, calls, im')" and "call \<in> set calls"
  obtains pvcs m where "validateServingRuntimeSpec (cfg_BuiltInServerTypes cfg) spec = None" "getPVCs e cl prs req spec cfg = Some (Inr pvcs)"
    "mesh_deployment e cfg req owner spec pvcs = Some m"
    "if sr_IsDisabled spec \<or> \<not> sr_IsMultiModelRuntime spec \<or> \<not> mmEnabled then \<exists>x. calls = [CallDelete x]
     else reconcile_enabled e cl prs cfg req meta spec m now1 now2 im = Some (res, calls, im')"
  using assms unfolding reconcile_found_def Let_def
  by (auto split: option.splits sum.splits if_splits)

text \<open>
  C32. When a reconciliation applies a Deployment, this is its last request, and the Deployment is the one built for the
  runtime found, with the claims collected for it; the runtime is enabled, its namespace is, and its spec has passed
  validation. The runtime has no pods if that was decided. A Deployment is deleted only for a runtime that is
  not enabled, and then nothing is applied.
\<close>

theorem Reconcile_applies_valid:
  assumes "Runtime_Reconcile e cl r cfg req now1 now2 im = Some (res, calls, im')"
  shows "(\<forall>d. CallApply d \<in> set calls \<longrightarrow>
       (\<exists>rt pvcs m n k dur. runtime_found cl r req rt \<and> runtime_enabled cl r req (rt_Spec rt) \<and>
          validateServingRuntimeSpec (cfg_BuiltInServerTypes cfg) (rt_Spec rt) = None \<and>
          getPVCs e cl (map snd (srr_RegistryMap r)) req (rt_Spec rt) cfg = Some (Inr pvcs) \<and>
          mesh_deployment e cfg req (rt_Meta rt) (rt_Spec rt) pvcs = Some m \<and>
          Apply_manifest (re_deploy e) (m\<lparr>md_Replicas := n\<rparr>) = tr_ok d \<and> last calls = CallApply d \<and>
          determineReplicasAndRequeueDuration (de_ks (re_deploy e)) (map snd (srr_RegistryMap r)) cfg (rt_Spec rt) req now1 now2 im =
            Some (Inr (k, dur), im') \<and> (k = 0 \<longrightarrow> n = 0))) \<and>
     (\<forall>x. CallDelete x \<in> set calls \<longrightarrow>
       (\<exists>rt. runtime_found cl r req rt \<and> \<not> runtime_enabled cl r req (rt_Spec rt)) \<and> (\<forall>d. CallApply d \<notin> set calls))"
proof (intro conjI allI impI)
  fix d assume d: "CallApply d \<in> set calls"
  obtain rt meta c1 c2 calls2 where f: "runtime_found cl r req rt" "calls = map CallConfigMap c1 @ map CallSecret c2 @ calls2" "CallApply d \<in> set calls2"
    "reconcile_found e cl (map snd (srr_RegistryMap r)) cfg req (modelMeshEnabled2 cl (nn_Namespace req) (srr_ControllerNamespace r) (srr_ClusterScope r))
       (rt_Meta rt) meta (rt_Spec rt) now1 now2 im = Some (res, calls2, im')"
    by (rule Runtime_Reconcile_found[OF assms d]) simp_all
  from f(4,3) obtain pvcs m where g: "validateServingRuntimeSpec (cfg_BuiltInServerTypes cfg) (rt_Spec rt) = None"
    "getPVCs e cl (map snd (srr_RegistryMap r)) req (rt_Spec rt) cfg = Some (Inr pvcs)" "mesh_deployment e cfg req (rt_Meta rt) (rt_Spec rt) pvcs = Some m"
    "runtime_enabled cl r req (rt_Spec rt)"
    "reconcile_enabled e cl (map snd (srr_RegistryMap r)) cfg req meta (rt_Spec rt) m now1 now2 im = Some (res, calls2, im')"
    by (rule reconcile_found_stages) (use f(3) in \<open>auto simp: runtime_enabled_def split: if_splits\<close>)
  from g(5) f(3) show "\<exists>rt pvcs m n k dur. runtime_found cl r req rt \<and> runtime_enabled cl r req (rt_Spec rt) \<and>
          validateServingRuntimeSpec (cfg_BuiltInServerTypes cfg) (rt_Spec rt) = None \<and>
          getPVCs e cl (map snd (srr_RegistryMap r)) req (rt_Spec rt) cfg = Some (Inr pvcs) \<and>
          mesh_deployment e cfg req (rt_Meta rt) (rt_Spec rt) pvcs = Some m \<and>
          Apply_manifest (re_deploy e) (m\<lparr>md_Replicas := n\<rparr>) = tr_ok d \<and> last calls = CallApply d \<and>
          determineReplicasAndRequeueDuration (de_ks (re_deploy e)) (map snd (srr_RegistryMap r)) cfg (rt_Spec rt) req now1 now2 im =
            Some (Inr (k, dur), im') \<and> (k = 0 \<longrightarrow> n = 0)"
  proof (rule reconcile_enabled_stages)
    fix k dur as y hc
    assume det: "determineReplicasAndRequeueDuration (de_ks (re_deploy e)) (map snd (srr_RegistryMap r)) cfg (rt_Spec rt) req now1 now2 im = Some (Inr (k, dur), im')"
      and sc: "scale_deployment e cl req (md_ServiceName m @ ''-'' @ md_Name m) as k = (y, hc)"
      and c: "calls2 = hc \<or> (\<exists>n d. y = Some (Inr n) \<and> calls2 = hc @ [CallApply d] \<and> Apply_manifest (re_deploy e) (m\<lparr>md_Replicas := n\<rparr>) = tr_ok d)"
    note hc = scale_deployment_calls[OF sc]
    obtain n where n: "y = Some (Inr n)" "calls2 = hc @ [CallApply d]" "Apply_manifest (re_deploy e) (m\<lparr>md_Replicas := n\<rparr>) = tr_ok d"
      using c hc(1)[of d] f(3) by auto
    then have "last calls = CallApply d" "k = 0 \<longrightarrow> n = 0" using hc(2) f(2) by auto
    then show ?thesis using f(1) g n(3) det by blast
  qed
next
  fix x assume x: "CallDelete x \<in> set calls"
  obtain rt meta c1 c2 calls2 where f: "runtime_found cl r req rt" "calls = map CallConfigMap c1 @ map CallSecret c2 @ calls2" "CallDelete x \<in> set calls2"
    "reconcile_found e cl (map snd (srr_RegistryMap r)) cfg req (modelMeshEnabled2 cl (nn_Namespace req) (srr_ControllerNamespace r) (srr_ClusterScope r))
       (rt_Meta rt) meta (rt_Spec rt) now1 now2 im = Some (res, calls2, im')"
    by (rule Runtime_Reconcile_found[OF assms x]) simp_all
  have no: "\<not> reconcile_enabled e cl (map snd (srr_RegistryMap r)) cfg req meta (rt_Spec rt) m now1 now2 im = Some (res, calls2, im')" for m
  proof
    assume "reconcile_enabled e cl (map snd (srr_RegistryMap r)) cfg req meta (rt_Spec rt) m now1 now2 im = Some (res, calls2, im')"
    from this f(3) show False
    proof (rule reconcile_enabled_stages)
      fix k dur as y hc
      assume sc: "scale_deployment e cl req (md_ServiceName m @ ''-'' @ md_Name m) as k = (y, hc)"
        and c: "calls2 = hc \<or> (\<exists>n d. y = Some (Inr n) \<and> calls2 = hc @ [CallApply d] \<and> Apply_manifest (re_deploy e) (m\<lparr>md_Replicas := n\<rparr>) = tr_ok d)"
      show False using c f(3) scale_deployment_calls(1)[OF sc, of _ x] by auto
    qed
  qed
  from f(4,3) have "\<not> runtime_enabled cl r req (rt_Spec rt) \<and> calls2 = [CallDelete x]"
    by (rule reconcile_found_stages) (use no f(3) in \<open>auto simp: runtime_enabled_def split: if_splits\<close>)
  then show "\<exists>rt. runtime_found cl r req rt \<and> \<not> runtime_enabled cl r req (rt_Spec rt)" "\<And>d. CallApply d \<notin> set calls" using f(1,2) by auto
qed

text \<open>A namespace with one runtime, which has a container and both endpoints.\<close>

definition mesh_runtime :: ServingRuntime where
  "mesh_runtime = \<lparr>rt_Meta = zero_Meta\<lparr>om_Name := ''rt'', om_Namespace := ''ns''\<rparr>,
     rt_Spec = sample_rt_spec\<lparr>sr_Containers := [zero_Container\<lparr>c_Name := ''rt'', c_Image := ''i:2''\<rparr>],
       sr_GrpcDataEndpoint := Some ''unix:///s/d.sock'', sr_GrpcMultiModelManagementEndpoint := Some ''port:8001''\<rparr>\<rparr>"

definition mesh_api :: runtime_api where
  "mesh_api = sample_api\<lparr>rcl_ListRuntimes := (\<lambda>_. Inr [mesh_runtime]), rcl_GetRuntime := (\<lambda>_. Inr mesh_runtime)\<rparr>"

definition mesh_reconciler :: ServingRuntimeReconciler where
  "mesh_reconciler = \<lparr>srr_ControllerNamespace = ''ns'', srr_ClusterScope = False, srr_EnableCSRWatch = False, srr_EnableSecretWatch = True,
     srr_RegistryMap = [(PredictorCRSourceId, PredictorCRRegistry (store_client [claim_predictor ''a'']))]\<rparr>"

definition applies :: "runtime_outcome \<Rightarrow> bool" where
  "applies r \<longleftrightarrow> (case r of None \<Rightarrow> False | Some (_, calls, _) \<Rightarrow> list_ex (\<lambda>c. case c of CallApply _ \<Rightarrow> True | _ \<Rightarrow> False) calls)"

lemma appliesE: "applies r \<Longrightarrow> \<exists>res calls im d. r = Some (res, calls, im) \<and> CallApply d \<in> set calls"
proof -
  have "list_ex (\<lambda>c. case c of CallApply _ \<Rightarrow> True | _ \<Rightarrow> False) cs \<Longrightarrow> \<exists>d. CallApply d \<in> set cs" for cs
    by (induction cs) (auto split: runtime_call.splits)
  then show "applies r \<Longrightarrow> \<exists>res calls im d. r = Some (res, calls, im) \<and> CallApply d \<in> set calls"
    by (cases r) (auto simp: applies_def)
qed

theorem Reconcile_applies_valid_witness:
  "\<exists>res calls im d. Runtime_Reconcile sample_runtime_env mesh_api mesh_reconciler (cp_config sample_provider) rt_name 0 0 None = Some (res, calls, im) \<and>
     last calls = CallApply d"
proof -
  have "applies (Runtime_Reconcile sample_runtime_env mesh_api mesh_reconciler (cp_config sample_provider) rt_name 0 0 None)" by code_simp
  from appliesE[OF this] obtain res calls im d where
    r: "Runtime_Reconcile sample_runtime_env mesh_api mesh_reconciler (cp_config sample_provider) rt_name 0 0 None = Some (res, calls, im)" and
    d: "CallApply d \<in> set calls" by (elim exE conjE)
  have "last calls = CallApply d" using Reconcile_applies_valid[OF r, THEN conjunct1, rule_format, OF d] by (elim exE conjE)
  then show ?thesis using r by (intro exI conjI)
qed

end
