(* ===== verification/Mesh_Service.thy ===== *)
theory Mesh_Service
  imports Config Predictor_Controller Mesh_Deployment Go_Url
begin

text \<open>
  The connection to the model-mesh service of a namespace: the gRPC resolver that finds its pods
  (pkg/mmesh/grpc\_resolver.go) and the \<open>MMService\<close> that keeps the service's settings and the client (pkg/mmesh/modelmesh\_service.go).
  gRPC itself, the TLS configuration and the API server are arguments.
\<close>

section \<open>Resolver\<close>

definition KUBE_SCHEME :: string where
  "KUBE_SCHEME = ''kube''"

text \<open>A resolver is a pointer, \<open>sr_id\<close>; it stands for its client connection too, as each has its own.\<close>

record serviceResolver =
  sr_id :: nat
  sr_name :: NamespacedName
  sr_port :: string

record KubeResolver =
  kr_defaultNamespace :: string
  kr_resolvers :: "(NamespacedName, serviceResolver list) gomap"
  kr_fresh :: nat

definition makeKubeResolver :: "string \<Rightarrow> KubeResolver" where
  "makeKubeResolver defaultNamespace = \<lparr>kr_defaultNamespace = defaultNamespace, kr_resolvers = [], kr_fresh = 0\<rparr>"

definition resolver_Close :: "serviceResolver \<Rightarrow> KubeResolver \<Rightarrow> KubeResolver" where
  "resolver_Close sr kr =
     (case gomap_get (kr_resolvers kr) (sr_name sr) of
        None \<Rightarrow> kr
      | Some list \<Rightarrow>
          (case find_index (\<lambda>r. sr_id r = sr_id sr) list of
             None \<Rightarrow> kr
           | Some i \<Rightarrow>
               (let n = length list - 1
                in kr\<lparr>kr_resolvers :=
                     if n \<le> 0 then gomap_delete (sr_name sr) (kr_resolvers kr)
                     else gomap_set (sr_name sr) (take n (list[i := list ! n])) (kr_resolvers kr)\<rparr>)))"

text \<open>The Endpoints object, as far as it is read: the ready IPs and the ports, with names, of each subset.\<close>

record EndpointSubset =
  eps_Addresses :: "string list"
  eps_Ports :: "(string \<times> int) list"

fun hasTargetPort :: "(string \<times> int) list \<Rightarrow> string \<Rightarrow> int" where
  "hasTargetPort [] port = - 1"
| "hasTargetPort ((name, p) # ps) port = (if name = port \<or> Itoa p = port then p else hasTargetPort ps port)"

definition resolver_addrs :: "EndpointSubset list \<Rightarrow> string \<Rightarrow> string list" where
  "resolver_addrs subsets port =
     concat (map (\<lambda>s. let p = hasTargetPort (eps_Ports s) port
                      in if 0 < p then map (\<lambda>ip. ip @ '':'' @ Itoa p) (eps_Addresses s) else []) subsets)"

text \<open>What a resolver tells its connection.\<close>

datatype cc_call = ReportError nat | UpdateState nat "string list"

datatype resolve_error = EndpointsUnavailable api_error | StateUpdateFailed string | UnsupportedScheme string | MalformedTarget

text \<open>The environment: the Endpoints objects, and the error of \<open>UpdateState\<close>, if any.\<close>

record resolver_env =
  rs_Get :: "NamespacedName \<Rightarrow> api_error + EndpointSubset list"
  rs_UpdateState :: "nat \<Rightarrow> string list \<Rightarrow> string option"

definition update_resolver ::
  "resolver_env \<Rightarrow> EndpointSubset list option \<Rightarrow> serviceResolver \<Rightarrow> (resolve_error option \<times> ctrl_result) \<times> cc_call list \<Rightarrow>
     (resolve_error option \<times> ctrl_result) \<times> cc_call list" where
  "update_resolver e endpoints r = (\<lambda>((updateError, result), calls).
     case endpoints of
       None \<Rightarrow> ((updateError, result), calls @ [ReportError (sr_id r)])
     | Some subsets \<Rightarrow>
         (let addrs = resolver_addrs subsets (sr_port r);
              calls' = calls @ [UpdateState (sr_id r) addrs]
          in case rs_UpdateState e (sr_id r) addrs of
               None \<Rightarrow> ((updateError, result), calls')
             | Some err \<Rightarrow>
                 if err = ''bad resolver state'' then ((updateError, RequeueAfter (1 * Second)), calls')
                 else ((Some (StateUpdateFailed err), result), calls')))"

definition resolver_reconcile ::
  "resolver_env \<Rightarrow> NamespacedName \<Rightarrow> serviceResolver list \<Rightarrow> (resolve_error option \<times> ctrl_result) \<times> cc_call list" where
  "resolver_reconcile e name list =
     (case rs_Get e name of
        Inl NotFound \<Rightarrow> fold (update_resolver e None) list ((None, Done), [])
      | Inl err \<Rightarrow> ((Some (EndpointsUnavailable err), Done), [])
      | Inr subsets \<Rightarrow> fold (update_resolver e (Some subsets)) list ((None, Done), []))"

definition KubeResolver_Reconcile ::
  "resolver_env \<Rightarrow> NamespacedName \<Rightarrow> KubeResolver \<Rightarrow> (resolve_error option \<times> ctrl_result) \<times> cc_call list" where
  "KubeResolver_Reconcile e name kr =
     (case gomap_get (kr_resolvers kr) name of
        Some list \<Rightarrow> resolver_reconcile e name list
      | None \<Rightarrow> ((None, Done), []))"

text \<open>The service, its namespace and the port that a target names.\<close>

definition target_service :: "string \<Rightarrow> URL \<Rightarrow> resolve_error + NamespacedName \<times> string" where
  "target_service defaultNamespace url =
     (if url_Scheme url \<noteq> KUBE_SCHEME then Inl (UnsupportedScheme (url_Scheme url))
      else (let host = (if url_Host url \<noteq> [] then url_Host url
                        else TrimPrefix (if url_Path url = [] then url_Opaque url else url_Path url) ''/'')
            in case split_on CHR '':'' host of
                 [service, port] \<Rightarrow>
                   if service = [] \<or> port = [] then Inl MalformedTarget
                   else (let nameParts = split_on CHR ''.'' service
                         in Inr (\<lparr>nn_Namespace = (if 2 \<le> length nameParts then nameParts ! 1 else defaultNamespace), nn_Name = nameParts ! 0\<rparr>, port))
               | _ \<Rightarrow> Inl MalformedTarget))"

text \<open>\<open>Build\<close>. The new resolver stays registered when the first reconciliation fails.\<close>

definition resolver_Build ::
  "resolver_env \<Rightarrow> URL \<Rightarrow> KubeResolver \<Rightarrow> (resolve_error + serviceResolver \<times> resolve_error option) \<times> cc_call list \<times> KubeResolver" where
  "resolver_Build e url kr =
     (case target_service (kr_defaultNamespace kr) url of
        Inl err \<Rightarrow> (Inl err, [], kr)
      | Inr (name, port) \<Rightarrow>
          (let r = \<lparr>sr_id = kr_fresh kr, sr_name = name, sr_port = port\<rparr>;
               list = (case gomap_get (kr_resolvers kr) name of None \<Rightarrow> [r] | Some list \<Rightarrow> list @ [r]);
               kr' = kr\<lparr>kr_resolvers := gomap_set name list (kr_resolvers kr), kr_fresh := kr_fresh kr + 1\<rparr>;
               ((err, _), calls) = resolver_reconcile e name [r]
           in (Inr (r, err), calls, kr')))"

section \<open>MMService\<close>

record ServicePort =
  svp_Name :: string
  svp_Port :: int
  svp_TargetPort :: string

record ServiceSpec =
  svs_Selector :: "(string, string) gomap"
  svs_Ports :: "ServicePort list"
  svs_ClusterIP :: string

text \<open>
  The client: the number of its connection, what was dialled and with which TLS secret, and the endpoints it is published under.
\<close>

record mmClient =
  mmc_conn :: nat
  mmc_target :: string
  mmc_tlsSecret :: string
  mmc_endpoint :: string
  mmc_restEndpoint :: string

record MMService =
  mms_namespace :: string
  mms_name :: string
  mms_port :: u16
  mms_restPort :: u16
  mms_managementEndpoint :: string
  mms_headless :: bool
  mms_tlsSecretName :: string
  mms_metricsPort :: u16
  mms_reconnect :: bool
  mms_serviceSpec :: "ServiceSpec option"
  mms_mmClient :: "mmClient option"

definition NewMMService :: "string \<Rightarrow> MMService" where
  "NewMMService namespace = \<lparr>mms_namespace = namespace, mms_name = [], mms_port = 0, mms_restPort = 0, mms_managementEndpoint = [],
     mms_headless = False, mms_tlsSecretName = [], mms_metricsPort = 0, mms_reconnect = False, mms_serviceSpec = None, mms_mmClient = None\<rparr>"

definition dnsName :: "MMService \<Rightarrow> string" where
  "dnsName mms = mms_name mms @ ''.'' @ mms_namespace mms"

definition GetNameAndSpec :: "MMService \<Rightarrow> string \<times> ServiceSpec option" where
  "GetNameAndSpec mms = (mms_name mms, mms_serviceSpec mms)"

text \<open>The wanted spec, from the settings of the service.\<close>

definition service_spec :: "MMService \<Rightarrow> ServiceSpec" where
  "service_spec mms =
     \<lparr>svs_Selector = [(''modelmesh-service'', mms_name mms)],
      svs_Ports =
        [\<lparr>svp_Name = ''grpc'', svp_Port = uint (mms_port mms), svp_TargetPort = ''grpc''\<rparr>] @
        (if 0 < mms_restPort mms then [\<lparr>svp_Name = ''http'', svp_Port = uint (mms_restPort mms), svp_TargetPort = ''http''\<rparr>] else []) @
        (if 0 < mms_metricsPort mms then [\<lparr>svp_Name = ''prometheus'', svp_Port = uint (mms_metricsPort mms), svp_TargetPort = ''prometheus''\<rparr>] else []),
      svs_ClusterIP = (if mms_headless mms then ''None'' else [])\<rparr>"

text \<open>The settings that follow from a configuration; the endpoint uses the new name and port.\<close>

definition configured :: "Config \<Rightarrow> MMService \<Rightarrow> MMService" where
  "configured cfg mms =
     (let mms1 = mms\<lparr>mms_name := cfg_InferenceServiceName cfg, mms_port := cfg_InferenceServicePort cfg,
            mms_restPort := (if rp_Enabled (cfg_RESTProxy cfg) then rp_Port (cfg_RESTProxy cfg) else 0)\<rparr>
      in mms1\<lparr>mms_managementEndpoint :=
              if cfg_ModelMeshEndpoint cfg = [] then KUBE_SCHEME @ '':///'' @ dnsName mms1 @ '':'' @ u16_string (mms_port mms1)
              else cfg_ModelMeshEndpoint cfg,
            mms_tlsSecretName := tc_SecretName (cfg_TLS cfg), mms_headless := cfg_HeadlessService cfg,
            mms_metricsPort := (if pm_Enabled (cfg_Metrics cfg) then pm_Port (cfg_Metrics cfg) else 0)\<rparr>)"

definition UpdateConfig :: "Config \<Rightarrow> MMService \<Rightarrow> bool \<times> MMService" where
  "UpdateConfig cfg mms =
     (let mms1 = configured cfg mms;
          nameChange = mms_name mms1 \<noteq> mms_name mms;
          portChange = mms_port mms1 \<noteq> mms_port mms;
          headlessChange = mms_headless mms1 \<noteq> mms_headless mms;
          specChange = (nameChange \<or> portChange \<or> mms_restPort mms1 \<noteq> mms_restPort mms \<or> headlessChange \<or>
            mms_metricsPort mms1 \<noteq> mms_metricsPort mms);
          clientChange = (nameChange \<or> portChange \<or> mms_managementEndpoint mms1 \<noteq> mms_managementEndpoint mms \<or>
            mms_tlsSecretName mms1 \<noteq> mms_tlsSecretName mms \<or> headlessChange);
          mms2 = (if specChange then mms1\<lparr>mms_serviceSpec := Some (service_spec mms1)\<rparr> else mms1);
          mms3 = (if clientChange then mms2\<lparr>mms_reconnect := True\<rparr> else mms2)
      in (specChange \<or> clientChange, mms3))"

definition InferenceEndpoints :: "MMService \<Rightarrow> string \<times> string" where
  "InferenceEndpoints mms = (case mms_mmClient mms of None \<Rightarrow> ([], []) | Some c \<Rightarrow> (mmc_endpoint c, mmc_restEndpoint c))"

text \<open>
  What gRPC and the TLS lookup answer: the error of the lookup of a secret, the number of a new connection or the error of
  dialling, and whether closing a connection succeeds. A dial takes the target, and the authority when TLS is used.
\<close>

record mesh_env =
  me_tlsError :: "string \<Rightarrow> string option"
  me_Dial :: "string \<Rightarrow> string option \<Rightarrow> string + nat"
  me_Close :: "nat \<Rightarrow> bool"

definition Disconnect :: "mesh_env \<Rightarrow> MMService \<Rightarrow> MMService" where
  "Disconnect e mms =
     (case mms_mmClient mms of
        None \<Rightarrow> mms
      | Some c \<Rightarrow> if me_Close e (mmc_conn c) then mms\<lparr>mms_mmClient := None\<rparr> else mms)"

definition newMmClient :: "mesh_env \<Rightarrow> string \<Rightarrow> string \<Rightarrow> string \<Rightarrow> string \<Rightarrow> string \<Rightarrow> string + mmClient" where
  "newMmClient e mmeshEndpoint tlsSecret serviceName externalEndpoint restEndpoint =
     (case me_Dial e mmeshEndpoint (if tlsSecret = [] then None else Some serviceName) of
        Inl err \<Rightarrow> Inl err
      | Inr conn \<Rightarrow> Inr \<lparr>mmc_conn = conn, mmc_target = mmeshEndpoint, mmc_tlsSecret = tlsSecret,
          mmc_endpoint = externalEndpoint, mmc_restEndpoint = restEndpoint\<rparr>)"

text \<open>The endpoints that are published for the current settings.\<close>

definition published :: "MMService \<Rightarrow> string \<times> string" where
  "published mms =
     (''grpc://'' @ dnsName mms @ '':'' @ u16_string (mms_port mms),
      if 0 < mms_restPort mms
      then (if mms_tlsSecretName mms = [] then ''http'' else ''https'') @ ''://'' @ dnsName mms @ '':'' @ u16_string (mms_restPort mms)
      else [])"

definition ConnectIfNeeded :: "mesh_env \<Rightarrow> MMService \<Rightarrow> string option \<times> MMService" where
  "ConnectIfNeeded e mms =
     (if mms_mmClient mms \<noteq> None \<and> \<not> mms_reconnect mms then (None, mms)
      else (let tlsSecret = mms_tlsSecretName mms;
                mms1 = mms\<lparr>mms_reconnect := False\<rparr>
            in case (if tlsSecret = [] then None else me_tlsError e tlsSecret) of
                 Some err \<Rightarrow> (Some err, mms1)
               | None \<Rightarrow>
                   (case newMmClient e (mms_managementEndpoint mms) tlsSecret (dnsName mms) (fst (published mms)) (snd (published mms)) of
                      Inl err \<Rightarrow> (Some err, mms1\<lparr>mms_reconnect := True\<rparr>)
                    | Inr mmc \<Rightarrow> (None, (Disconnect e mms1)\<lparr>mms_mmClient := Some mmc\<rparr>))))"

section \<open>Targets\<close>

text \<open>A DNS label: what names of services and namespaces are made of.\<close>

definition dns_label :: "string \<Rightarrow> bool" where
  "dns_label s \<longleftrightarrow> s \<noteq> [] \<and> list_all (\<lambda>c. plain_char c \<and> c \<noteq> CHR ''.'') s"

lemma u16_string_digits: "u16_string w \<noteq> []" "list_all is_digit (u16_string w)"
  using nat_to_string_digits by (auto simp: u16_string_def Itoa_def list_all_iff)

lemma digit_plain: "is_digit c \<Longrightarrow> plain_char c"
  by (simp add: plain_char_def)

lemma url_Parse_no_host:
  assumes "scheme_ok s" "list_all (\<lambda>c. plain_char c \<or> c = CHR '':'') p"
  shows "url_Parse ip (s @ '':///'' @ p) = Some (zero_URL\<lparr>url_Scheme := s, url_Path := CHR ''/'' # p\<rparr>)"
proof -
  let ?rest = "''///'' @ p"
  let ?raw = "s @ CHR '':'' # ?rest"
  have ls: "map lower_char s = s" "list_all (\<lambda>c. is_letter c \<or> is_digit c) s" "s \<noteq> []" using assms(1) by (auto simp: scheme_ok_def)
  have sn: "CHR ''#'' \<notin> set s" by (auto intro!: plain_absent[OF ls(2)] simp: is_digit_def)
  have pn: "CHR ''?'' \<notin> set p" "CHR ''#'' \<notin> set p" using plain_absent[OF assms(2)] by auto
  have ctl: "\<not> list_ex (\<lambda>c. (of_char c :: nat) < 32 \<or> c = CHR 0x7F) ?raw"
    using assms(2) ls(2) plain_char_not(8,9) by (auto simp: list_ex_iff list_all_iff is_letter_def is_digit_def Let_def)
  have q: "split_query ?rest u = (?rest, u\<lparr>url_RawQuery := []\<rparr>)" for u
  proof -
    have a: "CHR ''?'' \<notin> set ?rest" using pn by auto
    moreover have "\<not> HasSuffix ?rest ''?''" using a unfolding HasSuffix_iff by (metis in_set_conv_decomp)
    ultimately show ?thesis by (simp add: split_query_def cut_absent del: set_simps append_Cons)
  qed
  have "\<not> shouldEscape c encodePath \<and> c \<noteq> CHR ''%''" if "c \<in> set (CHR ''/'' # p)" for c
  proof -
    have "c = CHR ''/'' \<or> plain_char c \<or> c = CHR '':''" using that assms(2) by (auto simp: list_all_iff)
    then show ?thesis by (elim disjE) (simp_all add: plain_char_not, simp_all add: shouldEscape_def)
  qed
  then have "list_all (\<lambda>c. c \<noteq> CHR ''%'' \<and> \<not> shouldEscape c encodePath) (CHR ''/'' # p)" "list_all (\<lambda>c. \<not> shouldEscape c encodePath) (CHR ''/'' # p)"
    unfolding list_all_iff by blast+
  note esc = unescape_plain[OF this(1)] escape_plain[OF this(2)]
  have pth: "setPath u (CHR ''/'' # p) = Some (u\<lparr>url_Path := CHR ''/'' # p, url_RawPath := []\<rparr>)" for u
    unfolding setPath_def esc option.map by simp
  have "parse_rest ip ?rest u = setPath (u\<lparr>url_User := None, url_Host := []\<rparr>) (CHR ''/'' # p)" if "url_Scheme u \<noteq> []" for u
    using that unfolding parse_rest_def by (simp add: HasPrefix_def parseAuthority_def parseHost_def)
  then have "parse_url ip ?raw = Some (zero_URL\<lparr>url_Scheme := s, url_Path := CHR ''/'' # p\<rparr>)"
    using getScheme_ok[OF assms(1), of ?rest] ctl ls(3) unfolding parse_url_def
    by (simp only: if_False option.case prod.case q Let_def ls(1)) (cases s; simp add: pth zero_URL_def)
  then show ?thesis using sn pn by (simp add: url_Parse_def cut_absent)
qed

lemma Itoa_inj: "Itoa p = Itoa q \<longleftrightarrow> p = q"
proof -
  have "CHR ''-'' # s \<noteq> nat_to_string n" for s n
  proof
    assume "CHR ''-'' # s = nat_to_string n"
    then have "CHR ''-'' \<in> set (nat_to_string n)" by (metis list.set_intros(1))
    then show False using nat_to_string_digits by (fastforce simp: is_digit_def)
  qed
  then show ?thesis using nat_to_string_inj[of "nat p" "nat q"] nat_to_string_inj[of "nat (- p)" "nat (- q)"]
    by (auto simp: Itoa_def dest: sym)
qed

lemma hasTargetPort_number:
  assumes "\<forall>(n, p) \<in> set ports. n \<noteq> Itoa q"
  shows "hasTargetPort ports (Itoa q) = (if q \<in> snd ` set ports then q else - 1)"
  using assms
proof (induction ports)
  case (Cons x ports)
  then show ?case by (cases x) (simp add: Itoa_inj)
qed simp

lemma configured_settings [simp]:
  "mms_namespace (configured cfg mms) = mms_namespace mms" "mms_name (configured cfg mms) = cfg_InferenceServiceName cfg"
  "mms_port (configured cfg mms) = cfg_InferenceServicePort cfg"
  by (simp_all add: configured_def Let_def)

lemma update_shape:
  "(if b then (if a then m\<lparr>mms_serviceSpec := x\<rparr> else m)\<lparr>mms_reconnect := True\<rparr> else if a then m\<lparr>mms_serviceSpec := x\<rparr> else m) =
     m\<lparr>mms_serviceSpec := if a then x else mms_serviceSpec m, mms_reconnect := b \<or> mms_reconnect m\<rparr>" for m :: MMService
  by (cases a; cases b; cases m) simp_all

lemma UpdateConfig_cases:
  assumes "UpdateConfig cfg m = (changed, m')"
  obtains spec rc where "m' = (configured cfg m)\<lparr>mms_serviceSpec := spec, mms_reconnect := rc\<rparr>"
    "spec = Some (service_spec (configured cfg m)) \<or> spec = mms_serviceSpec m \<and> service_spec (configured cfg m) = service_spec m"
    "rc \<or> \<not> mms_reconnect m \<and> mms_managementEndpoint (configured cfg m) = mms_managementEndpoint m \<and>
       mms_tlsSecretName (configured cfg m) = mms_tlsSecretName m \<and> fst (published (configured cfg m)) = fst (published m)"
proof -
  let ?n = "configured cfg m"
  define a where "a \<longleftrightarrow> mms_name ?n \<noteq> mms_name m \<or> mms_port ?n \<noteq> mms_port m \<or> mms_restPort ?n \<noteq> mms_restPort m \<or> mms_headless ?n \<noteq> mms_headless m \<or>
            mms_metricsPort ?n \<noteq> mms_metricsPort m"
  define b where "b \<longleftrightarrow> mms_name ?n \<noteq> mms_name m \<or> mms_port ?n \<noteq> mms_port m \<or> mms_managementEndpoint ?n \<noteq> mms_managementEndpoint m \<or>
            mms_tlsSecretName ?n \<noteq> mms_tlsSecretName m \<or> mms_headless ?n \<noteq> mms_headless m"
  have keep: "mms_serviceSpec ?n = mms_serviceSpec m" "mms_reconnect ?n = mms_reconnect m" "mms_namespace ?n = mms_namespace m"
    unfolding configured_def Let_def by simp_all
  have m': "m' = (if b then (if a then ?n\<lparr>mms_serviceSpec := Some (service_spec ?n)\<rparr> else ?n)\<lparr>mms_reconnect := True\<rparr>
      else if a then ?n\<lparr>mms_serviceSpec := Some (service_spec ?n)\<rparr> else ?n)"
    using assms unfolding UpdateConfig_def Let_def a_def b_def by simp
  have same: "\<not> a \<Longrightarrow> service_spec ?n = service_spec m" unfolding a_def service_spec_def by simp
  have pub: "\<not> b \<Longrightarrow> fst (published ?n) = fst (published m)" unfolding b_def published_def dnsName_def using keep(3) by simp
  show thesis
  proof (rule that[of "b \<or> mms_reconnect m" "if a then Some (service_spec ?n) else mms_serviceSpec m"])
    show "m' = ?n\<lparr>mms_serviceSpec := if a then Some (service_spec ?n) else mms_serviceSpec m, mms_reconnect := b \<or> mms_reconnect m\<rparr>"
      unfolding m' update_shape keep(1,2) ..
  qed (use same pub in \<open>auto simp: b_def\<close>)
qed

lemma configured_endpoint:
  "cfg_ModelMeshEndpoint cfg = [] \<Longrightarrow> mms_managementEndpoint (configured cfg mms) =
     KUBE_SCHEME @ '':///'' @ (cfg_InferenceServiceName cfg @ ''.'' @ mms_namespace mms) @ '':'' @ u16_string (cfg_InferenceServicePort cfg)"
  unfolding configured_def Let_def dnsName_def by simp

lemma target_of_endpoint:
  assumes "dns_label name" "dns_label namespace"
  shows "\<exists>url. url_Parse ip (KUBE_SCHEME @ '':///'' @ (name @ ''.'' @ namespace) @ '':'' @ u16_string port) = Some url \<and>
     target_service dflt url = Inr (\<lparr>nn_Namespace = namespace, nn_Name = name\<rparr>, u16_string port)"
proof -
  let ?p = "(name @ ''.'' @ namespace) @ '':'' @ u16_string port"
  have n: "list_all (\<lambda>c. plain_char c \<and> c \<noteq> CHR ''.'') name" "list_all (\<lambda>c. plain_char c \<and> c \<noteq> CHR ''.'') namespace" "name \<noteq> []"
    using assms by (simp_all add: dns_label_def)
  have l: "CHR '':'' \<notin> set name" "CHR ''.'' \<notin> set name" "CHR '':'' \<notin> set namespace" "CHR ''.'' \<notin> set namespace"
    using plain_absent[OF n(1)] plain_absent[OF n(2)] by simp_all
  have u: "CHR '':'' \<notin> set (u16_string port)" by (rule plain_absent[OF u16_string_digits(2)]) (simp add: is_digit_def)
  have "list_all (\<lambda>c. plain_char c \<or> c = CHR '':'') name" "list_all (\<lambda>c. plain_char c \<or> c = CHR '':'') namespace"
    "list_all (\<lambda>c. plain_char c \<or> c = CHR '':'') (u16_string port)"
    using n(1,2) u16_string_digits(2)[of port] by (auto elim!: list.pred_mono_strong intro: digit_plain)
  then have "list_all (\<lambda>c. plain_char c \<or> c = CHR '':'') ?p" by (simp add: plain_char_def)
  moreover have "scheme_ok KUBE_SCHEME" by code_simp
  ultimately have "url_Parse ip (KUBE_SCHEME @ '':///'' @ ?p) = Some (zero_URL\<lparr>url_Scheme := KUBE_SCHEME, url_Path := CHR ''/'' # ?p\<rparr>)"
    by (intro url_Parse_no_host)
  moreover have "split_on CHR '':'' ?p = [name @ ''.'' @ namespace, u16_string port]"
    using l u split_on_append[of "CHR '':''" "name @ ''.'' @ namespace" "u16_string port"] by (simp add: split_on_no_sep)
  moreover have "split_on CHR ''.'' (name @ ''.'' @ namespace) = [name, namespace]"
    using l split_on_append[of "CHR ''.''" name namespace] by (simp add: split_on_no_sep)
  ultimately show ?thesis using n(3) u16_string_digits(1) unfolding target_service_def
    by (simp add: TrimPrefix_def HasPrefix_def zero_URL_def)
qed

text \<open>
  C34. The address a service's client dials leads to its pods. With no endpoint configured, gRPC's parse of the management
  endpoint set by \<open>UpdateConfig\<close> is one that the resolver accepts; it reads the very service name, namespace and port off it, and
  a resolver built for it reports exactly the ready addresses of the subsets with that port, each with the port.
\<close>

theorem management_endpoint_resolves:
  assumes "UpdateConfig cfg mms = (changed, mms')" and "cfg_ModelMeshEndpoint cfg = []"
    and "dns_label (cfg_InferenceServiceName cfg)" and "dns_label (mms_namespace mms)" and "cfg_InferenceServicePort cfg \<noteq> 0"
    and "rs_Get e \<lparr>nn_Namespace = mms_namespace mms, nn_Name = cfg_InferenceServiceName cfg\<rparr> = Inr subsets"
    and "\<forall>s \<in> set subsets. \<forall>(n, p) \<in> set (eps_Ports s). n \<noteq> u16_string (cfg_InferenceServicePort cfg)"
  shows "\<exists>url err r kr'. url_Parse ip (mms_managementEndpoint mms') = Some url \<and>
     resolver_Build e url kr = (Inr (r, err),
       [UpdateState (sr_id r) (concat (map (\<lambda>s. if uint (cfg_InferenceServicePort cfg) \<in> snd ` set (eps_Ports s)
          then map (\<lambda>a. a @ '':'' @ u16_string (cfg_InferenceServicePort cfg)) (eps_Addresses s) else []) subsets))], kr') \<and>
     sr_name r = \<lparr>nn_Namespace = mms_namespace mms, nn_Name = cfg_InferenceServiceName cfg\<rparr> \<and>
     (\<exists>rs. gomap_get (kr_resolvers kr') (sr_name r) = Some rs \<and> r \<in> set rs)"
proof -
  let ?q = "cfg_InferenceServicePort cfg" and ?name = "\<lparr>nn_Namespace = mms_namespace mms, nn_Name = cfg_InferenceServiceName cfg\<rparr>"
  have "mms_managementEndpoint mms' = KUBE_SCHEME @ '':///'' @ (cfg_InferenceServiceName cfg @ ''.'' @ mms_namespace mms) @ '':'' @ u16_string ?q"
    by (rule UpdateConfig_cases[OF assms(1)]) (simp add: configured_endpoint[OF assms(2)])
  then obtain url where url: "url_Parse ip (mms_managementEndpoint mms') = Some url"
    "target_service (kr_defaultNamespace kr) url = Inr (?name, u16_string ?q)"
    using target_of_endpoint[OF assms(3,4), of ip ?q] by auto
  have q: "0 < uint ?q" using assms(5) by (simp add: word_neq_0_conv word_less_def)
  have "resolver_addrs subsets (u16_string ?q) = concat (map (\<lambda>s. if uint ?q \<in> snd ` set (eps_Ports s)
      then map (\<lambda>a. a @ '':'' @ u16_string ?q) (eps_Addresses s) else []) subsets)"
    unfolding resolver_addrs_def Let_def u16_string_def
    using assms(7) q by (intro arg_cong[of _ _ concat] map_cong refl) (auto simp: u16_string_def hasTargetPort_number)
  then show ?thesis using url assms(6)
    by (auto simp: resolver_Build_def resolver_reconcile_def update_resolver_def Let_def split: option.splits)
qed

section \<open>The client and the settings\<close>

text \<open>The histories of a service in which no lookup of a TLS secret fails.\<close>

inductive mms_reach :: "MMService \<Rightarrow> bool" where
  created: "mms_reach (NewMMService namespace)"
| updated: "mms_reach m \<Longrightarrow> UpdateConfig cfg m = (changed, m') \<Longrightarrow> mms_reach m'"
| connected: "mms_reach m \<Longrightarrow> ConnectIfNeeded e m = (err, m') \<Longrightarrow> me_tlsError e (mms_tlsSecretName m) = None \<Longrightarrow> mms_reach m'"
| disconnected: "mms_reach m \<Longrightarrow> mms_reach (Disconnect e m)"

definition client_current :: "MMService \<Rightarrow> bool" where
  "client_current m \<longleftrightarrow> (\<forall>c. mms_mmClient m = Some c \<and> \<not> mms_reconnect m \<longrightarrow>
     mmc_target c = mms_managementEndpoint m \<and> mmc_tlsSecret c = mms_tlsSecretName m \<and> mmc_endpoint c = fst (published m)) \<and>
     (\<forall>s. mms_serviceSpec m = Some s \<longrightarrow> s = service_spec m)"

lemma settings_only [simp]:
  "service_spec (m\<lparr>mms_reconnect := rc\<rparr>) = service_spec m" "service_spec (m\<lparr>mms_mmClient := cl\<rparr>) = service_spec m"
  "service_spec (m\<lparr>mms_serviceSpec := sp\<rparr>) = service_spec m" "published (m\<lparr>mms_reconnect := rc\<rparr>) = published m"
  "published (m\<lparr>mms_mmClient := cl\<rparr>) = published m" "published (m\<lparr>mms_serviceSpec := sp\<rparr>) = published m"
  by (simp_all add: service_spec_def published_def dnsName_def)

lemma ConnectIfNeeded_cases:
  assumes "ConnectIfNeeded e m = (err, m')" "me_tlsError e (mms_tlsSecretName m) = None"
  obtains "m' = m" | "m' = m\<lparr>mms_reconnect := True\<rparr>"
  | c where "m' = m\<lparr>mms_reconnect := False, mms_mmClient := Some c\<rparr>" "mmc_target c = mms_managementEndpoint m"
      "mmc_tlsSecret c = mms_tlsSecretName m" "mmc_endpoint c = fst (published m)"
proof (cases "mms_mmClient m \<noteq> None \<and> \<not> mms_reconnect m")
  case True
  then show thesis using assms(1) that(1) by (simp add: ConnectIfNeeded_def)
next
  case False
  have d: "(Disconnect e x)\<lparr>mms_mmClient := Some c\<rparr> = x\<lparr>mms_mmClient := Some c\<rparr>" for x c
    by (cases "mms_mmClient x") (simp_all add: Disconnect_def)
  let ?new = "newMmClient e (mms_managementEndpoint m) (mms_tlsSecretName m) (dnsName m) (fst (published m)) (snd (published m))"
  have "ConnectIfNeeded e m = (case ?new of Inl err \<Rightarrow> (Some err, m\<lparr>mms_reconnect := True\<rparr>)
      | Inr c \<Rightarrow> (None, m\<lparr>mms_reconnect := False, mms_mmClient := Some c\<rparr>))"
    using False assms(2) unfolding ConnectIfNeeded_def Let_def d by (cases ?new) (auto split: if_splits)
  then show thesis using assms(1) that(2,3) by (auto simp: newMmClient_def split: sum.splits)
qed


text \<open>
  When the lookup of the TLS secret fails, the pending reconnection is forgotten: an old client stays, and later attempts
  leave it alone.
\<close>

lemma tls_failure_keeps_client:
  assumes "mms_mmClient m = Some c" "mms_tlsSecretName m \<noteq> []" "me_tlsError e (mms_tlsSecretName m) = Some err" "mms_reconnect m"
    and "ConnectIfNeeded e m = (res, m')"
  shows "res = Some err" "mms_mmClient m' = Some c" "ConnectIfNeeded e' m' = (None, m')"
  using assms by (auto simp: ConnectIfNeeded_def Let_def)

section \<open>Witnesses of the connection\<close>

definition mesh_config :: "u16 \<Rightarrow> Config" where
  "mesh_config port = zero_Config\<lparr>cfg_InferenceServiceName := ''mesh'', cfg_InferenceServicePort := port\<rparr>"

definition two_pods :: resolver_env where
  "two_pods = \<lparr>rs_Get = (\<lambda>_. Inr [\<lparr>eps_Addresses = [''10.0.0.1'', ''10.0.0.2''], eps_Ports = [(''prometheus'', 2112), (''grpc'', 8033)]\<rparr>]),
     rs_UpdateState = (\<lambda>_ _. None)\<rparr>"

theorem management_endpoint_resolves_witness:
  "\<exists>url err r kr. url_Parse (\<lambda>_. None) (mms_managementEndpoint (snd (UpdateConfig (mesh_config 8033) (NewMMService ''ns'')))) = Some url \<and>
     resolver_Build two_pods url (makeKubeResolver ''default'') = (Inr (r, err), [UpdateState (sr_id r) [''10.0.0.1:8033'', ''10.0.0.2:8033'']], kr)"
proof -
  obtain ch m where u: "UpdateConfig (mesh_config 8033) (NewMMService ''ns'') = (ch, m)" by fastforce
  have c: "cfg_ModelMeshEndpoint (mesh_config 8033) = []" "cfg_InferenceServiceName (mesh_config 8033) = ''mesh''" "cfg_InferenceServicePort (mesh_config 8033) = 8033"
    "mms_namespace (NewMMService ''ns'') = ''ns''" by (simp_all add: mesh_config_def zero_Config_def NewMMService_def)
  have l: "dns_label ''mesh''" "dns_label ''ns''" "u16_string 8033 = ''8033''" by code_simp+
  have g: "rs_Get two_pods n = Inr [\<lparr>eps_Addresses = [''10.0.0.1'', ''10.0.0.2''], eps_Ports = [(''prometheus'', 2112), (''grpc'', 8033)]\<rparr>]" for n
    by (simp add: two_pods_def)
  have p: "uint (8033 :: u16) = 8033" by simp
  have ports: "\<forall>s \<in> set [\<lparr>eps_Addresses = [''10.0.0.1'', ''10.0.0.2''], eps_Ports = [(''prometheus'', 2112), (''grpc'', 8033)]\<rparr>].
      \<forall>(n, p) \<in> set (eps_Ports s). n \<noteq> ''8033''" by simp
  have "(8033 :: u16) \<noteq> 0" by simp
  note r = management_endpoint_resolves[OF u c(1), unfolded c l(3) p, OF l(1,2) this g ports, of "\<lambda>_. None" "makeKubeResolver ''default''"]
  have "snd (UpdateConfig (mesh_config 8033) (NewMMService ''ns'')) = m" by (simp add: u)
  with r show ?thesis by simp blast
qed

definition dial_env :: mesh_env where
  "dial_env = \<lparr>me_tlsError = (\<lambda>_. None), me_Dial = (\<lambda>_ _. Inr 7), me_Close = (\<lambda>_. True)\<rparr>"

definition mesh_connected :: MMService where
  "mesh_connected = snd (ConnectIfNeeded dial_env (snd (UpdateConfig (mesh_config 8033) (NewMMService ''ns''))))"


text \<open>Enabling the REST proxy does not lead to a reconnection, so that its endpoint is not published.\<close>

lemma rest_port_change_not_published:
  "let m = snd (UpdateConfig ((mesh_config 8033)\<lparr>cfg_RESTProxy := (cfg_RESTProxy zero_Config)\<lparr>rp_Enabled := True, rp_Port := 8008\<rparr>\<rparr>) mesh_connected)
   in \<not> mms_reconnect m \<and> snd (InferenceEndpoints m) = [] \<and> snd (published m) = ''http://mesh.ns:8008''"
  by code_simp

end
