(* ===== verification/Range_Watcher.thy ===== *)
theory Range_Watcher
  imports Source_Names
begin

text \<open>
  The watcher that mirrors a range of etcd keys to a listener (pkg/mmesh/etcdrangewatcher.go). Its goroutine is a sequence of
  rounds of \<open>refresh_loop\<close>: a sync phase that reads the pages of \<open>SyncBase\<close>, and a watch phase on the responses of
  \<open>SyncUpdates\<close>. What the two channels of etcd's mirror package deliver is the input of a round, in the order in which the
  goroutine receives it. The calls of the listener are returned in order. \<open>None\<close> is a panic.
\<close>

section \<open>Data\<close>

text \<open>A key-value pair of etcd, as far as the watcher reads it. A nil value is \<open>None\<close>.\<close>

record KeyValue =
  kv_Key :: string
  kv_Value :: "string option"
  kv_ModRevision :: int

record KeyEvent =
  ke_Key :: string
  ke_Value :: "string option"
  ke_Type :: KeyEventType

record cacheEntry =
  ce_kv :: KeyValue
  ce_found :: bool

type_synonym watch_cache = "(string, cacheEntry) gomap"

definition key_event :: "KeyEventType \<Rightarrow> string \<Rightarrow> string option \<Rightarrow> KeyEvent" where
  "key_event t k v = \<lparr>ke_Key = k, ke_Value = v, ke_Type = t\<rparr>"

text \<open>The slice expression \<open>key[prefixBytes:]\<close> panics for a shorter key.\<close>

definition watch_key :: "KeyValue \<Rightarrow> nat \<Rightarrow> string option" where
  "watch_key kv prefixBytes = (if length (kv_Key kv) < prefixBytes then None else Some (drop prefixBytes (kv_Key kv)))"

section \<open>Sync phase\<close>

text \<open>The pairs of one page.\<close>

fun sync_page :: "nat \<Rightarrow> KeyValue list \<Rightarrow> watch_cache \<Rightarrow> (watch_cache \<times> KeyEvent list) option" where
  "sync_page prefixBytes [] cache = Some (cache, [])"
| "sync_page prefixBytes (kv # kvs) cache =
     (case watch_key kv prefixBytes of
        None \<Rightarrow> None
      | Some k \<Rightarrow>
          (let new = (gomap_set k \<lparr>ce_kv = kv, ce_found = True\<rparr> cache, [key_event UPDATE k (kv_Value kv)]);
               (cache1, evs1) =
                 (case gomap_get cache k of
                    None \<Rightarrow> new
                  | Some current \<Rightarrow>
                      if kv_ModRevision (ce_kv current) < kv_ModRevision kv then new
                      else (gomap_set k (current\<lparr>ce_found := True\<rparr>) cache, []))
           in map_option (\<lambda>(cache2, evs2). (cache2, evs1 @ evs2)) (sync_page prefixBytes kvs cache1)))"

text \<open>
  What the \<open>select\<close> receives: an error, with whether the context is cancelled at that moment, a page, or the
  closing of one of the channels. A channel that has been set to nil is never ready, so nothing more is received from it.
\<close>

datatype sync_msg = SyncError bool | ErrClosed | Page "KeyValue list" | PagesClosed

datatype sync_result = SyncDone | SyncRetry | SyncBlocked

fun sync_base ::
  "nat \<Rightarrow> sync_msg list \<Rightarrow> bool \<Rightarrow> bool \<Rightarrow> watch_cache \<Rightarrow> (sync_result \<times> watch_cache \<times> KeyEvent list) option" where
  "sync_base prefixBytes [] errOpen getOpen cache = Some (if errOpen \<or> getOpen then SyncBlocked else SyncDone, cache, [])"
| "sync_base prefixBytes (msg # msgs) errOpen getOpen cache =
     (if \<not> errOpen \<and> \<not> getOpen then Some (SyncDone, cache, [])
      else (case msg of
              SyncError cancelled \<Rightarrow>
                if errOpen \<and> \<not> cancelled then Some (SyncRetry, cache, [])
                else sync_base prefixBytes msgs errOpen getOpen cache
            | ErrClosed \<Rightarrow> sync_base prefixBytes msgs False getOpen cache
            | Page kvs \<Rightarrow>
                if getOpen then
                  (case sync_page prefixBytes kvs cache of
                     None \<Rightarrow> None
                   | Some (cache1, evs1) \<Rightarrow>
                       map_option (\<lambda>(r, cache2, evs2). (r, cache2, evs1 @ evs2)) (sync_base prefixBytes msgs errOpen getOpen cache1))
                else sync_base prefixBytes msgs errOpen getOpen cache
            | PagesClosed \<Rightarrow> sync_base prefixBytes msgs errOpen False cache))"

text \<open>
  The loop over the cache after a later sync; the order of the list stands for the order in which Go walks the map. Deleting
  from a map while walking it is allowed.
\<close>

definition sweep :: "watch_cache \<Rightarrow> watch_cache \<times> KeyEvent list" where
  "sweep cache =
     (map (\<lambda>(k, e). (k, e\<lparr>ce_found := False\<rparr>)) (filter (\<lambda>(k, e). ce_found e) cache),
      map (\<lambda>(k, e). key_event DELETE k (kv_Value (ce_kv e))) (filter (\<lambda>(k, e). \<not> ce_found e) cache))"

section \<open>Watch phase\<close>

datatype watch_event = Put KeyValue | Delete KeyValue

datatype watch_error = ErrCompacted | WatchFailure

record WatchResponse =
  wr_Events :: "watch_event list"
  wr_Err :: "watch_error option"

fun watch_events :: "nat \<Rightarrow> watch_event list \<Rightarrow> watch_cache \<Rightarrow> (watch_cache \<times> KeyEvent list) option" where
  "watch_events prefixBytes [] cache = Some (cache, [])"
| "watch_events prefixBytes (Put kv # es) cache =
     (case watch_key kv prefixBytes of
        None \<Rightarrow> None
      | Some k \<Rightarrow>
          map_option (\<lambda>(cache', evs). (cache', key_event UPDATE k (kv_Value kv) # evs))
            (watch_events prefixBytes es (gomap_set k \<lparr>ce_kv = kv, ce_found = False\<rparr> cache)))"
| "watch_events prefixBytes (Delete kv # es) cache =
     (case watch_key kv prefixBytes of
        None \<Rightarrow> None
      | Some k \<Rightarrow>
          (case gomap_get cache k of
             Some prev \<Rightarrow>
               map_option (\<lambda>(cache', evs). (cache', key_event DELETE k (kv_Value (ce_kv prev)) # evs))
                 (watch_events prefixBytes es (gomap_delete k cache))
           | None \<Rightarrow>
               map_option (\<lambda>(cache', evs). (cache', key_event DELETE k None # evs)) (watch_events prefixBytes es cache)))"

text \<open>The responses until the channel is closed; only a compaction ends the loop, other errors are logged.\<close>

fun watch_updates :: "nat \<Rightarrow> WatchResponse list \<Rightarrow> watch_cache \<Rightarrow> (watch_cache \<times> KeyEvent list) option" where
  "watch_updates prefixBytes [] cache = Some (cache, [])"
| "watch_updates prefixBytes (wr # wrs) cache =
     (case watch_events prefixBytes (wr_Events wr) cache of
        None \<Rightarrow> None
      | Some (cache1, evs1) \<Rightarrow>
          if wr_Err wr = Some ErrCompacted then Some (cache1, evs1)
          else map_option (\<lambda>(cache2, evs2). (cache2, evs1 @ evs2)) (watch_updates prefixBytes wrs cache1))"

section \<open>The loop\<close>

record watcher =
  w_initSent :: bool
  w_cache :: watch_cache

definition new_watcher :: watcher where
  "new_watcher = \<lparr>w_initSent = False, w_cache = []\<rparr>"

text \<open>The input of one round; \<open>rd_cancelled\<close> is the state of the context when the watch phase is over.\<close>

record watch_round =
  rd_msgs :: "sync_msg list"
  rd_responses :: "WatchResponse list"
  rd_cancelled :: bool

datatype watcher_status = Watching | Waiting | Stopped

definition end_sync :: "watcher \<Rightarrow> watcher \<times> KeyEvent list" where
  "end_sync w =
     (if \<not> w_initSent w then (w\<lparr>w_initSent := True\<rparr>, [key_event INITIALIZED [] None])
      else (let (cache, evs) = sweep (w_cache w) in (w\<lparr>w_cache := cache\<rparr>, evs)))"

definition refresh_round :: "nat \<Rightarrow> watch_round \<Rightarrow> watcher \<Rightarrow> (watcher_status \<times> watcher \<times> KeyEvent list) option" where
  "refresh_round prefixBytes rd w =
     (case sync_base prefixBytes (rd_msgs rd) True True (w_cache w) of
        None \<Rightarrow> None
      | Some (SyncBlocked, cache, evs) \<Rightarrow> Some (Waiting, w\<lparr>w_cache := cache\<rparr>, evs)
      | Some (SyncRetry, cache, evs) \<Rightarrow> Some (Watching, w\<lparr>w_cache := cache\<rparr>, evs)
      | Some (SyncDone, cache, evs) \<Rightarrow>
          (let (w1, evs1) = end_sync (w\<lparr>w_cache := cache\<rparr>)
           in map_option (\<lambda>(cache2, evs2). (if rd_cancelled rd then Stopped else Watching, w1\<lparr>w_cache := cache2\<rparr>, evs @ evs1 @ evs2))
                (watch_updates prefixBytes (rd_responses rd) (w_cache w1))))"

fun watcher_Start :: "nat \<Rightarrow> watch_round list \<Rightarrow> watcher \<Rightarrow> (watcher_status \<times> watcher \<times> KeyEvent list) option" where
  "watcher_Start prefixBytes [] w = Some (Watching, w, [])"
| "watcher_Start prefixBytes (rd # rds) w =
     (case refresh_round prefixBytes rd w of
        None \<Rightarrow> None
      | Some (Watching, w1, evs1) \<Rightarrow>
          map_option (\<lambda>(s, w2, evs2). (s, w2, evs1 @ evs2)) (watcher_Start prefixBytes rds w1)
      | Some (s, w1, evs1) \<Rightarrow> Some (s, w1, evs1))"

section \<open>The listener's view\<close>

text \<open>What a listener knows that records the values it is told.\<close>

definition listen :: "KeyEvent \<Rightarrow> (string \<rightharpoonup> string option) \<Rightarrow> string \<rightharpoonup> string option" where
  "listen ev view =
     (case ke_Type ev of UPDATE \<Rightarrow> view(ke_Key ev \<mapsto> ke_Value ev) | DELETE \<Rightarrow> view(ke_Key ev := None) | INITIALIZED \<Rightarrow> view)"

definition cache_view :: "watch_cache \<Rightarrow> string \<rightharpoonup> string option" where
  "cache_view cache = (\<lambda>k. map_option (\<lambda>e. kv_Value (ce_kv e)) (gomap_get cache k))"

lemma listen_event [simp]:
  "listen (key_event UPDATE k v) view = view(k \<mapsto> v)" "listen (key_event DELETE k v) view = view(k := None)"
  "listen (key_event INITIALIZED k v) view = view"
  by (simp_all add: listen_def key_event_def)

lemma cache_view_set [simp]: "cache_view (gomap_set k e c) = (cache_view c)(k \<mapsto> kv_Value (ce_kv e))"
  and cache_view_delete [simp]: "cache_view (gomap_delete k c) = (cache_view c)(k := None)"
  by (auto simp: cache_view_def)

lemma cache_view_found: "gomap_get c k = Some e \<Longrightarrow> (cache_view c)(k \<mapsto> kv_Value (ce_kv e)) = cache_view c"
  by (auto simp: cache_view_def)

lemma sync_page_view: "sync_page n kvs c = Some (c', evs) \<Longrightarrow> gomap_wf c \<Longrightarrow> gomap_wf c' \<and> fold listen evs (cache_view c) = cache_view c'"
proof (induction kvs arbitrary: c c' evs)
  case (Cons kv kvs)
  then show ?case by (fastforce simp: Let_def cache_view_found split: option.splits if_splits prod.splits)
qed simp

lemma watch_events_view: "watch_events n es c = Some (c', evs) \<Longrightarrow> gomap_wf c \<Longrightarrow> gomap_wf c' \<and> fold listen evs (cache_view c) = cache_view c'"
proof (induction n es c arbitrary: c' evs rule: watch_events.induct)
  case (3 n kv es c)
  have "gomap_get c k = None \<Longrightarrow> (cache_view c)(k := None) = cache_view c" for k by (auto simp: cache_view_def)
  then show ?case using 3 by (fastforce split: option.splits prod.splits)
qed (fastforce split: option.splits prod.splits)+

lemma sweep_get:
  assumes "gomap_wf c"
  shows "gomap_get (fst (sweep c)) k = (case gomap_get c k of Some e \<Rightarrow> if ce_found e then Some (e\<lparr>ce_found := False\<rparr>) else None | None \<Rightarrow> None)"
  using assms by (induction c) (auto simp: sweep_def map_of_eq_None_iff intro: rev_image_eqI split: option.splits)

lemma sweep_wf: "gomap_wf c \<Longrightarrow> gomap_wf (fst (sweep c))"
  by (induction c) (auto simp: sweep_def intro: rev_image_eqI)

lemma fold_listen_deletes:
  "fold listen (map (\<lambda>(k, e). key_event DELETE k (f e)) xs) view = (\<lambda>k. if k \<in> fst ` set xs then None else view k)"
  by (induction xs arbitrary: view) auto

lemma sweep_view:
  assumes "gomap_wf c"
  shows "fold listen (snd (sweep c)) (cache_view c) = cache_view (fst (sweep c))"
proof
  fix k
  have "k \<in> fst ` set (filter (\<lambda>(k, e). \<not> ce_found e) c) \<longleftrightarrow> (\<exists>e. gomap_get c k = Some e \<and> \<not> ce_found e)"
    using gomap_get_mem[OF assms] by force
  then show "fold listen (snd (sweep c)) (cache_view c) k = cache_view (fst (sweep c)) k"
    unfolding cache_view_def sweep_get[OF assms] by (auto simp: sweep_def fold_listen_deletes split: option.splits)
qed

section \<open>What etcd holds\<close>

text \<open>
  The content of the range after a round, by key without the prefix: the pairs listed by the sync phase, changed by the
  events of the watch phase.
\<close>

fun listed :: "sync_msg list \<Rightarrow> KeyValue list" where
  "listed [] = []"
| "listed (Page kvs # msgs) = kvs @ listed msgs"
| "listed (PagesClosed # msgs) = []"
| "listed (_ # msgs) = listed msgs"

fun changes :: "WatchResponse list \<Rightarrow> watch_event list" where
  "changes [] = []"
| "changes (wr # wrs) = wr_Events wr @ (if wr_Err wr = Some ErrCompacted then [] else changes wrs)"

fun changed_kv :: "watch_event \<Rightarrow> KeyValue" where
  "changed_kv (Put kv) = kv"
| "changed_kv (Delete kv) = kv"

definition store_of :: "nat \<Rightarrow> KeyValue list \<Rightarrow> string \<rightharpoonup> KeyValue" where
  "store_of n kvs = map_of (map (\<lambda>kv. (drop n (kv_Key kv), kv)) kvs)"

fun change_store :: "nat \<Rightarrow> watch_event \<Rightarrow> (string \<rightharpoonup> KeyValue) \<Rightarrow> string \<rightharpoonup> KeyValue" where
  "change_store n (Put kv) s = s(drop n (kv_Key kv) \<mapsto> kv)"
| "change_store n (Delete kv) s = s(drop n (kv_Key kv) := None)"

definition range_content :: "nat \<Rightarrow> watch_round \<Rightarrow> string \<rightharpoonup> KeyValue" where
  "range_content n rd = fold (change_store n) (changes (rd_responses rd)) (store_of n (listed (rd_msgs rd)))"

text \<open>
  A round in which \<open>SyncBase\<close> succeeds and etcd keeps its promises: both channels are closed in the end, no error comes, the
  pages have no key twice, and all keys lie in the range.
\<close>

definition round_ok :: "string \<Rightarrow> watch_round \<Rightarrow> bool" where
  "round_ok pfx rd \<longleftrightarrow> (\<forall>b. SyncError b \<notin> set (rd_msgs rd)) \<and> ErrClosed \<in> set (rd_msgs rd) \<and> PagesClosed \<in> set (rd_msgs rd) \<and>
     distinct (map kv_Key (listed (rd_msgs rd))) \<and> (\<forall>kv \<in> set (listed (rd_msgs rd)). HasPrefix (kv_Key kv) pfx) \<and>
     (\<forall>e \<in> set (changes (rd_responses rd)). HasPrefix (kv_Key (changed_kv e)) pfx)"

text \<open>Revisions only grow: a pair delivered later is the same one or has a later revision.\<close>

definition newer :: "KeyValue \<Rightarrow> KeyValue \<Rightarrow> bool" where
  "newer a b \<longleftrightarrow> (kv_Key a = kv_Key b \<longrightarrow> kv_ModRevision a < kv_ModRevision b \<or> a = b)"

definition delivered :: "watch_round \<Rightarrow> KeyValue list" where
  "delivered rd = listed (rd_msgs rd) @ map changed_kv (filter (\<lambda>e. \<exists>kv. e = Put kv) (changes (rd_responses rd)))"

section \<open>Lemmas on the phases\<close>

lemma sync_page_append:
  "sync_page n (xs @ ys) c =
     (case sync_page n xs c of None \<Rightarrow> None | Some (c1, e1) \<Rightarrow> map_option (\<lambda>(c2, e2). (c2, e1 @ e2)) (sync_page n ys c1))"
proof (induction xs arbitrary: c)
  case (Cons kv xs)
  show ?case
  proof (cases "watch_key kv n")
    case (Some k)
    show ?thesis unfolding append_Cons sync_page.simps Some Let_def option.case
      by (simp only: Cons.IH split: prod.split) (auto simp: option.map_comp comp_def case_prod_unfold option.map_ident split: option.splits)
  qed simp
qed (auto simp: option.map_id)

lemma sync_base_complete:
  assumes "\<forall>b. SyncError b \<notin> set msgs" and "eo \<Longrightarrow> ErrClosed \<in> set msgs" and "go \<Longrightarrow> PagesClosed \<in> set msgs"
  shows "sync_base n msgs eo go c = map_option (\<lambda>(c', evs). (SyncDone, c', evs)) (sync_page n (if go then listed msgs else []) c)"
  using assms
proof (induction msgs arbitrary: eo go c)
  case (Cons m msgs)
  show ?case
  proof (cases "eo \<or> go")
    case True
    show ?thesis
    proof (cases m)
      case (Page kvs)
      have i: "sync_base n msgs eo go c' = map_option (\<lambda>(c', evs). (SyncDone, c', evs)) (sync_page n (if go then listed msgs else []) c')" for c'
        using Cons.prems Page by (intro Cons.IH) auto
      show ?thesis using True i by (cases eo; cases go) (auto simp: Page sync_page_append option.map_comp comp_def case_prod_unfold split: option.splits)
    qed (use True Cons.prems in \<open>auto simp: Cons.IH\<close>)
  qed simp
qed auto

lemma watch_updates_changes: "watch_updates n wrs c = watch_events n (changes wrs) c"
proof -
  have a: "watch_events n (xs @ ys) c =
      (case watch_events n xs c of None \<Rightarrow> None | Some (c1, e1) \<Rightarrow> map_option (\<lambda>(c2, e2). (c2, e1 @ e2)) (watch_events n ys c1))" for n xs ys c
    by (induction n xs c rule: watch_events.induct) (auto simp: option.map_ident option.map_id option.map_comp comp_def case_prod_unfold split: option.splits)
  show ?thesis by (induction n wrs c rule: watch_updates.induct) (auto simp: a split: option.splits)
qed

text \<open>The pairs in the cache, the keys found by the last sync, and what is known of the cached pairs.\<close>

definition cache_store :: "watch_cache \<Rightarrow> string \<rightharpoonup> KeyValue" where
  "cache_store c = (\<lambda>k. map_option ce_kv (gomap_get c k))"

definition flagged :: "watch_cache \<Rightarrow> string set" where
  "flagged c = {k. \<exists>e. gomap_get c k = Some e \<and> ce_found e}"

definition cache_ok :: "string \<Rightarrow> KeyValue set \<Rightarrow> watch_cache \<Rightarrow> bool" where
  "cache_ok pfx D c \<longleftrightarrow> gomap_wf c \<and> (\<forall>k e. gomap_get c k = Some e \<longrightarrow> kv_Key (ce_kv e) = pfx @ k \<and> ce_kv e \<in> D)"

lemma watch_key_prefix: "HasPrefix (kv_Key kv) pfx \<Longrightarrow> watch_key kv (length pfx) = Some (drop (length pfx) (kv_Key kv))"
  by (auto simp: watch_key_def HasPrefix_iff)

lemma cache_ok_set:
  "cache_ok pfx D c \<Longrightarrow> HasPrefix (kv_Key kv) pfx \<Longrightarrow> ce_kv e = kv \<Longrightarrow> cache_ok pfx (insert kv D) (gomap_set (drop (length pfx) (kv_Key kv)) e c)"
  by (auto simp: cache_ok_def HasPrefix_iff)

lemma cache_ok_mono: "cache_ok pfx D c \<Longrightarrow> D \<subseteq> D' \<Longrightarrow> cache_ok pfx D' c"
  by (auto simp: cache_ok_def)

lemma sync_page_exact:
  assumes "cache_ok pfx D c" "distinct (map kv_Key kvs)" "\<forall>kv \<in> set kvs. HasPrefix (kv_Key kv) pfx" "\<forall>a \<in> D. \<forall>b \<in> set kvs. newer a b"
  obtains c' evs where "sync_page (length pfx) kvs c = Some (c', evs)" "cache_ok pfx (D \<union> set kvs) c'"
    "\<forall>k. gomap_get c' k = (case store_of (length pfx) kvs k of None \<Rightarrow> gomap_get c k | Some kv \<Rightarrow> Some \<lparr>ce_kv = kv, ce_found = True\<rparr>)"
  using assms
proof (induction kvs arbitrary: D c thesis)
  case Nil
  then show ?case by (simp add: store_of_def)
next
  case (Cons kv kvs)
  let ?k = "drop (length pfx) (kv_Key kv)" and ?new = "\<lparr>ce_kv = kv, ce_found = True\<rparr>"
  have p: "HasPrefix (kv_Key kv) pfx" "kv_Key kv = pfx @ ?k" using Cons.prems(4) by (auto simp: HasPrefix_iff)
  have same: "ce_kv e = kv" if "gomap_get c ?k = Some e" "\<not> kv_ModRevision (ce_kv e) < kv_ModRevision kv" for e
    using Cons.prems(2,5) p(2) that unfolding cache_ok_def newer_def by fastforce
  obtain evs1 where step: "sync_page (length pfx) (kv # kvs) c =
      map_option (\<lambda>(c2, evs2). (c2, evs1 @ evs2)) (sync_page (length pfx) kvs (gomap_set ?k ?new c))"
  proof (cases "\<exists>e. gomap_get c ?k = Some e \<and> \<not> kv_ModRevision (ce_kv e) < kv_ModRevision kv")
    case True
    then obtain e where e: "gomap_get c ?k = Some e" "\<not> kv_ModRevision (ce_kv e) < kv_ModRevision kv" by blast
    then have "e\<lparr>ce_found := True\<rparr> = ?new" using same[OF e] by simp
    then show ?thesis using that[of "[]"] e by (simp add: watch_key_prefix[OF p(1)])
  next
    case False
    then show ?thesis using that[of "[key_event UPDATE ?k (kv_Value kv)]"]
      by (cases "gomap_get c ?k") (simp_all add: watch_key_prefix[OF p(1)])
  qed
  have n: "\<forall>a \<in> insert kv D. \<forall>b \<in> set kvs. newer a b" using Cons.prems(3,5) by (auto simp: newer_def)
  obtain c' evs where r: "sync_page (length pfx) kvs (gomap_set ?k ?new c) = Some (c', evs)" "cache_ok pfx (insert kv D \<union> set kvs) c'"
    "\<forall>k. gomap_get c' k = (case store_of (length pfx) kvs k of None \<Rightarrow> gomap_get (gomap_set ?k ?new c) k | Some kv \<Rightarrow> Some \<lparr>ce_kv = kv, ce_found = True\<rparr>)"
    using Cons.IH[OF _ cache_ok_set[OF Cons.prems(2) p(1)] _ _ n, of ?new] Cons.prems(3,4) by auto
  have "store_of (length pfx) kvs ?k = None"
  proof (rule ccontr)
    assume "store_of (length pfx) kvs ?k \<noteq> None"
    then obtain b where "b \<in> set kvs" "drop (length pfx) (kv_Key b) = ?k" unfolding store_of_def by (force dest: map_of_SomeD)
    then have "kv_Key b = kv_Key kv" using Cons.prems(4) p(2) by (auto simp: HasPrefix_iff)
    then show False using Cons.prems(3) imageI[OF \<open>b \<in> set kvs\<close>, of kv_Key] by simp
  qed
  then have "\<forall>k. gomap_get c' k = (case store_of (length pfx) (kv # kvs) k of None \<Rightarrow> gomap_get c k | Some kv \<Rightarrow> Some \<lparr>ce_kv = kv, ce_found = True\<rparr>)"
    using r(3) by (auto simp: store_of_def split: option.splits)
  then show ?case using Cons.prems(1) step r(1,2) by simp
qed

lemma watch_events_exact:
  assumes "cache_ok pfx D c" "\<forall>e \<in> set es. HasPrefix (kv_Key (changed_kv e)) pfx"
  obtains c' evs where "watch_events (length pfx) es c = Some (c', evs)"
    "cache_ok pfx (D \<union> {kv. Put kv \<in> set es}) c'" "flagged c' \<subseteq> flagged c"
    "cache_store c' = fold (change_store (length pfx)) es (cache_store c)"
  using assms
proof (induction es arbitrary: D c thesis)
  case (Cons e es)
  define k where "k = drop (length pfx) (kv_Key (changed_kv e))"
  have p: "HasPrefix (kv_Key (changed_kv e)) pfx" and ps: "\<forall>e \<in> set es. HasPrefix (kv_Key (changed_kv e)) pfx" using Cons.prems(3) by auto
  define c1 where "c1 = (case e of Put kv \<Rightarrow> gomap_set k \<lparr>ce_kv = kv, ce_found = False\<rparr> c | Delete _ \<Rightarrow> gomap_delete k c)"
  have ok: "cache_ok pfx (D \<union> {kv. e = Put kv}) c1"
    using Cons.prems(2) cache_ok_set[OF Cons.prems(2) p, of "\<lparr>ce_kv = changed_kv e, ce_found = False\<rparr>"]
    by (cases e) (auto simp: c1_def k_def cache_ok_def)
  obtain c' evs where r: "watch_events (length pfx) es c1 = Some (c', evs)" "cache_ok pfx (D \<union> {kv. e = Put kv} \<union> {kv. Put kv \<in> set es}) c'"
    "flagged c' \<subseteq> flagged c1" "cache_store c' = fold (change_store (length pfx)) es (cache_store c1)"
    using Cons.IH[OF _ ok ps] by blast
  have none: "gomap_delete k c = c" if "gomap_get c k = None" using that by (simp add: AList.delete_idem map_of_eq_None_iff)
  have "\<exists>evs. watch_events (length pfx) (e # es) c = Some (c', evs)"
    using r(1) none watch_key_prefix[OF p] by (cases e; cases "gomap_get c k") (auto simp: c1_def k_def)
  moreover have "cache_store c1 = change_store (length pfx) e (cache_store c)" "flagged c1 \<subseteq> flagged c"
    by (cases e; auto simp: c1_def k_def cache_store_def flagged_def split: if_splits)+
  moreover have "D \<union> {kv. e = Put kv} \<union> {kv. Put kv \<in> set es} = D \<union> {kv. Put kv \<in> set (e # es)}" by auto
  ultimately show ?case using Cons.prems(1) r by auto
qed auto

section \<open>Rounds\<close>

lemma fold_change_store:
  assumes "\<forall>k. s k = t k \<or> t k = None \<and> k \<in> K"
  shows "\<forall>k. fold (change_store n) es s k = fold (change_store n) es t k \<or> fold (change_store n) es t k = None \<and> k \<in> K"
  using assms
proof (induction es arbitrary: s t)
  case (Cons e es)
  have "\<forall>k. change_store n e s k = change_store n e t k \<or> change_store n e t k = None \<and> k \<in> K"
    using Cons.prems by (cases e) auto
  from Cons.IH[OF this] show ?case by simp
qed simp

lemma end_sync_exact:
  assumes "cache_ok pfx D (w_cache w)" "end_sync w = (w', evs)"
  shows "w_initSent w'" "cache_ok pfx D (w_cache w')" "fold listen evs (cache_view (w_cache w)) = cache_view (w_cache w')"
    "w_initSent w \<Longrightarrow> gomap_get (w_cache w') k = (case gomap_get (w_cache w) k of Some e \<Rightarrow> if ce_found e then Some (e\<lparr>ce_found := False\<rparr>) else None | None \<Rightarrow> None)"
    "\<not> w_initSent w \<Longrightarrow> w_cache w' = w_cache w"
proof -
  have wf: "gomap_wf (w_cache w)" using assms(1) by (simp add: cache_ok_def)
  have later: "w' = w\<lparr>w_cache := fst (sweep (w_cache w))\<rparr> \<and> evs = snd (sweep (w_cache w))" if "w_initSent w"
    using assms(2) that by (auto simp: end_sync_def split_beta)
  have first: "w' = w\<lparr>w_initSent := True\<rparr> \<and> evs = [key_event INITIALIZED [] None]" if "\<not> w_initSent w"
    using assms(2) that by (auto simp: end_sync_def)
  show "w_initSent w'" using later first by (cases "w_initSent w") simp_all
  show "\<not> w_initSent w \<Longrightarrow> w_cache w' = w_cache w" using first by simp
  show "w_initSent w \<Longrightarrow> gomap_get (w_cache w') k = (case gomap_get (w_cache w) k of Some e \<Rightarrow> if ce_found e then Some (e\<lparr>ce_found := False\<rparr>) else None | None \<Rightarrow> None)"
    using later sweep_get[OF wf, of k] by simp
  show "fold listen evs (cache_view (w_cache w)) = cache_view (w_cache w')"
    using later first sweep_view[OF wf] by (cases "w_initSent w") simp_all
  have "cache_ok pfx D (fst (sweep (w_cache w)))"
    using assms(1) sweep_wf[OF wf] unfolding cache_ok_def sweep_get[OF wf] by (auto split: if_splits option.splits)
  then show "cache_ok pfx D (w_cache w')" using assms(1) later first by (cases "w_initSent w") simp_all
qed

lemma refresh_round_exact:
  assumes ok: "round_ok pfx rd" and c: "cache_ok pfx D (w_cache w)" and new: "\<forall>a \<in> D. \<forall>b \<in> set (delivered rd). newer a b"
  obtains w' evs where "refresh_round (length pfx) rd w = Some (if rd_cancelled rd then Stopped else Watching, w', evs)"
    "w_initSent w'" "cache_ok pfx (D \<union> set (delivered rd)) (w_cache w')"
    "fold listen evs (cache_view (w_cache w)) = cache_view (w_cache w')"
    "w_initSent w \<Longrightarrow> flagged (w_cache w') = {} \<and>
       (\<forall>k. cache_store (w_cache w') k = range_content (length pfx) rd k \<or> range_content (length pfx) rd k = None \<and> k \<in> flagged (w_cache w))"
    "w_cache w = [] \<Longrightarrow> \<not> w_initSent w \<Longrightarrow> cache_store (w_cache w') = range_content (length pfx) rd \<and>
       flagged (w_cache w') \<subseteq> dom (store_of (length pfx) (listed (rd_msgs rd)))"
proof -
  let ?n = "length pfx" and ?kvs = "listed (rd_msgs rd)" and ?es = "changes (rd_responses rd)"
  obtain c1 ev1 where s: "sync_page ?n ?kvs (w_cache w) = Some (c1, ev1)" "cache_ok pfx (D \<union> set ?kvs) c1"
    "\<forall>k. gomap_get c1 k = (case store_of ?n ?kvs k of None \<Rightarrow> gomap_get (w_cache w) k | Some kv \<Rightarrow> Some \<lparr>ce_kv = kv, ce_found = True\<rparr>)"
    using sync_page_exact[OF c, of ?kvs] ok new by (auto simp: round_ok_def delivered_def)
  have sb: "sync_base ?n (rd_msgs rd) True True (w_cache w) = Some (SyncDone, c1, ev1)"
    using ok s(1) by (subst sync_base_complete) (auto simp: round_ok_def)
  obtain w1 ev2 where e: "end_sync (w\<lparr>w_cache := c1\<rparr>) = (w1, ev2)" by fastforce
  note e' = end_sync_exact[of pfx "D \<union> set ?kvs" "w\<lparr>w_cache := c1\<rparr>", simplified, OF s(2) e]
  obtain c2 ev3 where u: "watch_events ?n ?es (w_cache w1) = Some (c2, ev3)" "cache_ok pfx (D \<union> set ?kvs \<union> {kv. Put kv \<in> set ?es}) c2"
    "flagged c2 \<subseteq> flagged (w_cache w1)" "cache_store c2 = fold (change_store ?n) ?es (cache_store (w_cache w1))"
    using watch_events_exact[OF e'(2)] ok unfolding round_ok_def by blast
  have v: "fold listen (ev1 @ ev2 @ ev3) (cache_view (w_cache w)) = cache_view c2"
    using sync_page_view[OF s(1)] watch_events_view[OF u(1)] e'(3) c e'(2) by (simp add: cache_ok_def)
  have D: "D \<union> set ?kvs \<union> {kv. Put kv \<in> set ?es} = D \<union> set (delivered rd)" by (force simp: delivered_def)
  have again: "flagged (w_cache w1) = {} \<and> (\<forall>k. cache_store (w_cache w1) k = store_of ?n ?kvs k \<or> store_of ?n ?kvs k = None \<and> k \<in> flagged (w_cache w))"
    if "w_initSent w" using e'(4)[OF that] s(3) by (auto simp: flagged_def cache_store_def split: option.splits)
  have first: "cache_store (w_cache w1) = store_of ?n ?kvs \<and> flagged (w_cache w1) \<subseteq> dom (store_of ?n ?kvs)"
    if "w_cache w = []" "\<not> w_initSent w" using e'(5) s(3) that by (auto simp: flagged_def cache_store_def fun_eq_iff split: option.splits)
  show thesis
  proof (rule that[of "w1\<lparr>w_cache := c2\<rparr>" "ev1 @ ev2 @ ev3"])
    show "refresh_round ?n rd w = Some (if rd_cancelled rd then Stopped else Watching, w1\<lparr>w_cache := c2\<rparr>, ev1 @ ev2 @ ev3)"
      by (simp add: refresh_round_def sb e watch_updates_changes u(1))
    show "flagged (w_cache (w1\<lparr>w_cache := c2\<rparr>)) = {} \<and> (\<forall>k. cache_store (w_cache (w1\<lparr>w_cache := c2\<rparr>)) k = range_content ?n rd k \<or>
        range_content ?n rd k = None \<and> k \<in> flagged (w_cache w))" if i: "w_initSent w"
      using again[OF i, THEN conjunct1] u(3) fold_change_store[OF again[OF i, THEN conjunct2], of ?n ?es]
      by (simp add: range_content_def u(4))
    show "cache_store (w_cache (w1\<lparr>w_cache := c2\<rparr>)) = range_content ?n rd \<and> flagged (w_cache (w1\<lparr>w_cache := c2\<rparr>)) \<subseteq> dom (store_of ?n ?kvs)"
      if i: "w_cache w = []" "\<not> w_initSent w"
      using first[OF i] u(3) by (auto simp: range_content_def u(4))
  qed (use e'(1) u(2) D v in simp_all)
qed

lemma watcher_Start_snoc:
  "watcher_Start n (rds @ [rd]) w =
     (case watcher_Start n rds w of
        Some (Watching, w1, evs1) \<Rightarrow> map_option (\<lambda>(s, w2, evs2). (s, w2, evs1 @ evs2)) (refresh_round n rd w1)
      | r \<Rightarrow> r)"
proof (induction rds arbitrary: w)
  case Nil
  then show ?case by (auto split: option.splits watcher_status.splits)
next
  case (Cons rd' rds)
  show ?case by (auto simp: Cons.IH option.map_comp comp_def case_prod_unfold split: option.splits watcher_status.splits)
qed

lemma watcher_rounds:
  assumes "\<forall>rd \<in> set rds. round_ok pfx rd \<and> \<not> rd_cancelled rd" "sorted_wrt newer (concat (map delivered rds))"
  shows "\<exists>w evs. watcher_Start (length pfx) rds new_watcher = Some (Watching, w, evs) \<and> cache_ok pfx (set (concat (map delivered rds))) (w_cache w) \<and>
     fold listen evs Map.empty = cache_view (w_cache w) \<and> (w_initSent w \<longleftrightarrow> rds \<noteq> []) \<and> (rds = [] \<longrightarrow> w_cache w = []) \<and>
     (length rds = 1 \<longrightarrow> flagged (w_cache w) \<subseteq> dom (store_of (length pfx) (listed (rd_msgs (hd rds))))) \<and> (2 \<le> length rds \<longrightarrow> flagged (w_cache w) = {})"
  using assms
proof (induction rds rule: rev_induct)
  case Nil
  show ?case by (simp add: new_watcher_def cache_ok_def cache_view_def)
next
  case (snoc rd rds)
  from snoc.prems have "\<forall>rd \<in> set rds. round_ok pfx rd \<and> \<not> rd_cancelled rd" "sorted_wrt newer (concat (map delivered rds))"
    by (auto simp: sorted_wrt_append)
  from snoc.IH[OF this] obtain w evs where w: "watcher_Start (length pfx) rds new_watcher = Some (Watching, w, evs)"
    "cache_ok pfx (set (concat (map delivered rds))) (w_cache w)" "fold listen evs Map.empty = cache_view (w_cache w)"
    "w_initSent w \<longleftrightarrow> rds \<noteq> []" "rds = [] \<longrightarrow> w_cache w = []" by blast
  have n: "\<forall>a \<in> set (concat (map delivered rds)). \<forall>b \<in> set (delivered rd). newer a b" "round_ok pfx rd" and nc: "\<not> rd_cancelled rd"
    using snoc.prems by (auto simp: sorted_wrt_append)
  obtain w' evs' where r0: "refresh_round (length pfx) rd w = Some (if rd_cancelled rd then Stopped else Watching, w', evs')"
    and r: "w_initSent w'" "cache_ok pfx (set (concat (map delivered rds)) \<union> set (delivered rd)) (w_cache w')"
      "fold listen evs' (cache_view (w_cache w)) = cache_view (w_cache w')" "w_initSent w \<Longrightarrow> flagged (w_cache w') = {}"
      "w_cache w = [] \<Longrightarrow> \<not> w_initSent w \<Longrightarrow> flagged (w_cache w') \<subseteq> dom (store_of (length pfx) (listed (rd_msgs rd)))"
    by (rule refresh_round_exact[OF n(2) w(2) n(1)]) (rule that; blast)
  show ?case
  proof (intro exI[of _ w'] exI[of _ "evs @ evs'"] conjI)
    show "watcher_Start (length pfx) (rds @ [rd]) new_watcher = Some (Watching, w', evs @ evs')" using r0 nc by (simp add: watcher_Start_snoc w(1))
    show "length (rds @ [rd]) = 1 \<longrightarrow> flagged (w_cache w') \<subseteq> dom (store_of (length pfx) (listed (rd_msgs (hd (rds @ [rd])))))"
      using w(4,5) r(5) by simp
    show "2 \<le> length (rds @ [rd]) \<longrightarrow> flagged (w_cache w') = {}" using w(4) r(4) by (cases rds) simp_all
  qed (use r w in simp_all)
qed


text \<open>
  A key that is listed at first and has disappeared when the watch is compacted: after the second sync the listener still has it.
\<close>

definition compacted_watch :: "watch_round list" where
  "compacted_watch =
     [\<lparr>rd_msgs = [Page [\<lparr>kv_Key = ''p/a'', kv_Value = Some ''1'', kv_ModRevision = 1\<rparr>], PagesClosed, ErrClosed],
       rd_responses = [\<lparr>wr_Events = [Put \<lparr>kv_Key = ''p/b'', kv_Value = Some ''2'', kv_ModRevision = 2\<rparr>], wr_Err = Some ErrCompacted\<rparr>], rd_cancelled = False\<rparr>]"

definition second_round :: watch_round where
  "second_round = \<lparr>rd_msgs = [ErrClosed, Page [\<lparr>kv_Key = ''p/b'', kv_Value = Some ''2'', kv_ModRevision = 2\<rparr>], PagesClosed], rd_responses = [], rd_cancelled = True\<rparr>"


text \<open>
  When the context is cancelled, the error of the sync phase only leaves the \<open>select\<close>: with both channels closed the round goes on, and
  every entry that the interrupted sync has not found is reported as deleted.
\<close>

lemma cancelled_sync_deletes:
  assumes "w_initSent w" "gomap_wf (w_cache w)" "flagged (w_cache w) = {}" "rd_msgs rd = [SyncError True, ErrClosed, PagesClosed]" "rd_responses rd = []"
  shows "refresh_round n rd w = Some (if rd_cancelled rd then Stopped else Watching, w\<lparr>w_cache := []\<rparr>,
     map (\<lambda>(k, e). key_event DELETE k (kv_Value (ce_kv e))) (w_cache w))"
proof -
  have "\<forall>(k, e) \<in> set (w_cache w). \<not> ce_found e" using assms(2,3) by (force simp: flagged_def)
  then have "sweep (w_cache w) = ([], map (\<lambda>(k, e). key_event DELETE k (kv_Value (ce_kv e))) (w_cache w))"
    by (auto simp: sweep_def filter_empty_conv filter_id_conv)
  then show ?thesis by (simp add: refresh_round_def assms(1,4,5) end_sync_def)
qed

end
