(* ===== verification/Event_Stream.thy ===== *)
theory Event_Stream
  imports Range_Watcher Cluster_Config Mesh_Deployment
begin

text \<open>
  The stream of model events (pkg/mmesh/modelmesh\_events.go): which ranges of etcd are watched, for which namespaces, and through which
  client. The watchers themselves are in theory \<open>Range_Watcher\<close>; what their listeners make of a key is in
  \<open>Source_Names\<close>. Here a started watcher is a record, and a context is a number: its watchers run until it is cancelled. The settings
  of an etcd client (pkg/mmesh/etcdrangewatcher.go) come first.
\<close>

section \<open>Client settings\<close>

datatype root_CAs = SystemPool | PemPool string

record etcd_tls =
  et_RootCAs :: root_CAs
  et_Certificate :: "(string \<times> string) option"

record EtcdClientConfig =
  ecc_Endpoints :: "string list"
  ecc_DialTimeout :: duration
  ecc_Username :: string
  ecc_Password :: string
  ecc_TLS :: "etcd_tls option"
  ecc_Authority :: "string option"

datatype etcd_client_error =
    MissingSecretKey string
  | UnpairedClientKey
  | BadKeyPair string
  | ClientFailed string

text \<open>
  Outside: \<open>tls.X509KeyPair\<close>, \<open>etcd3.New\<close> and \<open>json.Unmarshal\<close>, each with its error, and the secrets.
\<close>

record etcd_env =
  ee_X509KeyPair :: "string \<Rightarrow> string \<Rightarrow> string option"
  ee_New :: "EtcdClientConfig \<Rightarrow> string option"
  ee_Unmarshal :: "string \<Rightarrow> string + EtcdConfig"
  ee_GetSecret :: "NamespacedName \<Rightarrow> api_error + data_object"

definition etcdDialTimeout :: duration where
  "etcdDialTimeout = 10 * Second"

text \<open>A file that is named wins over embedded text.\<close>

definition secret_text :: "string \<Rightarrow> string \<Rightarrow> (string, string) gomap \<Rightarrow> etcd_client_error + string" where
  "secret_text embedded file secretData =
     (if file = [] then Inr embedded
      else (case gomap_get secretData file of None \<Rightarrow> Inl (MissingSecretKey file) | Some text \<Rightarrow> Inr text))"

definition getEtcdClientConfig ::
  "etcd_env \<Rightarrow> EtcdConfig \<Rightarrow> (string, string) gomap \<Rightarrow> etcd_client_error + EtcdClientConfig" where
  "getEtcdClientConfig e c secretData =
     (let endpoints = split_on CHR '','' (ec_Endpoints c);
          hasCA = (ec_Certificate c \<noteq> [] \<or> ec_CertificateFile c \<noteq> [])
      in case secret_text (ec_Certificate c) (ec_CertificateFile c) secretData of
           Inl err \<Rightarrow> Inl err
         | Inr certificate \<Rightarrow>
             (case secret_text (ec_ClientKey c) (ec_ClientKeyFile c) secretData of
                Inl err \<Rightarrow> Inl err
              | Inr clientKey \<Rightarrow>
                  (case secret_text (ec_ClientCertificate c) (ec_ClientCertificateFile c) secretData of
                     Inl err \<Rightarrow> Inl err
                   | Inr clientCert \<Rightarrow>
                       if (clientKey \<noteq> []) \<noteq> (clientCert \<noteq> []) then Inl UnpairedClientKey
                       else (case (if clientKey = [] then None else ee_X509KeyPair e clientCert clientKey) of
                               Some err \<Rightarrow> Inl (BadKeyPair err)
                             | None \<Rightarrow>
                                 Inr \<lparr>ecc_Endpoints = endpoints, ecc_DialTimeout = etcdDialTimeout,
                                   ecc_Username = ec_Username c, ecc_Password = ec_Password c,
                                   ecc_TLS = (if HasPrefix (hd endpoints) ''https://'' \<or> hasCA \<or> clientKey \<noteq> [] then
                                       Some \<lparr>et_RootCAs = (if hasCA then PemPool certificate else SystemPool),
                                         et_Certificate = (if clientKey = [] then None else Some (clientCert, clientKey))\<rparr>
                                     else None),
                                   ecc_Authority = (if ec_OverrideAuthority c = [] then None else Some (ec_OverrideAuthority c))\<rparr>))))"

definition CreateEtcdClient ::
  "etcd_env \<Rightarrow> EtcdConfig \<Rightarrow> (string, string) gomap \<Rightarrow> etcd_client_error + EtcdClientConfig" where
  "CreateEtcdClient e c secretData =
     (case getEtcdClientConfig e c secretData of
        Inl err \<Rightarrow> Inl err
      | Inr cc \<Rightarrow> (case ee_New e cc of Some err \<Rightarrow> Inl (ClientFailed err) | None \<Rightarrow> Inr cc))"

section \<open>The stream\<close>

record etcd_client =
  cl_id :: nat
  cl_config :: EtcdClientConfig

record namespaceWatch =
  nw_watchedServiceName :: string
  nw_cancel :: "nat option"

definition zero_watch :: namespaceWatch where
  "zero_watch = \<lparr>nw_watchedServiceName = [], nw_cancel = None\<rparr>"

text \<open>A watcher that has been started; a nil client is \<open>None\<close>.\<close>

record started_watch =
  sw_ctx :: nat
  sw_client :: "etcd_client option"
  sw_prefix :: string
  sw_keysOnly :: bool
  sw_namespace :: string

record ModelMeshEventStream =
  mes_controllerNamespace :: string
  mes_secretName :: string
  mes_etcdClient :: "etcd_client option"
  mes_etcdRootPrefix :: string
  mes_watchedServices :: "(string, namespaceWatch) gomap"
  mes_started :: "started_watch list"
  mes_cancelled :: "nat list"
  mes_closed :: "nat list"
  mes_fresh :: nat

definition NewModelEventStream :: "string \<Rightarrow> ModelMeshEventStream" where
  "NewModelEventStream namespace = \<lparr>mes_controllerNamespace = namespace, mes_secretName = [], mes_etcdClient = None, mes_etcdRootPrefix = [],
     mes_watchedServices = [(namespace, zero_watch)], mes_started = [], mes_cancelled = [], mes_closed = [], mes_fresh = 0\<rparr>"

definition cancelWatch :: "string \<Rightarrow> ModelMeshEventStream \<Rightarrow> ModelMeshEventStream" where
  "cancelWatch namespace s =
     (case gomap_get (mes_watchedServices s) namespace of
        Some nw \<Rightarrow>
          (case nw_cancel nw of
             Some ctx \<Rightarrow> s\<lparr>mes_cancelled := ctx # mes_cancelled s,
               mes_watchedServices := gomap_set namespace (nw\<lparr>nw_cancel := None\<rparr>) (mes_watchedServices s)\<rparr>
           | None \<Rightarrow> s)
      | None \<Rightarrow> s)"

definition ModelRegistryPrefix :: string where
  "ModelRegistryPrefix = ''registry''"

definition VModelRegistryPrefix :: string where
  "VModelRegistryPrefix = ''vmodels''"

definition servicePrefix :: "ModelMeshEventStream \<Rightarrow> string \<Rightarrow> string \<Rightarrow> string" where
  "servicePrefix s namespace serviceName =
     (if namespace = mes_controllerNamespace s then mes_etcdRootPrefix s else mes_etcdRootPrefix s @ ''/mm_ns/'' @ namespace) @
     ''/'' @ ModelMeshEtcdPrefix @ ''/'' @ serviceName"

text \<open>The watcher of one of the two registries of a service; only the keys of the model registry are asked for.\<close>

definition registry_watch :: "ModelMeshEventStream \<Rightarrow> string \<Rightarrow> string \<Rightarrow> nat \<Rightarrow> bool \<Rightarrow> started_watch" where
  "registry_watch s namespace serviceName ctx models =
     \<lparr>sw_ctx = ctx, sw_client = mes_etcdClient s,
      sw_prefix = servicePrefix s namespace serviceName @ ''/'' @ (if models then ModelRegistryPrefix else VModelRegistryPrefix) @ ''/'',
      sw_keysOnly = models, sw_namespace = namespace\<rparr>"

definition refreshWatches :: "string \<Rightarrow> string \<Rightarrow> ModelMeshEventStream \<Rightarrow> ModelMeshEventStream" where
  "refreshWatches namespace serviceName s =
     (let ctx = mes_fresh s
      in s\<lparr>mes_fresh := ctx + 1,
           mes_started := mes_started s @ [registry_watch s namespace serviceName ctx False, registry_watch s namespace serviceName ctx True],
           mes_watchedServices := gomap_set namespace \<lparr>nw_watchedServiceName = serviceName, nw_cancel = Some ctx\<rparr> (mes_watchedServices s)\<rparr>)"

datatype stream_error =
    EmptyServiceName
  | EmptySecretName
  | SecretUnavailable api_error
  | SecretKeyMissing
  | EtcdConfigInvalid string
  | EtcdClientError etcd_client_error

text \<open>A failure to create the client leaves a nil client behind.\<close>

definition connectToEtcd :: "etcd_env \<Rightarrow> string \<Rightarrow> ModelMeshEventStream \<Rightarrow> stream_error option \<times> ModelMeshEventStream" where
  "connectToEtcd e secretName s =
     (case ee_GetSecret e \<lparr>nn_Namespace = mes_controllerNamespace s, nn_Name = secretName\<rparr> of
        Inl err \<Rightarrow> (Some (SecretUnavailable err), s)
      | Inr secret \<Rightarrow>
          (case gomap_get (do_Data secret) EtcdSecretKey of
             None \<Rightarrow> (Some SecretKeyMissing, s)
           | Some text \<Rightarrow>
               (case ee_Unmarshal e text of
                  Inl err \<Rightarrow> (Some (EtcdConfigInvalid err), s)
                | Inr etcdConfig \<Rightarrow>
                    (case CreateEtcdClient e etcdConfig (do_Data secret) of
                       Inl err \<Rightarrow> (Some (EtcdClientError err), s\<lparr>mes_etcdClient := None\<rparr>)
                     | Inr cc \<Rightarrow>
                         (None, s\<lparr>mes_etcdClient := Some \<lparr>cl_id = mes_fresh s, cl_config = cc\<rparr>, mes_fresh := mes_fresh s + 1,
                                  mes_etcdRootPrefix := ec_RootPrefix etcdConfig\<rparr>)))))"

definition watched_name :: "ModelMeshEventStream \<Rightarrow> string \<Rightarrow> string" where
  "watched_name s namespace =
     (case gomap_get (mes_watchedServices s) namespace of None \<Rightarrow> [] | Some nw \<Rightarrow> nw_watchedServiceName nw)"

definition refresh_all :: "string \<Rightarrow> string \<Rightarrow> ModelMeshEventStream \<Rightarrow> ModelMeshEventStream" where
  "refresh_all namespace serviceName s =
     fold (\<lambda>n s. refreshWatches n (if n = namespace then serviceName else watched_name s n) s) (map fst (mes_watchedServices s)) s"

definition UpdateWatchedService ::
  "etcd_env \<Rightarrow> string \<Rightarrow> string \<Rightarrow> string \<Rightarrow> ModelMeshEventStream \<Rightarrow> stream_error option \<times> ModelMeshEventStream" where
  "UpdateWatchedService e etcdSecretName serviceName namespace s =
     (if serviceName = [] then (Some EmptyServiceName, s)
      else if etcdSecretName = [] then (Some EmptySecretName, s)
      else (let s0 = (if gomap_get (mes_watchedServices s) namespace = None
                      then s\<lparr>mes_watchedServices := gomap_set namespace zero_watch (mes_watchedServices s)\<rparr> else s)
            in if etcdSecretName \<noteq> mes_secretName s0 then
                 (let s1 = fold cancelWatch (map fst (mes_watchedServices s0)) s0;
                      s2 = s1\<lparr>mes_closed := (case mes_etcdClient s1 of None \<Rightarrow> mes_closed s1 | Some c \<Rightarrow> cl_id c # mes_closed s1)\<rparr>
                  in case connectToEtcd e etcdSecretName s2 of
                       (Some err, s3) \<Rightarrow> (Some err, s3)
                     | (None, s3) \<Rightarrow> (None, refresh_all namespace serviceName (s3\<lparr>mes_secretName := etcdSecretName\<rparr>)))
               else if serviceName \<noteq> watched_name s0 namespace then
                 (None, refreshWatches namespace serviceName (cancelWatch namespace s0))
               else (None, s0)))"

definition RemoveWatchedService :: "string \<Rightarrow> string \<Rightarrow> ModelMeshEventStream \<Rightarrow> ModelMeshEventStream" where
  "RemoveWatchedService serviceName namespace s =
     (case gomap_get (mes_watchedServices s) namespace of
        Some nw \<Rightarrow>
          if nw_watchedServiceName nw = serviceName then
            s\<lparr>mes_watchedServices := gomap_delete namespace (mes_watchedServices s),
              mes_cancelled := (case nw_cancel nw of None \<Rightarrow> mes_cancelled s | Some ctx \<Rightarrow> ctx # mes_cancelled s)\<rparr>
          else s
      | None \<Rightarrow> s)"

section \<open>Which watchers run\<close>

definition live :: "ModelMeshEventStream \<Rightarrow> started_watch set" where
  "live s = {w \<in> set (mes_started s). sw_ctx w \<notin> set (mes_cancelled s)}"

text \<open>The watchers that ought to run: those of both registries of every watched service.\<close>

definition wanted :: "ModelMeshEventStream \<Rightarrow> started_watch set" where
  "wanted s = {registry_watch s n (nw_watchedServiceName nw) ctx models | n nw ctx models.
     gomap_get (mes_watchedServices s) n = Some nw \<and> nw_cancel nw = Some ctx}"

definition contexts_ok :: "ModelMeshEventStream \<Rightarrow> bool" where
  "contexts_ok s \<longleftrightarrow> gomap_wf (mes_watchedServices s) \<and>
     (\<forall>w \<in> set (mes_started s). sw_ctx w < mes_fresh s) \<and> (\<forall>c \<in> set (mes_cancelled s). c < mes_fresh s) \<and>
     (\<forall>n nw c. gomap_get (mes_watchedServices s) n = Some nw \<and> nw_cancel nw = Some c \<longrightarrow> c < mes_fresh s \<and> c \<notin> set (mes_cancelled s)) \<and>
     (\<forall>n nw n' nw' c. (gomap_get (mes_watchedServices s) n = Some nw \<and> nw_cancel nw = Some c) \<and>
        (gomap_get (mes_watchedServices s) n' = Some nw' \<and> nw_cancel nw' = Some c) \<longrightarrow> n = n')"

definition watches_exact :: "ModelMeshEventStream \<Rightarrow> bool" where
  "watches_exact s \<longleftrightarrow> contexts_ok s \<and> live s = wanted s"

definition all_idle :: "ModelMeshEventStream \<Rightarrow> bool" where
  "all_idle s \<longleftrightarrow> (\<forall>n nw. gomap_get (mes_watchedServices s) n = Some nw \<longrightarrow> nw_cancel nw = None)"

definition all_watched :: "ModelMeshEventStream \<Rightarrow> bool" where
  "all_watched s \<longleftrightarrow> (\<forall>n nw. gomap_get (mes_watchedServices s) n = Some nw \<longrightarrow> nw_cancel nw \<noteq> None)"

lemma registry_watch_fields [simp]:
  "sw_ctx (registry_watch s n svc c m) = c" "sw_namespace (registry_watch s n svc c m) = n" "sw_client (registry_watch s n svc c m) = mes_etcdClient s"
  by (simp_all add: registry_watch_def)

lemma registry_watch_cong:
  "mes_etcdClient s = mes_etcdClient t \<Longrightarrow> mes_etcdRootPrefix s = mes_etcdRootPrefix t \<Longrightarrow> mes_controllerNamespace s = mes_controllerNamespace t \<Longrightarrow>
     registry_watch s = registry_watch t"
  by (intro ext) (simp add: registry_watch_def servicePrefix_def)

lemma contexts_ok_get:
  assumes "contexts_ok s" "gomap_get (mes_watchedServices s) n = Some nw" "nw_cancel nw = Some c"
  shows "c < mes_fresh s" "c \<notin> set (mes_cancelled s)"
    "gomap_get (mes_watchedServices s) n' = Some nw' \<Longrightarrow> nw_cancel nw' = Some c \<Longrightarrow> n' = n"
  using assms unfolding contexts_ok_def by blast+

text \<open>Cancelling: the two watchers of the namespace go, and no other.\<close>

lemma stop_watch:
  assumes "watches_exact s" "gomap_get (mes_watchedServices s) n = Some nw" "nw_cancel nw = Some c"
    and t: "mes_cancelled t = c # mes_cancelled s" "mes_started t = mes_started s" "mes_fresh t = mes_fresh s" "gomap_wf (mes_watchedServices t)"
      "mes_etcdClient t = mes_etcdClient s" "mes_etcdRootPrefix t = mes_etcdRootPrefix s" "mes_controllerNamespace t = mes_controllerNamespace s"
    and others: "\<And>n'. n' \<noteq> n \<Longrightarrow> gomap_get (mes_watchedServices t) n' = gomap_get (mes_watchedServices s) n'"
    and gone: "\<And>nw'. gomap_get (mes_watchedServices t) n = Some nw' \<Longrightarrow> nw_cancel nw' = None"
  shows "watches_exact t"
proof -
  have ok: "contexts_ok s" "live s = wanted s" using assms(1) by (auto simp: watches_exact_def)
  note c = contexts_ok_get[OF ok(1) assms(2,3)]
  have get: "gomap_get (mes_watchedServices t) m = Some v \<and> nw_cancel v = Some d \<longleftrightarrow>
      m \<noteq> n \<and> gomap_get (mes_watchedServices s) m = Some v \<and> nw_cancel v = Some d" for m v d
    using others gone by (cases "m = n") auto
  have "contexts_ok t"
    unfolding contexts_ok_def t(1-3) get
  proof (intro conjI)
    show "\<forall>m v d. m \<noteq> n \<and> gomap_get (mes_watchedServices s) m = Some v \<and> nw_cancel v = Some d \<longrightarrow>
        d < mes_fresh s \<and> d \<notin> set (c # mes_cancelled s)" using contexts_ok_get[OF ok(1)] c(3) by fastforce
    show "\<forall>m v m' v' d. (m \<noteq> n \<and> gomap_get (mes_watchedServices s) m = Some v \<and> nw_cancel v = Some d) \<and>
        m' \<noteq> n \<and> gomap_get (mes_watchedServices s) m' = Some v' \<and> nw_cancel v' = Some d \<longrightarrow> m = m'"
      using contexts_ok_get(3)[OF ok(1)] by metis
  qed (use ok(1) c(1) t(4) in \<open>simp_all add: contexts_ok_def\<close>)
  moreover have "live t = {w \<in> live s. sw_ctx w \<noteq> c}" by (auto simp: live_def t)
  moreover have "wanted t = {w \<in> wanted s. sw_ctx w \<noteq> c}"
  proof (intro set_eqI)
    fix w
    have t: "w \<in> wanted t \<longleftrightarrow> (\<exists>m v d k. (m \<noteq> n \<and> gomap_get (mes_watchedServices s) m = Some v \<and> nw_cancel v = Some d) \<and>
        w = registry_watch s m (nw_watchedServiceName v) d k)"
      unfolding wanted_def registry_watch_cong[OF t(5-7)] get by blast
    have d: "m \<noteq> n \<longleftrightarrow> d \<noteq> c" if "gomap_get (mes_watchedServices s) m = Some v" "nw_cancel v = Some d" for m v d
      using c(3)[OF that(1)] assms(2,3) that by (metis option.inject)
    show "w \<in> wanted t \<longleftrightarrow> w \<in> {w \<in> wanted s. sw_ctx w \<noteq> c}"
    proof
      assume "w \<in> wanted t"
      then show "w \<in> {w \<in> wanted s. sw_ctx w \<noteq> c}" unfolding t using d by (auto simp: wanted_def)
    next
      assume "w \<in> {w \<in> wanted s. sw_ctx w \<noteq> c}"
      then obtain m v d' k where "gomap_get (mes_watchedServices s) m = Some v" "nw_cancel v = Some d'"
        "w = registry_watch s m (nw_watchedServiceName v) d' k" "d' \<noteq> c" by (auto simp: wanted_def)
      then show "w \<in> wanted t" unfolding t using d by blast
    qed
  qed
  ultimately show ?thesis using ok(2) by (simp add: watches_exact_def)
qed

lemma cancelWatch_exact:
  assumes "watches_exact s"
  shows "watches_exact (cancelWatch n s)"
proof (cases "\<exists>nw c. gomap_get (mes_watchedServices s) n = Some nw \<and> nw_cancel nw = Some c")
  case True
  then obtain nw c where g: "gomap_get (mes_watchedServices s) n = Some nw" "nw_cancel nw = Some c" by blast
  show ?thesis by (rule stop_watch[OF assms g]) (use assms g in \<open>auto simp: cancelWatch_def watches_exact_def contexts_ok_def\<close>)
next
  case False
  then have "cancelWatch n s = s" by (auto simp: cancelWatch_def split: option.splits)
  then show ?thesis using assms by simp
qed

lemma cancelWatch_get:
  "gomap_get (mes_watchedServices (cancelWatch n s)) m =
     (if m = n then map_option (\<lambda>nw. nw\<lparr>nw_cancel := None\<rparr>) (gomap_get (mes_watchedServices s) m) else gomap_get (mes_watchedServices s) m)"
  by (auto simp: cancelWatch_def split: option.splits)

definition idle_at :: "string \<Rightarrow> ModelMeshEventStream \<Rightarrow> bool" where
  "idle_at n s \<longleftrightarrow> (\<forall>nw. gomap_get (mes_watchedServices s) n = Some nw \<longrightarrow> nw_cancel nw = None)"

lemma refreshWatches_get:
  "gomap_get (mes_watchedServices (refreshWatches n svc s)) m =
     (if m = n then Some \<lparr>nw_watchedServiceName = svc, nw_cancel = Some (mes_fresh s)\<rparr> else gomap_get (mes_watchedServices s) m)"
  by (simp add: refreshWatches_def Let_def)

lemma refreshWatches_fields [simp]:
  "mes_secretName (refreshWatches n svc s) = mes_secretName s" "mes_etcdClient (refreshWatches n svc s) = mes_etcdClient s"
  "mes_etcdRootPrefix (refreshWatches n svc s) = mes_etcdRootPrefix s" "mes_controllerNamespace (refreshWatches n svc s) = mes_controllerNamespace s"
  "mes_cancelled (refreshWatches n svc s) = mes_cancelled s" "mes_fresh (refreshWatches n svc s) = mes_fresh s + 1"
  by (simp_all add: refreshWatches_def Let_def)

lemma refreshWatches_exact:
  assumes "watches_exact s" "idle_at n s"
  shows "watches_exact (refreshWatches n svc s)"
proof -
  let ?t = "refreshWatches n svc s" and ?c = "mes_fresh s"
  have ok: "contexts_ok s" "live s = wanted s" using assms(1) by (auto simp: watches_exact_def)
  have get: "gomap_get (mes_watchedServices ?t) m = Some v \<and> nw_cancel v = Some d \<longleftrightarrow>
      m = n \<and> v = \<lparr>nw_watchedServiceName = svc, nw_cancel = Some ?c\<rparr> \<and> d = ?c \<or>
      gomap_get (mes_watchedServices s) m = Some v \<and> nw_cancel v = Some d" for m v d
    using assms(2) unfolding refreshWatches_get idle_at_def by (cases "m = n") fastforce+
  have new: "d < ?c \<and> d \<noteq> ?c" if "gomap_get (mes_watchedServices s) m = Some v \<and> nw_cancel v = Some d" for m v d
    using contexts_ok_get(1)[OF ok(1)] that by fastforce
  have "contexts_ok ?t"
    unfolding contexts_ok_def get
  proof (intro conjI)
    show "gomap_wf (mes_watchedServices ?t)" using ok(1) by (simp add: contexts_ok_def refreshWatches_def Let_def)
    show "\<forall>w \<in> set (mes_started ?t). sw_ctx w < mes_fresh ?t" using ok(1) by (auto simp: contexts_ok_def refreshWatches_def Let_def)
    show "\<forall>c \<in> set (mes_cancelled ?t). c < mes_fresh ?t" using ok(1) by (auto simp: contexts_ok_def)
    have "?c \<notin> set (mes_cancelled s)" using ok(1) by (auto simp: contexts_ok_def)
    then show "\<forall>m v d. m = n \<and> v = \<lparr>nw_watchedServiceName = svc, nw_cancel = Some ?c\<rparr> \<and> d = ?c \<or>
        gomap_get (mes_watchedServices s) m = Some v \<and> nw_cancel v = Some d \<longrightarrow> d < mes_fresh ?t \<and> d \<notin> set (mes_cancelled ?t)"
      using contexts_ok_get(2)[OF ok(1)] new by fastforce
    show "\<forall>m v m' v' d. (m = n \<and> v = \<lparr>nw_watchedServiceName = svc, nw_cancel = Some ?c\<rparr> \<and> d = ?c \<or>
        gomap_get (mes_watchedServices s) m = Some v \<and> nw_cancel v = Some d) \<and>
        (m' = n \<and> v' = \<lparr>nw_watchedServiceName = svc, nw_cancel = Some ?c\<rparr> \<and> d = ?c \<or>
        gomap_get (mes_watchedServices s) m' = Some v' \<and> nw_cancel v' = Some d) \<longrightarrow> m = m'"
      using contexts_ok_get(3)[OF ok(1)] new by metis
  qed
  moreover have "live ?t = live s \<union> {registry_watch s n svc ?c False, registry_watch s n svc ?c True}"
    using ok(1) by (auto simp: live_def refreshWatches_def Let_def contexts_ok_def)
  moreover have "wanted ?t = wanted s \<union> {registry_watch s n svc ?c k | k. True}"
  proof -
    have r: "registry_watch ?t = registry_watch s" by (rule registry_watch_cong) simp_all
    have "registry_watch s n svc ?c k \<in> wanted ?t" for k
      unfolding wanted_def r mem_Collect_eq
      by (intro exI[of _ n] exI[of _ "\<lparr>nw_watchedServiceName = svc, nw_cancel = Some ?c\<rparr>"] exI[of _ ?c] exI[of _ k]) (simp add: refreshWatches_get)
    moreover have "wanted s \<subseteq> wanted ?t" unfolding wanted_def r get by blast
    moreover have "wanted ?t \<subseteq> wanted s \<union> {registry_watch s n svc ?c k | k. True}" unfolding wanted_def r get by auto
    ultimately show ?thesis by blast
  qed
  moreover have "{registry_watch s n svc ?c k | k. True} = {registry_watch s n svc ?c False, registry_watch s n svc ?c True}"
    by (auto, metis (full_types))
  ultimately show ?thesis using ok(2) by (simp add: watches_exact_def)
qed

lemma cancelWatch_fields [simp]:
  "mes_secretName (cancelWatch n s) = mes_secretName s" "mes_etcdClient (cancelWatch n s) = mes_etcdClient s"
  by (simp_all add: cancelWatch_def split: option.splits)

lemma cancel_all:
  assumes "watches_exact s"
  shows "watches_exact (fold cancelWatch ns s)" "mes_secretName (fold cancelWatch ns s) = mes_secretName s"
    "gomap_get (mes_watchedServices (fold cancelWatch ns s)) m =
       (if m \<in> set ns then map_option (\<lambda>nw. nw\<lparr>nw_cancel := None\<rparr>) (gomap_get (mes_watchedServices s) m) else gomap_get (mes_watchedServices s) m)"
proof -
  have "watches_exact (fold cancelWatch ns s) \<and> mes_secretName (fold cancelWatch ns s) = mes_secretName s \<and>
    gomap_get (mes_watchedServices (fold cancelWatch ns s)) m =
       (if m \<in> set ns then map_option (\<lambda>nw. nw\<lparr>nw_cancel := None\<rparr>) (gomap_get (mes_watchedServices s) m) else gomap_get (mes_watchedServices s) m)"
    using assms
  proof (induction ns arbitrary: s)
    case (Cons n ns)
    show ?case using Cons.IH[OF cancelWatch_exact[OF Cons.prems, of n]]
      by (simp add: cancelWatch_get option.map_comp comp_def)
  qed simp
  then show "watches_exact (fold cancelWatch ns s)" "mes_secretName (fold cancelWatch ns s) = mes_secretName s"
    "gomap_get (mes_watchedServices (fold cancelWatch ns s)) m =
       (if m \<in> set ns then map_option (\<lambda>nw. nw\<lparr>nw_cancel := None\<rparr>) (gomap_get (mes_watchedServices s) m) else gomap_get (mes_watchedServices s) m)"
    by blast+
qed

text \<open>While nothing is watched, the client and the prefix may change.\<close>

lemma watches_exact_idle:
  assumes "all_idle s"
  shows "watches_exact s \<longleftrightarrow> contexts_ok s \<and> live s = {}"
  using assms by (auto simp: watches_exact_def wanted_def all_idle_def)

lemma connectToEtcd_idle:
  assumes "watches_exact s" "all_idle s" "connectToEtcd e secret s = (err, s')"
  shows "watches_exact s'" "all_idle s'" "mes_secretName s' = mes_secretName s" "mes_watchedServices s' = mes_watchedServices s"
    "err = None \<longrightarrow> mes_etcdClient s' \<noteq> None"
proof -
  have k: "mes_watchedServices s' = mes_watchedServices s \<and> mes_started s' = mes_started s \<and> mes_cancelled s' = mes_cancelled s \<and>
      (mes_fresh s' = mes_fresh s \<or> mes_fresh s' = mes_fresh s + 1) \<and> mes_secretName s' = mes_secretName s \<and> (err = None \<longrightarrow> mes_etcdClient s' \<noteq> None)"
    using assms(3) by (auto simp: connectToEtcd_def split: sum.splits option.splits)
  then show idle: "all_idle s'" and "mes_secretName s' = mes_secretName s" "mes_watchedServices s' = mes_watchedServices s" "err = None \<longrightarrow> mes_etcdClient s' \<noteq> None"
    using assms(2) by (simp_all add: all_idle_def)
  have "contexts_ok s'" using k assms(1) unfolding watches_exact_def contexts_ok_def by (auto simp: less_Suc_eq)
  moreover have "live s' = {}" using k assms(1,2) by (simp add: watches_exact_idle live_def)
  ultimately show "watches_exact s'" unfolding watches_exact_idle[OF idle] by blast
qed

lemma refresh_fold:
  fixes namespace svc :: string
  assumes "watches_exact s" "distinct ks" "\<forall>n \<in> set ks. idle_at n s"
  defines "s' \<equiv> fold (\<lambda>n s. refreshWatches n (if n = namespace then svc else watched_name s n) s) ks s"
  shows "watches_exact s' \<and> mes_secretName s' = mes_secretName s \<and> mes_etcdClient s' = mes_etcdClient s \<and>
     (\<forall>n. n \<notin> set ks \<longrightarrow> gomap_get (mes_watchedServices s') n = gomap_get (mes_watchedServices s) n) \<and>
     (\<forall>n \<in> set ks. \<exists>nw. gomap_get (mes_watchedServices s') n = Some nw \<and> nw_cancel nw \<noteq> None \<and>
        nw_watchedServiceName nw = (if n = namespace then svc else watched_name s n))"
  using assms(1-3) unfolding s'_def
proof (induction ks arbitrary: s)
  case (Cons k ks)
  let ?t = "refreshWatches k (if k = namespace then svc else watched_name s k) s"
  have t: "watches_exact ?t" using Cons.prems by (intro refreshWatches_exact) simp_all
  have "\<forall>n \<in> set ks. idle_at n ?t" using Cons.prems(2,3) by (auto simp: idle_at_def refreshWatches_get)
  note ih = Cons.IH[OF t _ this]
  have w: "watched_name ?t n = watched_name s n" if "n \<noteq> k" for n using that by (simp add: watched_name_def refreshWatches_get)
  have k: "k \<notin> set ks" using Cons.prems(2) by simp
  let ?f = "fold (\<lambda>n s. refreshWatches n (if n = namespace then svc else watched_name s n) s) ks ?t"
  have r: "watches_exact ?f" "mes_secretName ?f = mes_secretName s" "mes_etcdClient ?f = mes_etcdClient s"
    "\<forall>n. n \<notin> set ks \<longrightarrow> gomap_get (mes_watchedServices ?f) n = gomap_get (mes_watchedServices ?t) n"
    "\<forall>n \<in> set ks. \<exists>nw. gomap_get (mes_watchedServices ?f) n = Some nw \<and> nw_cancel nw \<noteq> None \<and>
        nw_watchedServiceName nw = (if n = namespace then svc else watched_name ?t n)"
    using ih Cons.prems(2) by simp_all
  have "\<exists>nw. gomap_get (mes_watchedServices ?f) n = Some nw \<and> nw_cancel nw \<noteq> None \<and> nw_watchedServiceName nw = (if n = namespace then svc else watched_name s n)"
    if "n \<in> set (k # ks)" for n
  proof (cases "n = k")
    case True
    then show ?thesis using r(4) k by (simp add: refreshWatches_get)
  next
    case False
    then have "n \<in> set ks" using that by simp
    then show ?thesis unfolding w[OF False, symmetric] using r(5) by blast
  qed
  moreover have "gomap_get (mes_watchedServices ?f) n = gomap_get (mes_watchedServices s) n" if "n \<notin> set (k # ks)" for n
    using r(4) that by (simp add: refreshWatches_get)
  ultimately show ?case using r(1-3) by simp
qed simp

text \<open>A stream with a client, on which every watched service has its two watchers and no other watcher runs.\<close>

definition stream_ok :: "ModelMeshEventStream \<Rightarrow> bool" where
  "stream_ok s \<longleftrightarrow> watches_exact s \<and> all_watched s \<and> mes_etcdClient s \<noteq> None \<and> mes_secretName s \<noteq> []"

text \<open>A stream that has watched nothing yet, or has lost its watchers.\<close>

definition stream_idle :: "ModelMeshEventStream \<Rightarrow> bool" where
  "stream_idle s \<longleftrightarrow> watches_exact s \<and> all_idle s"

lemma add_namespace:
  assumes "watches_exact s" "gomap_get (mes_watchedServices s) n = None"
  shows "watches_exact (s\<lparr>mes_watchedServices := gomap_set n zero_watch (mes_watchedServices s)\<rparr>)"
proof -
  let ?t = "s\<lparr>mes_watchedServices := gomap_set n zero_watch (mes_watchedServices s)\<rparr>"
  have get: "gomap_get (mes_watchedServices ?t) m = Some v \<and> nw_cancel v = Some d \<longleftrightarrow>
      gomap_get (mes_watchedServices s) m = Some v \<and> nw_cancel v = Some d" for m v d
    using assms(2) by (cases "m = n") (auto simp: zero_watch_def)
  have "registry_watch ?t = registry_watch s" by (rule registry_watch_cong) simp_all
  moreover have "gomap_wf (mes_watchedServices ?t) = gomap_wf (mes_watchedServices s)" by simp
  moreover have "live ?t = live s" by (simp add: live_def)
  ultimately show ?thesis using assms(1) unfolding watches_exact_def contexts_ok_def wanted_def get by simp
qed

lemma switch_client:
  assumes "watches_exact s0" "gomap_get (mes_watchedServices s0) namespace \<noteq> None" "secret \<noteq> []"
    and s1: "s1 = fold cancelWatch (map fst (mes_watchedServices s0)) s0"
    and c: "connectToEtcd e secret (s1\<lparr>mes_closed := cl\<rparr>) = (err, s3)"
  shows "err \<noteq> None \<longrightarrow> stream_idle s3 \<and> mes_secretName s3 = mes_secretName s0 \<and>
       (\<forall>m. map_option nw_watchedServiceName (gomap_get (mes_watchedServices s3) m) = map_option nw_watchedServiceName (gomap_get (mes_watchedServices s0) m))"
    and "err = None \<longrightarrow> (let s4 = refresh_all namespace svc (s3\<lparr>mes_secretName := secret\<rparr>)
       in stream_ok s4 \<and> mes_secretName s4 = secret \<and> watched_name s4 namespace = svc)"
proof -
  let ?s2 = "s1\<lparr>mes_closed := cl\<rparr>"
  have g: "gomap_get (mes_watchedServices s1) m = map_option (\<lambda>nw. nw\<lparr>nw_cancel := None\<rparr>) (gomap_get (mes_watchedServices s0) m)" for m
    unfolding s1 cancel_all(3)[OF assms(1)] by (cases "gomap_get (mes_watchedServices s0) m") (auto dest!: map_of_SomeD intro: rev_image_eqI)
  have x: "watches_exact t \<longleftrightarrow> watches_exact u"
    if "mes_watchedServices t = mes_watchedServices u" "mes_started t = mes_started u" "mes_cancelled t = mes_cancelled u" "mes_fresh t = mes_fresh u"
      "mes_etcdClient t = mes_etcdClient u" "mes_etcdRootPrefix t = mes_etcdRootPrefix u" "mes_controllerNamespace t = mes_controllerNamespace u" for t u
    unfolding watches_exact_def contexts_ok_def live_def wanted_def registry_watch_cong[OF that(5-7)] that(1-4) ..
  have "watches_exact ?s2" using cancel_all(1)[OF assms(1)] s1 x[of ?s2 s1] by simp
  moreover have "all_idle ?s2" using g by (auto simp: all_idle_def)
  ultimately have d: "watches_exact s3" "all_idle s3" "mes_secretName s3 = mes_secretName s0" "mes_watchedServices s3 = mes_watchedServices s1"
    "err = None \<longrightarrow> mes_etcdClient s3 \<noteq> None"
    using connectToEtcd_idle[OF _ _ c] cancel_all(2)[OF assms(1)] by (auto simp: s1)
  have "map_option nw_watchedServiceName (gomap_get (mes_watchedServices s3) m) = map_option nw_watchedServiceName (gomap_get (mes_watchedServices s0) m)" for m
    by (simp add: d(4) g option.map_comp comp_def)
  then show "err \<noteq> None \<longrightarrow> stream_idle s3 \<and> mes_secretName s3 = mes_secretName s0 \<and>
       (\<forall>m. map_option nw_watchedServiceName (gomap_get (mes_watchedServices s3) m) = map_option nw_watchedServiceName (gomap_get (mes_watchedServices s0) m))"
    using d(1-3) by (simp add: stream_idle_def)
  let ?t = "s3\<lparr>mes_secretName := secret\<rparr>" and ?ks = "map fst (mes_watchedServices s3)"
  have t: "watches_exact ?t" "\<forall>n \<in> set ?ks. idle_at n ?t" "distinct ?ks"
    using d(1,2) x[of ?t s3] by (auto simp: all_idle_def idle_at_def watches_exact_def contexts_ok_def)
  note r = refresh_fold[OF t(1,3,2), of namespace svc]
  have keys: "n \<in> set ?ks \<longleftrightarrow> gomap_get (mes_watchedServices s3) n \<noteq> None" for n by (simp add: map_of_eq_None_iff)
  have "gomap_get (mes_watchedServices s3) namespace \<noteq> None" using assms(2) g[of namespace] d(4) by auto
  then have ns: "namespace \<in> set ?ks" using keys by blast
  show "err = None \<longrightarrow> (let s4 = refresh_all namespace svc ?t in stream_ok s4 \<and> mes_secretName s4 = secret \<and> watched_name s4 namespace = svc)"
  proof
    assume "err = None"
    let ?s4 = "refresh_all namespace svc ?t"
    have s4: "?s4 = fold (\<lambda>n s. refreshWatches n (if n = namespace then svc else watched_name s n) s) ?ks ?t" by (simp add: refresh_all_def)
    have "nw_cancel nw \<noteq> None" if "gomap_get (mes_watchedServices ?s4) n = Some nw" for n nw
      using r that keys[of n] unfolding s4[symmetric] by (cases "n \<in> set ?ks") auto
    then have "all_watched ?s4" unfolding all_watched_def by blast
    moreover have "watched_name ?s4 namespace = svc" using r ns unfolding s4[symmetric] by (auto simp: watched_name_def)
    ultimately show "let s4 = ?s4 in stream_ok s4 \<and> mes_secretName s4 = secret \<and> watched_name s4 namespace = svc"
      using r d(5) \<open>err = None\<close> assms(3) unfolding s4[symmetric] by (simp add: stream_ok_def)
  qed
qed

lemma UpdateWatchedService_prepared:
  assumes "watches_exact s" "svc \<noteq> []" "secret \<noteq> []"
  obtains s0 where "watches_exact s0" "gomap_get (mes_watchedServices s0) n \<noteq> None" "mes_secretName s0 = mes_secretName s" "mes_etcdClient s0 = mes_etcdClient s"
    "\<And>m. gomap_get (mes_watchedServices s0) m =
       (if m = n \<and> gomap_get (mes_watchedServices s) n = None then Some zero_watch else gomap_get (mes_watchedServices s) m)"
    "gomap_get (mes_watchedServices s) n \<noteq> None \<Longrightarrow> s0 = s"
    "UpdateWatchedService e secret svc n s =
     (if secret \<noteq> mes_secretName s0 then
        (let s1 = fold cancelWatch (map fst (mes_watchedServices s0)) s0;
             s2 = s1\<lparr>mes_closed := (case mes_etcdClient s1 of None \<Rightarrow> mes_closed s1 | Some c \<Rightarrow> cl_id c # mes_closed s1)\<rparr>
         in case connectToEtcd e secret s2 of
              (Some err, s3) \<Rightarrow> (Some err, s3)
            | (None, s3) \<Rightarrow> (None, refresh_all n svc (s3\<lparr>mes_secretName := secret\<rparr>)))
      else if svc \<noteq> watched_name s0 n then (None, refreshWatches n svc (cancelWatch n s0)) else (None, s0))"
proof -
  define s0 where "s0 = (if gomap_get (mes_watchedServices s) n = None
    then s\<lparr>mes_watchedServices := gomap_set n zero_watch (mes_watchedServices s)\<rparr> else s)"
  show thesis
  proof (rule that[of s0])
    show "watches_exact s0" using assms(1) add_namespace by (simp add: s0_def)
    show "gomap_get (mes_watchedServices s) n \<noteq> None \<Longrightarrow> s0 = s" unfolding s0_def by (rule if_not_P)
  qed (use assms(2,3) in \<open>auto simp: UpdateWatchedService_def s0_def Let_def\<close>)
qed

lemma UpdateWatchedService_kept:
  assumes "stream_ok s" "svc \<noteq> []" "UpdateWatchedService e (mes_secretName s) svc n s = (err, s')"
  shows "err = None \<and> stream_ok s' \<and> mes_secretName s' = mes_secretName s \<and> watched_name s' n = svc"
proof -
  have x: "watches_exact s" "mes_secretName s \<noteq> []" using assms(1) by (simp_all add: stream_ok_def)
  obtain s0 where x0: "watches_exact s0" and g0: "mes_secretName s0 = mes_secretName s" "mes_etcdClient s0 = mes_etcdClient s"
    "\<And>m. gomap_get (mes_watchedServices s0) m =
       (if m = n \<and> gomap_get (mes_watchedServices s) n = None then Some zero_watch else gomap_get (mes_watchedServices s) m)"
    "gomap_get (mes_watchedServices s) n \<noteq> None \<Longrightarrow> s0 = s"
    and u: "UpdateWatchedService e (mes_secretName s) svc n s =
      (if svc \<noteq> watched_name s0 n then (None, refreshWatches n svc (cancelWatch n s0)) else (None, s0))"
    by (rule UpdateWatchedService_prepared[OF x(1) assms(2) x(2), of n e]) (rule that; simp)
  show ?thesis
  proof (cases "svc = watched_name s0 n")
    case True
    then have "gomap_get (mes_watchedServices s) n \<noteq> None" using assms(2) by (auto simp: g0(3) watched_name_def zero_watch_def split: if_splits)
    then show ?thesis using g0(4) assms(1,3) u True by auto
  next
    case False
    then have s': "err = None" "s' = refreshWatches n svc (cancelWatch n s0)" using assms(3) u by simp_all
    have "watches_exact s'" unfolding s'
      by (rule refreshWatches_exact[OF cancelWatch_exact[OF x0]]) (auto simp: idle_at_def cancelWatch_get)
    moreover have "all_watched s'"
      using assms(1) unfolding s' all_watched_def refreshWatches_get cancelWatch_get g0(3) stream_ok_def by (auto split: if_splits)
    moreover have "mes_etcdClient s' \<noteq> None" "mes_secretName s' = mes_secretName s" "watched_name s' n = svc"
      using assms(1) g0(1,2) unfolding s' by (auto simp: watched_name_def refreshWatches_get stream_ok_def)
    ultimately show ?thesis using s'(1) x(2) by (simp add: stream_ok_def)
  qed
qed

lemma UpdateWatchedService_switched:
  assumes "watches_exact s" "svc \<noteq> []" "secret \<noteq> []" "secret \<noteq> mes_secretName s" "UpdateWatchedService e secret svc n s = (err, s')"
  shows "err = None \<longrightarrow> stream_ok s' \<and> mes_secretName s' = secret \<and> watched_name s' n = svc"
    and "err \<noteq> None \<longrightarrow> stream_idle s' \<and> mes_secretName s' = mes_secretName s \<and>
      (\<forall>m nw. gomap_get (mes_watchedServices s) m = Some nw \<longrightarrow>
         map_option nw_watchedServiceName (gomap_get (mes_watchedServices s') m) = Some (nw_watchedServiceName nw))"
proof -
  obtain s0 where x0: "watches_exact s0" and g0: "gomap_get (mes_watchedServices s0) n \<noteq> None" "mes_secretName s0 = mes_secretName s"
    "\<And>m nw. gomap_get (mes_watchedServices s) m = Some nw \<Longrightarrow> gomap_get (mes_watchedServices s0) m = Some nw"
    and u: "UpdateWatchedService e secret svc n s =
     (let s1 = fold cancelWatch (map fst (mes_watchedServices s0)) s0;
          s2 = s1\<lparr>mes_closed := (case mes_etcdClient s1 of None \<Rightarrow> mes_closed s1 | Some c \<Rightarrow> cl_id c # mes_closed s1)\<rparr>
      in case connectToEtcd e secret s2 of
           (Some err, s3) \<Rightarrow> (Some err, s3)
         | (None, s3) \<Rightarrow> (None, refresh_all n svc (s3\<lparr>mes_secretName := secret\<rparr>)))"
    by (rule UpdateWatchedService_prepared[OF assms(1-3), of n e]) (rule that; use assms(4) in auto)
  define s1 where "s1 = fold cancelWatch (map fst (mes_watchedServices s0)) s0"
  define cl where "cl = (case mes_etcdClient s1 of None \<Rightarrow> mes_closed s1 | Some c \<Rightarrow> cl_id c # mes_closed s1)"
  obtain err' s3 where c: "connectToEtcd e secret (s1\<lparr>mes_closed := cl\<rparr>) = (err', s3)" by fastforce
  have r: "err = err'" "s' = (if err' = None then refresh_all n svc (s3\<lparr>mes_secretName := secret\<rparr>) else s3)"
    using assms(5) u c unfolding Let_def s1_def[symmetric] cl_def[symmetric] by (auto split: option.splits)
  note sw = switch_client(1)[OF x0 g0(1) assms(3) s1_def c] switch_client(2)[OF x0 g0(1) assms(3) s1_def c, of svc]
  show "err = None \<longrightarrow> stream_ok s' \<and> mes_secretName s' = secret \<and> watched_name s' n = svc"
    using sw(2) r by (simp add: Let_def)
  show "err \<noteq> None \<longrightarrow> stream_idle s' \<and> mes_secretName s' = mes_secretName s \<and>
      (\<forall>m nw. gomap_get (mes_watchedServices s) m = Some nw \<longrightarrow>
         map_option nw_watchedServiceName (gomap_get (mes_watchedServices s') m) = Some (nw_watchedServiceName nw))"
  proof (intro impI conjI allI)
    assume ne: "err \<noteq> None"
    then have s': "s' = s3" "err' \<noteq> None" using r by auto
    then show "stream_idle s'" "mes_secretName s' = mes_secretName s" using sw(1) g0(2) by simp_all
    fix m nw
    assume "gomap_get (mes_watchedServices s) m = Some nw"
    from g0(3)[OF this] show "map_option nw_watchedServiceName (gomap_get (mes_watchedServices s') m) = Some (nw_watchedServiceName nw)"
      using sw(1)[rule_format, OF s'(2)] s'(1) by (simp del: map_option_eq_Some)
  qed
qed

text \<open>The states in which an update leaves the watchers right: they are, or nothing has been watched yet.\<close>

definition stream_ready :: "ModelMeshEventStream \<Rightarrow> bool" where
  "stream_ready s \<longleftrightarrow> stream_ok s \<or> stream_idle s \<and> mes_secretName s = []"

lemma stream_ready_exact: "stream_ready s \<Longrightarrow> watches_exact s"
  by (auto simp: stream_ready_def stream_ok_def stream_idle_def)

lemma UpdateWatchedService_ok:
  assumes "stream_ready s" "UpdateWatchedService e secret svc n s = (None, s')"
  shows "stream_ok s' \<and> mes_secretName s' = secret \<and> watched_name s' n = svc"
proof -
  have ne: "svc \<noteq> []" "secret \<noteq> []" using assms(2) by (auto simp: UpdateWatchedService_def split: if_splits)
  show ?thesis
  proof (cases "secret = mes_secretName s")
    case True
    then have "stream_ok s" using assms(1) ne by (auto simp: stream_ready_def)
    then show ?thesis using UpdateWatchedService_kept[of s svc e n None s'] assms(2) ne True by simp
  next
    case False
    then show ?thesis using UpdateWatchedService_switched(1)[OF stream_ready_exact[OF assms(1)] ne _ assms(2)] by simp
  qed
qed

text \<open>
  C36. Updating a watched service. Started from a stream whose watchers are right (or that has watched nothing yet), a successful update leaves
  exactly two watchers running for every watched service, on the current client, and no other; the
  namespace is among them with the given service. A failed change of the secret stops all watchers and keeps the old name of the secret,
  so that going back to the old secret does not start them again.
\<close>

theorem UpdateWatchedService_watches:
  assumes "stream_ready s" and "UpdateWatchedService e secret svc n s = (err, s')"
  shows "(err = None \<longrightarrow> stream_ok s' \<and> mes_secretName s' = secret \<and> watched_name s' n = svc) \<and>
     (err \<noteq> None \<and> svc \<noteq> [] \<and> secret \<noteq> [] \<longrightarrow> stream_idle s' \<and> mes_secretName s' = mes_secretName s \<and>
        (\<forall>e' m nw. gomap_get (mes_watchedServices s) m = Some nw \<and> nw_watchedServiceName nw \<noteq> [] \<and> mes_secretName s \<noteq> [] \<longrightarrow>
           UpdateWatchedService e' (mes_secretName s) (nw_watchedServiceName nw) m s' = (None, s')))"
proof (intro conjI impI)
  assume "err = None"
  then show "stream_ok s'" "mes_secretName s' = secret" "watched_name s' n = svc" using UpdateWatchedService_ok[of s e secret svc n s'] assms by simp_all
next
  assume f: "err \<noteq> None \<and> svc \<noteq> [] \<and> secret \<noteq> []"
  have "secret \<noteq> mes_secretName s"
  proof
    assume "secret = mes_secretName s"
    moreover from this have "stream_ok s" using assms(1) f by (auto simp: stream_ready_def)
    ultimately show False using UpdateWatchedService_kept[of s svc e n err s'] assms(2) f by simp
  qed
  from UpdateWatchedService_switched(2)[OF stream_ready_exact[OF assms(1)] _ _ this assms(2)] f
  have i: "stream_idle s'" "mes_secretName s' = mes_secretName s"
    "\<And>m nw. gomap_get (mes_watchedServices s) m = Some nw \<Longrightarrow>
       map_option nw_watchedServiceName (gomap_get (mes_watchedServices s') m) = Some (nw_watchedServiceName nw)" by blast+
  then show "stream_idle s'" "mes_secretName s' = mes_secretName s" by blast+
  show "\<forall>e' m nw. gomap_get (mes_watchedServices s) m = Some nw \<and> nw_watchedServiceName nw \<noteq> [] \<and> mes_secretName s \<noteq> [] \<longrightarrow>
           UpdateWatchedService e' (mes_secretName s) (nw_watchedServiceName nw) m s' = (None, s')"
    using i(2,3) by (force simp: UpdateWatchedService_def watched_name_def Let_def)
qed

lemma RemoveWatchedService_ok:
  assumes "stream_ok s"
  shows "stream_ok (RemoveWatchedService svc n s)"
proof (cases "\<exists>nw. gomap_get (mes_watchedServices s) n = Some nw \<and> nw_watchedServiceName nw = svc")
  case True
  then obtain nw where nw: "gomap_get (mes_watchedServices s) n = Some nw" "nw_watchedServiceName nw = svc" by blast
  then obtain c where c: "nw_cancel nw = Some c" using assms by (auto simp: stream_ok_def all_watched_def)
  have r: "RemoveWatchedService svc n s = s\<lparr>mes_watchedServices := gomap_delete n (mes_watchedServices s), mes_cancelled := c # mes_cancelled s\<rparr>"
    using nw c by (simp add: RemoveWatchedService_def)
  have x: "watches_exact s" "gomap_wf (mes_watchedServices s)" using assms by (auto simp: stream_ok_def watches_exact_def contexts_ok_def)
  have "watches_exact (RemoveWatchedService svc n s)" by (rule stop_watch[OF x(1) nw(1) c]) (use x(2) in \<open>auto simp: r\<close>)
  then show ?thesis using assms by (auto simp: stream_ok_def all_watched_def r)
next
  case False
  then have "RemoveWatchedService svc n s = s" by (auto simp: RemoveWatchedService_def split: option.splits)
  then show ?thesis using assms by simp
qed

lemma RemoveWatchedService_ready:
  assumes "stream_ready s"
  shows "stream_ready (RemoveWatchedService svc n s)"
proof (cases "stream_ok s")
  case True
  then show ?thesis using RemoveWatchedService_ok by (simp add: stream_ready_def)
next
  case False
  let ?t = "RemoveWatchedService svc n s"
  have i: "stream_idle s" "mes_secretName s = []" using assms False by (auto simp: stream_ready_def)
  have same: "mes_started ?t = mes_started s" "mes_cancelled ?t = mes_cancelled s" "mes_fresh ?t = mes_fresh s" "mes_secretName ?t = mes_secretName s"
    using i(1) by (auto simp: RemoveWatchedService_def stream_idle_def all_idle_def split: option.splits)
  have sub: "gomap_get (mes_watchedServices s) m = Some nw" if "gomap_get (mes_watchedServices ?t) m = Some nw" for m nw
    using that by (auto simp: RemoveWatchedService_def delete_conv split: option.splits if_splits)
  have idle: "nw_cancel nw = None" if "gomap_get (mes_watchedServices s) m = Some nw \<or> gomap_get (mes_watchedServices ?t) m = Some nw" for m nw
    using i(1) that sub by (auto simp: stream_idle_def all_idle_def)
  have "wanted s = {}" "wanted ?t = {}" unfolding wanted_def using idle by fastforce+
  moreover have "live ?t = live s" by (simp add: live_def same)
  moreover have "gomap_wf (mes_watchedServices ?t)" using i(1) by (auto simp: RemoveWatchedService_def stream_idle_def watches_exact_def contexts_ok_def distinct_delete split: option.splits)
  ultimately have "watches_exact ?t" using i(1) idle
    unfolding watches_exact_def contexts_ok_def same stream_idle_def by fastforce
  then show ?thesis using i(2) idle unfolding stream_ready_def stream_idle_def all_idle_def same by blast
qed

text \<open>
  What the Service controller relies on: after any removals, a successful update puts the watchers right. A state that is right can
  be updated again.
\<close>

locale watch_stream =
  fixes ready :: "'s \<Rightarrow> bool" and exact :: "'s \<Rightarrow> bool" and name_of :: "'s \<Rightarrow> string \<Rightarrow> string"
    and remove :: "string \<Rightarrow> string \<Rightarrow> 's \<Rightarrow> 's" and update :: "'e \<Rightarrow> string \<Rightarrow> string \<Rightarrow> string \<Rightarrow> 's \<Rightarrow> 'err option \<times> 's"
  assumes exact_ready: "exact s \<Longrightarrow> ready s"
    and remove_ready: "ready s \<Longrightarrow> ready (remove svc n s)"
    and update_exact: "ready s \<Longrightarrow> update e secret svc n s = (None, s') \<Longrightarrow> exact s' \<and> name_of s' n = svc"
begin

lemma removals_ready: "ready s \<Longrightarrow> ready (fold (\<lambda>(svc, n). remove svc n) rs s)"
  by (induction rs arbitrary: s) (auto intro: remove_ready)

lemma update_after_removals:
  assumes "ready s" "update e secret svc n (fold (\<lambda>(svc, n). remove svc n) rs s) = (None, s')"
  shows "exact s'" "ready s'" "name_of s' n = svc"
  using update_exact[OF removals_ready[OF assms(1)] assms(2)] exact_ready by auto

end

interpretation es: watch_stream stream_ready stream_ok watched_name RemoveWatchedService UpdateWatchedService
proof
  show "stream_ok s \<Longrightarrow> stream_ready s" for s by (simp add: stream_ready_def)
qed (use RemoveWatchedService_ready UpdateWatchedService_ok in blast)+

text \<open>
  The ranges watched for a namespace lie under the root prefix that the etcd secret of this namespace gives to its model-mesh, and under
  the prefix that the Deployment sets for its registries.
\<close>

lemma watched_range_of_secret:
  assumes "mes_etcdRootPrefix s = ec_RootPrefix cfg" "n \<noteq> mes_controllerNamespace s"
  shows "sw_prefix (registry_watch s n svc c models) =
     ec_RootPrefix (fst (EtcdSecret_addData n cfg secret)) @ ''/'' @ ModelMeshEtcdPrefix @ ''/'' @ svc @ ''/'' @
       (if models then ModelRegistryPrefix else VModelRegistryPrefix) @ ''/''"
  using assms by (simp add: registry_watch_def servicePrefix_def EtcdSecret_addData_def Let_def)

section \<open>Witnesses of the stream\<close>

definition sample_etcd :: etcd_env where
  "sample_etcd = \<lparr>ee_X509KeyPair = (\<lambda>_ _. None), ee_New = (\<lambda>_. None),
     ee_Unmarshal = (\<lambda>t. Inr \<lparr>ec_Endpoints = ''https://e:2379'', ec_Username = [], ec_Password = [], ec_RootPrefix = t, ec_Certificate = [], ec_CertificateFile = [],
       ec_ClientKey = [], ec_ClientKeyFile = [], ec_ClientCertificate = [], ec_ClientCertificateFile = [], ec_OverrideAuthority = []\<rparr>),
     ee_GetSecret = (\<lambda>n. if nn_Name n = ''etcd'' then Inr \<lparr>do_Meta = zero_Meta, do_Data = [(EtcdSecretKey, ''root'')]\<rparr> else Inl NotFound)\<rparr>"

definition watching :: ModelMeshEventStream where
  "watching = snd (UpdateWatchedService sample_etcd ''etcd'' ''mesh'' ''user'' (NewModelEventStream ''ctl''))"

lemma new_stream_ready: "stream_ready (NewModelEventStream n)"
  by (auto simp: stream_ready_def stream_idle_def watches_exact_def contexts_ok_def live_def wanted_def all_idle_def NewModelEventStream_def zero_watch_def)

theorem UpdateWatchedService_watches_witness:
  "stream_ok watching \<and> ''root/mm_ns/user/mm/mesh/vmodels/'' \<in> set (map sw_prefix (mes_started watching)) \<and>
   (let lost = snd (UpdateWatchedService sample_etcd ''missing'' ''mesh'' ''user'' watching)
    in stream_idle lost \<and> UpdateWatchedService sample_etcd ''etcd'' ''mesh'' ''user'' lost = (None, lost))"
proof -
  have a: "fst (UpdateWatchedService sample_etcd ''etcd'' ''mesh'' ''user'' (NewModelEventStream ''ctl'')) = None" by code_simp
  then have "UpdateWatchedService sample_etcd ''etcd'' ''mesh'' ''user'' (NewModelEventStream ''ctl'') = (None, watching)" by (simp add: watching_def prod_eq_iff)
  from UpdateWatchedService_watches[OF new_stream_ready this] have ok: "stream_ok watching" "mes_secretName watching = ''etcd''" "watched_name watching ''user'' = ''mesh''"
    by auto
  then obtain nw where nw: "gomap_get (mes_watchedServices watching) ''user'' = Some nw" "nw_watchedServiceName nw = ''mesh''"
    by (auto simp: watched_name_def split: option.splits)
  define lost where "lost = snd (UpdateWatchedService sample_etcd ''missing'' ''mesh'' ''user'' watching)"
  have "fst (UpdateWatchedService sample_etcd ''missing'' ''mesh'' ''user'' watching) = Some (SecretUnavailable NotFound)" unfolding watching_def by code_simp
  then have "UpdateWatchedService sample_etcd ''missing'' ''mesh'' ''user'' watching = (Some (SecretUnavailable NotFound), lost)" by (simp add: lost_def prod_eq_iff)
  from UpdateWatchedService_watches[OF _ this] have "stream_idle lost \<and> UpdateWatchedService sample_etcd ''etcd'' ''mesh'' ''user'' lost = (None, lost)"
    using ok nw by (simp add: stream_ready_def, metis list.distinct(1))
  moreover have "''root/mm_ns/user/mm/mesh/vmodels/'' \<in> set (map sw_prefix (mes_started watching))" unfolding watching_def by code_simp
  ultimately show ?thesis using ok(1) unfolding lost_def Let_def by blast
qed

end
