(* ===== verification/Service_Controller.thy ===== *)
theory Service_Controller
  imports Runtime_Scaling Mesh_Service Event_Stream
begin

text \<open>
  The controller of the model-mesh Service (controllers/service\_controller.go): one Service for each enabled namespace, the
  \<open>MMService\<close> behind it (theory \<open>Mesh_Service\<close>), the watch of its model events (theory \<open>Event_Stream\<close>) and its
  ServiceMonitor. The API server is a record of answers; the calls that change objects are returned in their order.
\<close>

section \<open>Objects\<close>

text \<open>Owner references are kept as the names that \<open>controllerutil.SetControllerReference\<close> gives them.\<close>

record kube_service =
  ks_Meta :: ObjectMeta
  ks_Owners :: "string list"
  ks_Spec :: ServiceSpec

record LabelSelector =
  lsl_MatchLabels :: "(string, string) gomap"
  lsl_MatchExpressions :: "string list"

record NamespaceSelector =
  nsl_Any :: bool
  nsl_MatchNames :: "string list"

text \<open>Of an endpoint's TLS configuration only \<open>InsecureSkipVerify\<close> is kept; \<open>mep_rest\<close> stands for the fields the controller leaves out.\<close>

record MonitorEndpoint =
  mep_Interval :: string
  mep_Port :: string
  mep_Scheme :: string
  mep_InsecureSkipVerify :: "bool option"
  mep_rest :: string

record ServiceMonitor =
  sm_Meta :: ObjectMeta
  sm_Owners :: "string list"
  sm_Selector :: LabelSelector
  sm_NamespaceSelector :: NamespaceSelector
  sm_Endpoints :: "MonitorEndpoint list"
  sm_rest :: string

datatype service_call =
    CreateService kube_service
  | UpdateService kube_service
  | DeleteService kube_service
  | CreateMonitor ServiceMonitor
  | UpdateMonitor ServiceMonitor
  | DeleteMonitor ServiceMonitor

datatype service_error =
    MMServiceUninitialized
  | ServiceApi api_error
  | ServiceOwner string
  | ServiceCreate api_error
  | ServiceConnect string
  | ServiceStream stream_error
  | DeploymentGet api_error
  | MonitorGet api_error
  | MonitorDelete api_error
  | MonitorOwner string
  | MonitorWrite api_error

text \<open>
  The namespace is read twice in a run of the handler, the second time by \<open>reconcileService\<close> (\<open>sa_GetNamespaceAgain\<close>). A listing of
  Services holds those of a namespace that have the label \<open>modelmesh-service\<close>.
\<close>

record service_api =
  sa_GetNamespace :: "string \<Rightarrow> api_error + Namespace"
  sa_GetNamespaceAgain :: "string \<Rightarrow> api_error + Namespace"
  sa_ListNamespaces :: "api_error + Namespace list"
  sa_GetDeployment :: "NamespacedName \<Rightarrow> api_error + ObjectMeta"
  sa_ListServices :: "string \<Rightarrow> api_error + kube_service list"
  sa_Create :: "kube_service \<Rightarrow> api_error option"
  sa_Update :: "kube_service \<Rightarrow> api_error option"
  sa_Delete :: "kube_service \<Rightarrow> api_error option"
  sa_SetControllerReference :: "ObjectMeta \<Rightarrow> ObjectMeta \<Rightarrow> string list \<Rightarrow> string + string list"
  sa_GetMonitor :: "NamespacedName \<Rightarrow> api_error + ServiceMonitor"
  sa_CreateMonitor :: "ServiceMonitor \<Rightarrow> api_error option"
  sa_UpdateMonitor :: "ServiceMonitor \<Rightarrow> api_error option"
  sa_DeleteMonitor :: "ServiceMonitor \<Rightarrow> api_error option"
  sa_GetSecret :: "NamespacedName \<Rightarrow> api_error + data_object"
  sa_X509KeyPair :: "string \<Rightarrow> string \<Rightarrow> string option"
  sa_AppendCertsFromPEM :: "string \<Rightarrow> bool"
  sa_Dial :: "string \<Rightarrow> string option \<Rightarrow> string + nat"
  sa_Close :: "nat \<Rightarrow> bool"
  sa_etcd :: etcd_env

definition commonLabelValue :: string where
  "commonLabelValue = ''modelmesh-controller''"

definition serviceMonitorName :: string where
  "serviceMonitorName = ''modelmesh-metrics-monitor''"

section \<open>The services of the namespaces\<close>

type_synonym MMServiceMap = "(string, MMService) gomap"

definition MMServiceMap_Get :: "string \<Rightarrow> MMServiceMap \<Rightarrow> MMService option" where
  "MMServiceMap_Get namespace m = gomap_get m namespace"

definition GetOrCreate :: "string \<Rightarrow> MMServiceMap \<Rightarrow> (MMService \<times> bool) \<times> MMServiceMap" where
  "GetOrCreate namespace m =
     (case MMServiceMap_Get namespace m of
        Some mms \<Rightarrow> ((mms, False), m)
      | None \<Rightarrow> ((NewMMService namespace, True), gomap_set namespace (NewMMService namespace) m))"

definition MMServiceMap_Delete :: "string \<Rightarrow> MMServiceMap \<Rightarrow> MMServiceMap" where
  "MMServiceMap_Delete namespace m = gomap_delete namespace m"

record ServiceReconciler =
  svr_ConfigMapName :: NamespacedName
  svr_ControllerDeployment :: NamespacedName
  svr_ClusterScope :: bool
  svr_MMServices :: MMServiceMap
  svr_ModelEventStream :: ModelMeshEventStream
  svr_ServiceMonitorCRDExists :: bool

text \<open>The configuration is the snapshot of the provider, which is also what the third result of the code holds.\<close>

definition getMMService :: "string \<Rightarrow> Config \<Rightarrow> bool \<Rightarrow> ServiceReconciler \<Rightarrow> (MMService \<times> bool) \<times> ServiceReconciler" where
  "getMMService namespace cfg newConfig r =
     (case GetOrCreate namespace (svr_MMServices r) of
        ((mms, newSvc), m) \<Rightarrow>
          if newSvc \<or> newConfig then
            (case UpdateConfig cfg mms of
               (changed, mms') \<Rightarrow> ((mms', changed), r\<lparr>svr_MMServices := gomap_set namespace mms' m\<rparr>))
          else ((mms, False), r\<lparr>svr_MMServices := m\<rparr>))"

section \<open>TLS\<close>

definition TLSSecretCertKey :: string where
  "TLSSecretCertKey = ''tls.crt''"

definition TLSSecretKeyKey :: string where
  "TLSSecretKeyKey = ''tls.key''"

text \<open>The error, if any; without one the lookup has given the configuration of the key pair and of its certificate as a root.\<close>

definition tlsConfigFromSecret :: "service_api \<Rightarrow> ServiceReconciler \<Rightarrow> string \<Rightarrow> string option" where
  "tlsConfigFromSecret api r secretName =
     (if secretName = [] then None
      else (case sa_GetSecret api \<lparr>nn_Namespace = nn_Namespace (svr_ControllerDeployment r), nn_Name = secretName\<rparr> of
              Inl _ \<Rightarrow> Some ''unable to access TLS secret''
            | Inr tlsSecret \<Rightarrow>
                (case (gomap_get (do_Data tlsSecret) TLSSecretCertKey, gomap_get (do_Data tlsSecret) TLSSecretKeyKey) of
                   (Some cert, Some key) \<Rightarrow>
                     if sa_X509KeyPair api cert key \<noteq> None then Some ''could not load client key pair''
                     else if \<not> sa_AppendCertsFromPEM api cert then Some ''failed to append ca certs''
                     else None
                 | _ \<Rightarrow> Some ''TLS secret missing keys'')))"

definition mesh_env_of :: "service_api \<Rightarrow> ServiceReconciler \<Rightarrow> mesh_env" where
  "mesh_env_of api r = \<lparr>me_tlsError = tlsConfigFromSecret api r, me_Dial = sa_Dial api, me_Close = sa_Close api\<rparr>"

section \<open>The Service\<close>

text \<open>Equality of maps.\<close>

definition map_DeepEqual :: "(string, string) gomap \<Rightarrow> (string, string) gomap \<Rightarrow> bool" where
  "map_DeepEqual a b = list_all (\<lambda>k. gomap_get a k = gomap_get b k) (map fst a @ map fst b)"

text \<open>
  The handler compares \<open>s.Spec\<close>, a struct, with \<open>target\<close>, a pointer to one. Values of different types are never deeply equal.
\<close>

definition spec_DeepEqual :: "ServiceSpec \<Rightarrow> ServiceSpec \<Rightarrow> bool" where
  "spec_DeepEqual spec target = False"

definition labelMap :: "string \<Rightarrow> (string, string) gomap" where
  "labelMap serviceName =
     [(''modelmesh-service'', serviceName), (''app.kubernetes.io/instance'', commonLabelValue),
      (''app.kubernetes.io/managed-by'', commonLabelValue), (''app.kubernetes.io/name'', commonLabelValue)]"

text \<open>Labelled Services with another name are deleted and no longer watched; the last one with the name is kept.\<close>

fun delete_others ::
  "service_api \<Rightarrow> string \<Rightarrow> kube_service list \<Rightarrow> kube_service option \<Rightarrow> ModelMeshEventStream \<Rightarrow>
     (api_error option \<times> kube_service option \<times> ModelMeshEventStream) \<times> service_call list" where
  "delete_others api serviceName [] s st = ((None, s, st), [])"
| "delete_others api serviceName (ss # sl) s st =
     (if om_Name (ks_Meta ss) = serviceName then delete_others api serviceName sl (Some ss) st
      else (case sa_Delete api ss of
              Some err \<Rightarrow> ((Some err, s, st), [DeleteService ss])
            | None \<Rightarrow>
                (case delete_others api serviceName sl s (RemoveWatchedService (om_Name (ks_Meta ss)) (om_Namespace (ks_Meta ss)) st) of
                   (res, calls) \<Rightarrow> (res, DeleteService ss # calls))))"

text \<open>The result of \<open>reconcileService\<close>: the Service, the error, and whether to try again.\<close>

type_synonym service_result = "kube_service option \<times> service_error option \<times> bool"

definition create_service ::
  "service_api \<Rightarrow> mesh_env \<Rightarrow> string \<Rightarrow> ServiceSpec \<Rightarrow> string \<Rightarrow> ObjectMeta \<Rightarrow> MMService \<Rightarrow> service_result \<times> MMService \<times> service_call list" where
  "create_service api e serviceName target namespace owner mms =
     (let mms' = Disconnect e mms;
          s = \<lparr>ks_Meta = zero_Meta\<lparr>om_Name := serviceName, om_Namespace := namespace, om_Labels := labelMap serviceName\<rparr>, ks_Owners = [], ks_Spec = target\<rparr>
      in case sa_SetControllerReference api owner (ks_Meta s) (ks_Owners s) of
           Inl err \<Rightarrow> ((None, Some (ServiceOwner err), False), mms', [])
         | Inr owners \<Rightarrow>
             (let s' = s\<lparr>ks_Owners := owners\<rparr>
              in case sa_Create api s' of
                   Some err \<Rightarrow> ((None, Some (ServiceCreate err), False), mms', [CreateService s'])
                 | None \<Rightarrow> ((Some s', None, False), mms', [CreateService s'])))"

text \<open>The error of the update is reported before the one of the connection, which is tried in either case.\<close>

definition update_service ::
  "service_api \<Rightarrow> mesh_env \<Rightarrow> string \<Rightarrow> ServiceSpec \<Rightarrow> kube_service \<Rightarrow> MMService \<Rightarrow> service_result \<times> MMService \<times> service_call list" where
  "update_service api e serviceName target s mms =
     (let origClusterIp = svs_ClusterIP (ks_Spec s);
          s1 = (if origClusterIp \<noteq> ''None'' then s\<lparr>ks_Spec := (ks_Spec s)\<lparr>svs_ClusterIP := []\<rparr>\<rparr> else s);
          differs = (\<not> spec_DeepEqual (ks_Spec s1) target \<or> \<not> map_DeepEqual (om_Labels (ks_Meta s1)) (labelMap serviceName))
      in if differs \<and> svs_ClusterIP (ks_Spec s1) \<noteq> svs_ClusterIP target
         then ((None, map_option ServiceApi (sa_Delete api s1), True), mms, [DeleteService s1])
         else (let s2 = (if differs
                         then s1\<lparr>ks_Meta := (ks_Meta s1)\<lparr>om_Labels := labelMap serviceName\<rparr>, ks_Spec := target\<lparr>svs_ClusterIP := origClusterIp\<rparr>\<rparr>
                         else s1);
                   err = (if differs then map_option ServiceApi (sa_Update api s2) else None);
                   calls = (if differs then [UpdateService s2] else [])
               in case ConnectIfNeeded e mms of
                    (err2, mms') \<Rightarrow>
                      ((Some s2, case err of Some _ \<Rightarrow> err | None \<Rightarrow> map_option ServiceConnect err2, False), mms', calls)))"

text \<open>
  \<open>None\<close> is the panic of setting a nil owner: the handler passes none when it has found the namespace disabled, and the second
  look at the namespace may find it enabled.
\<close>

definition reconcileService ::
  "service_api \<Rightarrow> ServiceReconciler \<Rightarrow> MMService \<Rightarrow> string \<Rightarrow> ObjectMeta option \<Rightarrow>
     (service_result \<times> MMService \<times> ModelMeshEventStream \<times> service_call list) option" where
  "reconcileService api r mms namespace owner =
     (let st = svr_ModelEventStream r
      in case GetNameAndSpec mms of
           (serviceName, None) \<Rightarrow> Some ((None, Some MMServiceUninitialized, False), mms, st, [])
         | (serviceName, Some target) \<Rightarrow>
             if serviceName = [] then Some ((None, Some MMServiceUninitialized, False), mms, st, [])
             else (let body =
                     (case sa_ListServices api namespace of
                        Inl err \<Rightarrow> Some ((None, Some (ServiceApi err), False), mms, st, [])
                      | Inr sl \<Rightarrow>
                          (case delete_others api serviceName sl None st of
                             ((Some err, _, st'), calls) \<Rightarrow> Some ((None, Some (ServiceApi err), False), mms, st', calls)
                           | ((None, None, st'), calls) \<Rightarrow>
                               (case owner of
                                  None \<Rightarrow> None
                                | Some ow \<Rightarrow>
                                    (case create_service api (mesh_env_of api r) serviceName target namespace ow mms of
                                       (res, mms', calls') \<Rightarrow> Some (res, mms', st', calls @ calls')))
                           | ((None, Some s, st'), calls) \<Rightarrow>
                               (case update_service api (mesh_env_of api r) serviceName target s mms of
                                  (res, mms', calls') \<Rightarrow> Some (res, mms', st', calls @ calls'))))
                   in if svr_ClusterScope r then
                        (case sa_GetNamespaceAgain api namespace of
                           Inl err \<Rightarrow> Some ((None, Some (ServiceApi err), False), mms, st, [])
                         | Inr n \<Rightarrow>
                             if \<not> modelMeshEnabled n (nn_Namespace (svr_ControllerDeployment r))
                             then Some ((None, None, False), mms, RemoveWatchedService serviceName namespace st, [])
                             else body)
                      else body))"

section \<open>The ServiceMonitor\<close>

definition zero_ServiceMonitor :: ServiceMonitor where
  "zero_ServiceMonitor = \<lparr>sm_Meta = zero_Meta, sm_Owners = [], sm_Selector = \<lparr>lsl_MatchLabels = [], lsl_MatchExpressions = []\<rparr>,
     sm_NamespaceSelector = \<lparr>nsl_Any = False, nsl_MatchNames = []\<rparr>, sm_Endpoints = [], sm_rest = []\<rparr>"

definition selector_DeepEqual :: "LabelSelector \<Rightarrow> LabelSelector \<Rightarrow> bool" where
  "selector_DeepEqual a b \<longleftrightarrow> map_DeepEqual (lsl_MatchLabels a) (lsl_MatchLabels b) \<and> lsl_MatchExpressions a = lsl_MatchExpressions b"

definition monitor_endpoint :: "PrometheusConfig \<Rightarrow> MonitorEndpoint" where
  "monitor_endpoint metrics = \<lparr>mep_Interval = ''30s'', mep_Port = ''prometheus'', mep_Scheme = pm_Scheme metrics,
     mep_InsecureSkipVerify = Some True, mep_rest = []\<rparr>"

text \<open>Setting the wanted fields; the flag says that the ServiceMonitor is to be written. It starts as the equality of the owner references.\<close>

definition monitor_target :: "PrometheusConfig \<Rightarrow> kube_service \<Rightarrow> bool \<Rightarrow> ServiceMonitor \<Rightarrow> bool \<times> ServiceMonitor" where
  "monitor_target metrics owner changed0 sm =
     (let sel = \<lparr>lsl_MatchLabels = [(''modelmesh-service'', om_Name (ks_Meta owner))], lsl_MatchExpressions = []\<rparr>;
          nssel = \<lparr>nsl_Any = False, nsl_MatchNames = [om_Namespace (sm_Meta sm)]\<rparr>;
          labels = \<not> map_DeepEqual (om_Labels (sm_Meta sm)) (om_Labels (ks_Meta owner));
          sm1 = (if labels then sm\<lparr>sm_Meta := (sm_Meta sm)\<lparr>om_Labels := om_Labels (ks_Meta owner)\<rparr>\<rparr> else sm);
          selector = \<not> selector_DeepEqual (sm_Selector sm1) sel;
          sm2 = (if selector then sm1\<lparr>sm_Selector := sel\<rparr> else sm1);
          nsselector = (sm_NamespaceSelector sm2 \<noteq> nssel);
          sm3 = (if nsselector then sm2\<lparr>sm_NamespaceSelector := nssel\<rparr> else sm2);
          endpoints = (sm_Endpoints sm3 \<noteq> [monitor_endpoint metrics]);
          sm4 = (if endpoints then sm3\<lparr>sm_Endpoints := [monitor_endpoint metrics]\<rparr> else sm3)
      in (changed0 \<or> labels \<or> selector \<or> nsselector \<or> endpoints, sm4))"

definition write_monitor :: "service_api \<Rightarrow> bool \<Rightarrow> ServiceMonitor \<Rightarrow> (service_error option \<times> bool) \<times> service_call list" where
  "write_monitor api exists sm =
     ((case (if exists then sa_UpdateMonitor api sm else sa_CreateMonitor api sm) of
         None \<Rightarrow> (None, False)
       | Some Conflict \<Rightarrow> (None, True)
       | Some err \<Rightarrow> (Some (MonitorWrite err), False)),
      [if exists then UpdateMonitor sm else CreateMonitor sm])"

definition reconcileServiceMonitor ::
  "service_api \<Rightarrow> PrometheusConfig \<Rightarrow> kube_service \<Rightarrow> (service_error option \<times> bool) \<times> service_call list" where
  "reconcileServiceMonitor api metrics owner =
     (let namespace = om_Namespace (ks_Meta owner);
          new = zero_ServiceMonitor\<lparr>sm_Meta := zero_Meta\<lparr>om_Name := serviceMonitorName, om_Namespace := namespace\<rparr>\<rparr>;
          continue = (\<lambda>exists sm.
            if pm_DisablePrometheusOperatorSupport metrics \<or> \<not> pm_Enabled metrics then
              (if exists
               then (case sa_DeleteMonitor api sm of
                       Some err \<Rightarrow> ((Some (MonitorDelete err), False), [DeleteMonitor sm])
                     | None \<Rightarrow> ((None, False), [DeleteMonitor sm]))
               else ((None, False), []))
            else (case sa_SetControllerReference api (ks_Meta owner) (sm_Meta sm) (sm_Owners sm) of
                    Inl err \<Rightarrow> ((Some (MonitorOwner err), False), [])
                  | Inr owners \<Rightarrow>
                      (case monitor_target metrics owner (sm_Owners sm = owners) (sm\<lparr>sm_Owners := owners\<rparr>) of
                         (changed, sm') \<Rightarrow> if changed then write_monitor api exists sm' else ((None, False), []))))
      in case sa_GetMonitor api \<lparr>nn_Namespace = namespace, nn_Name = serviceMonitorName\<rparr> of
           Inl NotFound \<Rightarrow> continue False new
         | Inl err \<Rightarrow> ((Some (MonitorGet err), False), [])
         | Inr sm \<Rightarrow> continue True sm)"

section \<open>The handler\<close>

fun delete_services :: "service_api \<Rightarrow> kube_service list \<Rightarrow> api_error option \<times> service_call list" where
  "delete_services api [] = (None, [])"
| "delete_services api (s # sl) =
     (case sa_Delete api s of
        Some err \<Rightarrow> (Some err, [DeleteService s])
      | None \<Rightarrow> (case delete_services api sl of (err, calls) \<Rightarrow> (err, DeleteService s # calls)))"

type_synonym service_outcome = "((service_error option \<times> ctrl_result) \<times> service_call list \<times> ServiceReconciler) option"

text \<open>A namespace that is not enabled: its Services, its \<open>MMService\<close> and its watch go.\<close>

definition disabled_namespace :: "service_api \<Rightarrow> string \<Rightarrow> ServiceReconciler \<Rightarrow> service_outcome" where
  "disabled_namespace api namespace r =
     (case sa_ListServices api namespace of
        Inl err \<Rightarrow> Some ((Some (ServiceApi err), Done), [], r)
      | Inr sl \<Rightarrow>
          (case delete_services api sl of
             (Some err, calls) \<Rightarrow> Some ((Some (ServiceApi err), Done), calls, r)
           | (None, calls) \<Rightarrow>
               (case MMServiceMap_Get namespace (svr_MMServices r) of
                  None \<Rightarrow> Some ((None, Done), calls, r)
                | Some mms \<Rightarrow>
                    (let mms' = Disconnect (mesh_env_of api r) mms;
                         r' = r\<lparr>svr_MMServices := MMServiceMap_Delete namespace (svr_MMServices r)\<rparr>
                     in case reconcileService api r' mms' namespace None of
                          None \<Rightarrow> None
                        | Some ((_, err, _), _, st, calls') \<Rightarrow>
                            Some ((err, Done), calls @ calls', r'\<lparr>svr_ModelEventStream := st\<rparr>)))))"

text \<open>A namespace with its owner; \<open>env\<close> is the environment variable with the name of the etcd secret.\<close>

definition enabled_namespace ::
  "service_api \<Rightarrow> string option \<Rightarrow> Config \<Rightarrow> string \<Rightarrow> ObjectMeta \<Rightarrow> ServiceReconciler \<Rightarrow> service_outcome" where
  "enabled_namespace api env cfg namespace owner r =
     (case getMMService namespace cfg False r of
        ((mms, _), r1) \<Rightarrow>
          (case reconcileService api r1 mms namespace (Some owner) of
             None \<Rightarrow> None
           | Some ((svc, err2, requeue), mms', st, calls) \<Rightarrow>
               (let r2 = r1\<lparr>svr_MMServices := gomap_set namespace mms' (svr_MMServices r1), svr_ModelEventStream := st\<rparr>
                in if err2 \<noteq> None \<or> requeue then Some ((err2, RequeueResult), calls, r2)
                   else (case UpdateWatchedService (sa_etcd api) (GetEtcdSecretName env cfg) (cfg_InferenceServiceName cfg) namespace st of
                           (Some err, st') \<Rightarrow> Some ((Some (ServiceStream err), RequeueResult), calls, r2\<lparr>svr_ModelEventStream := st'\<rparr>)
                         | (None, st') \<Rightarrow>
                             (let r3 = r2\<lparr>svr_ModelEventStream := st'\<rparr>
                              in case (svc, svr_ServiceMonitorCRDExists r) of
                                   (Some s, True) \<Rightarrow>
                                     (case reconcileServiceMonitor api (cfg_Metrics cfg) s of
                                        ((err, requeue), calls') \<Rightarrow>
                                          Some ((err, if err \<noteq> None \<or> requeue then RequeueResult else Done), calls @ calls', r3))
                                 | _ \<Rightarrow> Some ((None, Done), calls, r3))))))"

definition Service_Reconcile ::
  "service_api \<Rightarrow> string option \<Rightarrow> Config \<Rightarrow> NamespacedName \<Rightarrow> ServiceReconciler \<Rightarrow> service_outcome" where
  "Service_Reconcile api env cfg req r =
     (if svr_ClusterScope r then
        (case sa_GetNamespace api (nn_Name req) of
           Inl NotFound \<Rightarrow> Some ((None, Done), [], r)
         | Inl err \<Rightarrow> Some ((Some (ServiceApi err), Done), [], r)
         | Inr n \<Rightarrow>
             if \<not> modelMeshEnabled n (nn_Namespace (svr_ControllerDeployment r)) then disabled_namespace api (nn_Name req) r
             else enabled_namespace api env cfg (nn_Name req) (zero_Meta\<lparr>om_Name := ns_Name n, om_Labels := ns_Labels n\<rparr>) r)
      else
        (case sa_GetDeployment api (svr_ControllerDeployment r) of
           Inl NotFound \<Rightarrow>
             Some ((None, Done), [],
               case MMServiceMap_Get (nn_Namespace req) (svr_MMServices r) of
                 None \<Rightarrow> r
               | Some mms \<Rightarrow> r\<lparr>svr_MMServices := gomap_set (nn_Namespace req) (Disconnect (mesh_env_of api r) mms) (svr_MMServices r)\<rparr>)
         | Inl err \<Rightarrow> Some ((Some (DeploymentGet err), RequeueResult), [], r)
         | Inr d \<Rightarrow> enabled_namespace api env cfg (nn_Namespace req) d r))"

section \<open>Requests\<close>

text \<open>Events of Deployments that lead to a request, in namespace scope; a predicate that is not given lets events pass.\<close>

datatype watch_event = CreateEvent | UpdateEvent | DeleteEvent | GenericEvent

definition deployment_event :: "ServiceReconciler \<Rightarrow> watch_event \<Rightarrow> NamespacedName \<Rightarrow> bool" where
  "deployment_event r ev ob =
     (case ev of
        DeleteEvent \<Rightarrow> False
      | GenericEvent \<Rightarrow> True
      | _ \<Rightarrow> nn_Name ob = nn_Name (svr_ControllerDeployment r) \<and> nn_Namespace ob = nn_Namespace (svr_ControllerDeployment r))"

text \<open>The requests that follow a reload of the configuration.\<close>

definition config_requests_namespace :: "Config \<Rightarrow> ServiceReconciler \<Rightarrow> NamespacedName list \<times> ServiceReconciler" where
  "config_requests_namespace cfg r =
     (case getMMService (nn_Namespace (svr_ControllerDeployment r)) cfg True r of
        ((_, changed), r') \<Rightarrow> (if changed then [svr_ControllerDeployment r] else [], r'))"

fun config_requests_for :: "Config \<Rightarrow> Namespace list \<Rightarrow> ServiceReconciler \<Rightarrow> NamespacedName list \<times> ServiceReconciler" where
  "config_requests_for cfg [] r = ([], r)"
| "config_requests_for cfg (n # ns) r =
     (if modelMeshEnabled n (nn_Namespace (svr_ControllerDeployment r)) then
        (case getMMService (ns_Name n) cfg True r of
           ((_, changed), r1) \<Rightarrow>
             (case config_requests_for cfg ns r1 of
                (reqs, r2) \<Rightarrow> ((if changed then [\<lparr>nn_Namespace = [], nn_Name = ns_Name n\<rparr>] else []) @ reqs, r2)))
      else config_requests_for cfg ns r)"

definition config_requests_cluster :: "service_api \<Rightarrow> Config \<Rightarrow> ServiceReconciler \<Rightarrow> NamespacedName list \<times> ServiceReconciler" where
  "config_requests_cluster api cfg r =
     (case sa_ListNamespaces api of Inl _ \<Rightarrow> ([], r) | Inr ns \<Rightarrow> config_requests_for cfg ns r)"

text \<open>The requests for an event of a ServiceMonitor, in either scope.\<close>

definition monitor_requests_namespace :: "ServiceReconciler \<Rightarrow> NamespacedName \<Rightarrow> NamespacedName list" where
  "monitor_requests_namespace r ob =
     (if svr_ServiceMonitorCRDExists r \<and> nn_Name ob = serviceMonitorName \<and> nn_Namespace ob = nn_Namespace (svr_ControllerDeployment r)
      then [svr_ControllerDeployment r] else [])"

definition monitor_requests_cluster :: "ServiceReconciler \<Rightarrow> NamespacedName \<Rightarrow> NamespacedName list" where
  "monitor_requests_cluster r ob =
     (if svr_ServiceMonitorCRDExists r \<and> nn_Name ob = serviceMonitorName
      then [\<lparr>nn_Namespace = [], nn_Name = nn_Namespace ob\<rparr>] else [])"

section \<open>Which Services remain\<close>

text \<open>
  What the calls make of the Services in the API server. A created Service gets its address from the server (\<open>assign\<close>) unless it is headless.
\<close>

definition service_key :: "kube_service \<Rightarrow> string \<times> string" where
  "service_key s = (om_Namespace (ks_Meta s), om_Name (ks_Meta s))"

definition stored :: "(kube_service \<Rightarrow> string) \<Rightarrow> kube_service \<Rightarrow> kube_service" where
  "stored assign s =
     (if svs_ClusterIP (ks_Spec s) = ''None'' then s else s\<lparr>ks_Spec := (ks_Spec s)\<lparr>svs_ClusterIP := assign s\<rparr>\<rparr>)"

fun apply_call :: "(kube_service \<Rightarrow> string) \<Rightarrow> service_call \<Rightarrow> kube_service list \<Rightarrow> kube_service list" where
  "apply_call assign (CreateService s) store = store @ [stored assign s]"
| "apply_call assign (UpdateService s) store = map (\<lambda>x. if service_key x = service_key s then s else x) store"
| "apply_call assign (DeleteService s) store = filter (\<lambda>x. service_key x \<noteq> service_key s) store"
| "apply_call assign _ store = store"

definition service_round ::
  "service_api \<Rightarrow> (kube_service \<Rightarrow> string) \<Rightarrow> ServiceReconciler \<Rightarrow> MMService \<Rightarrow> string \<Rightarrow> ObjectMeta \<Rightarrow> kube_service list \<Rightarrow>
     (bool \<times> MMService \<times> ModelMeshEventStream \<times> kube_service list) option" where
  "service_round api assign r mms namespace owner store =
     (case reconcileService (api\<lparr>sa_ListServices := (\<lambda>_. Inr store)\<rparr>) r mms namespace (Some owner) of
        None \<Rightarrow> None
      | Some ((_, _, requeue), mms', st, calls) \<Rightarrow> Some (requeue, mms', st, fold (apply_call assign) calls store))"

text \<open>Exactly the wanted Service is left: its address is the server's, but it is headless if and only if it ought to be.\<close>

definition wanted_service :: "MMService \<Rightarrow> string \<Rightarrow> kube_service \<Rightarrow> bool" where
  "wanted_service mms namespace s \<longleftrightarrow>
     service_key s = (namespace, mms_name mms) \<and> om_Labels (ks_Meta s) = labelMap (mms_name mms) \<and>
     ks_Spec s = (service_spec mms)\<lparr>svs_ClusterIP := svs_ClusterIP (ks_Spec s)\<rparr> \<and>
     (svs_ClusterIP (ks_Spec s) = ''None'' \<longleftrightarrow> mms_headless mms)"

definition converged :: "MMService \<Rightarrow> string \<Rightarrow> kube_service list \<Rightarrow> bool" where
  "converged mms namespace store \<longleftrightarrow> (\<exists>s. store = [s] \<and> wanted_service mms namespace s)"

text \<open>The API server accepts the writes, and the namespace is enabled at the second look, too.\<close>

definition writes_accepted :: "service_api \<Rightarrow> bool" where
  "writes_accepted api \<longleftrightarrow> sa_Create api = (\<lambda>_. None) \<and> sa_Update api = (\<lambda>_. None) \<and> sa_Delete api = (\<lambda>_. None) \<and>
     (\<forall>ow m os. \<exists>os'. sa_SetControllerReference api ow m os = Inr os')"

definition still_enabled :: "service_api \<Rightarrow> ServiceReconciler \<Rightarrow> string \<Rightarrow> bool" where
  "still_enabled api r namespace \<longleftrightarrow> (svr_ClusterScope r \<longrightarrow>
     (\<exists>n. sa_GetNamespaceAgain api namespace = Inr n \<and> modelMeshEnabled n (nn_Namespace (svr_ControllerDeployment r))))"

lemma delete_others_effect:
  assumes "delete_others api name sl s st = ((None, s', st'), calls)"
  shows "s' = (case filter (\<lambda>x. om_Name (ks_Meta x) = name) sl of [] \<Rightarrow> s | xs \<Rightarrow> Some (last xs)) \<and>
     calls = map DeleteService (filter (\<lambda>x. om_Name (ks_Meta x) \<noteq> name) sl) \<and> (stream_ready st \<longrightarrow> stream_ready st')"
  using assms
proof (induction sl arbitrary: s st calls)
  case (Cons ss sl)
  show ?case
  proof (cases "om_Name (ks_Meta ss) = name")
    case True
    then have "delete_others api name sl (Some ss) st = ((None, s', st'), calls)" using Cons.prems by simp
    from Cons.IH[OF this] show ?thesis using True by (simp split: list.splits)
  next
    case False
    then obtain calls' where d: "delete_others api name sl s (RemoveWatchedService (om_Name (ks_Meta ss)) (om_Namespace (ks_Meta ss)) st) =
        ((None, s', st'), calls')" "calls = DeleteService ss # calls'"
      using Cons.prems by (auto split: option.splits prod.splits)
    from Cons.IH[OF d(1)] show ?thesis using False d(2) es.remove_ready by simp
  qed
qed simp

lemma delete_others_accepted:
  assumes "sa_Delete api = (\<lambda>_. None)"
  obtains s' st' calls where "delete_others api name sl s st = ((None, s', st'), calls)"
proof -
  have "fst (fst (delete_others api name sl s st)) = None"
  proof (induction sl arbitrary: s st)
    case (Cons ss sl)
    show ?case using Cons.IH[of "Some ss" st] Cons.IH[of s "RemoveWatchedService (om_Name (ks_Meta ss)) (om_Namespace (ks_Meta ss)) st"] assms
      by (simp add: case_prod_unfold)
  qed simp
  then show thesis using that by (metis prod.exhaust fst_conv)
qed

lemma apply_deletions:
  assumes "\<forall>x \<in> set store. om_Namespace (ks_Meta x) = namespace"
  shows "fold (apply_call assign) (map DeleteService (filter (\<lambda>x. om_Name (ks_Meta x) \<noteq> name) store)) store =
     filter (\<lambda>x. om_Name (ks_Meta x) = name) store"
proof -
  have f: "fold (apply_call assign) (map DeleteService ds) xs = filter (\<lambda>x. service_key x \<notin> service_key ` set ds) xs" for ds xs
    by (induction ds arbitrary: xs) (auto simp: filter_filter intro!: filter_cong)
  show ?thesis unfolding f using assms by (intro filter_cong) (auto simp: service_key_def)
qed

lemma distinct_names_single:
  "distinct (map f xs) \<Longrightarrow> x \<in> set xs \<Longrightarrow> filter (\<lambda>y. f y = f x) xs = [x]"
  by (induction xs) (auto simp: filter_empty_conv image_iff)

lemma ConnectIfNeeded_settings:
  "mms_name (snd (ConnectIfNeeded e m)) = mms_name m" "mms_serviceSpec (snd (ConnectIfNeeded e m)) = mms_serviceSpec m"
  "service_spec (snd (ConnectIfNeeded e m)) = service_spec m" "mms_headless (snd (ConnectIfNeeded e m)) = mms_headless m"
  by (auto simp: ConnectIfNeeded_def Disconnect_def Let_def split: option.splits sum.splits if_splits)

text \<open>A run with an accepting server: it creates the Service, or updates it, or deletes it when its headlessness is wrong.\<close>

lemma create_service_accepted:
  assumes "writes_accepted api"
  obtains owners where "create_service api e name target namespace owner mms =
    (let s = \<lparr>ks_Meta = zero_Meta\<lparr>om_Name := name, om_Namespace := namespace, om_Labels := labelMap name\<rparr>, ks_Owners = owners, ks_Spec = target\<rparr>
     in ((Some s, None, False), Disconnect e mms, [CreateService s]))"
proof -
  obtain owners where "sa_SetControllerReference api owner (zero_Meta\<lparr>om_Name := name, om_Namespace := namespace, om_Labels := labelMap name\<rparr>) [] = Inr owners"
    using assms unfolding writes_accepted_def by blast
  then show thesis using assms by (intro that) (simp add: create_service_def writes_accepted_def Let_def)
qed

definition updated_service :: "string \<Rightarrow> ServiceSpec \<Rightarrow> kube_service \<Rightarrow> kube_service" where
  "updated_service name target s =
     s\<lparr>ks_Meta := (ks_Meta s)\<lparr>om_Labels := labelMap name\<rparr>, ks_Spec := target\<lparr>svs_ClusterIP := svs_ClusterIP (ks_Spec s)\<rparr>\<rparr>"

lemma update_service_accepted:
  assumes "writes_accepted api"
  shows "(svs_ClusterIP (ks_Spec s) = ''None'') \<noteq> mms_headless m \<Longrightarrow>
      \<exists>s1. update_service api e name (service_spec m) s mms = ((None, None, True), mms, [DeleteService s1]) \<and> service_key s1 = service_key s"
    and "(svs_ClusterIP (ks_Spec s) = ''None'') = mms_headless m \<Longrightarrow>
      \<exists>err. update_service api e name (service_spec m) s mms = ((Some (updated_service name (service_spec m) s), err, False),
        snd (ConnectIfNeeded e mms), [UpdateService (updated_service name (service_spec m) s)])"
proof -
  have t: "svs_ClusterIP (service_spec m) = (if mms_headless m then ''None'' else [])" by (simp add: service_spec_def)
  show "(svs_ClusterIP (ks_Spec s) = ''None'') \<noteq> mms_headless m \<Longrightarrow>
      \<exists>s1. update_service api e name (service_spec m) s mms = ((None, None, True), mms, [DeleteService s1]) \<and> service_key s1 = service_key s"
    using assms by (auto simp: update_service_def spec_DeepEqual_def t writes_accepted_def service_key_def Let_def)
  show "(svs_ClusterIP (ks_Spec s) = ''None'') = mms_headless m \<Longrightarrow>
      \<exists>err. update_service api e name (service_spec m) s mms = ((Some (updated_service name (service_spec m) s), err, False),
        snd (ConnectIfNeeded e mms), [UpdateService (updated_service name (service_spec m) s)])"
    using assms by (auto simp: update_service_def spec_DeepEqual_def t writes_accepted_def updated_service_def Let_def split: prod.splits)
qed

lemma reconcileService_accepted:
  assumes ok: "writes_accepted api" "still_enabled api r namespace" "sa_ListServices api namespace = Inr store"
    and mms: "mms_serviceSpec mms = Some (service_spec mms)" "mms_name mms \<noteq> []"
  obtains st where "stream_ready (svr_ModelEventStream r) \<longrightarrow> stream_ready st"
    "reconcileService api r mms namespace (Some owner) =
      (case (case filter (\<lambda>x. om_Name (ks_Meta x) = mms_name mms) store of
               [] \<Rightarrow> create_service api (mesh_env_of api r) (mms_name mms) (service_spec mms) namespace owner mms
             | xs \<Rightarrow> update_service api (mesh_env_of api r) (mms_name mms) (service_spec mms) (last xs) mms) of
         (res, mms', calls) \<Rightarrow> Some (res, mms', st, map DeleteService (filter (\<lambda>x. om_Name (ks_Meta x) \<noteq> mms_name mms) store) @ calls))"
proof -
  have "sa_Delete api = (\<lambda>_. None)" using ok(1) by (simp add: writes_accepted_def)
  then obtain s' st' calls where d: "delete_others api (mms_name mms) store None (svr_ModelEventStream r) = ((None, s', st'), calls)"
    by (rule delete_others_accepted)
  note eff = delete_others_effect[OF d]
  show thesis
  proof (rule that)
    show "stream_ready (svr_ModelEventStream r) \<longrightarrow> stream_ready st'" using eff by blast
    show "reconcileService api r mms namespace (Some owner) =
      (case (case filter (\<lambda>x. om_Name (ks_Meta x) = mms_name mms) store of
               [] \<Rightarrow> create_service api (mesh_env_of api r) (mms_name mms) (service_spec mms) namespace owner mms
             | xs \<Rightarrow> update_service api (mesh_env_of api r) (mms_name mms) (service_spec mms) (last xs) mms) of
         (res, mms', calls) \<Rightarrow> Some (res, mms', st', map DeleteService (filter (\<lambda>x. om_Name (ks_Meta x) \<noteq> mms_name mms) store) @ calls))"
      using ok(2,3) mms d eff unfolding reconcileService_def GetNameAndSpec_def still_enabled_def Let_def
      by (cases "filter (\<lambda>x. om_Name (ks_Meta x) = mms_name mms) store") (auto simp: case_prod_unfold split: if_splits)
  qed
qed

text \<open>What a round does: it keeps the settings, and leaves the wanted Service or, when it asks for another round, none.\<close>

definition good_round ::
  "ServiceReconciler \<Rightarrow> MMService \<Rightarrow> string \<Rightarrow> kube_service list \<Rightarrow> (bool \<times> MMService \<times> ModelMeshEventStream \<times> kube_service list) option \<Rightarrow> bool" where
  "good_round r mms namespace store res \<longleftrightarrow>
     (case res of None \<Rightarrow> False | Some (requeue, mms', st', store') \<Rightarrow>
        (mms_serviceSpec mms' = mms_serviceSpec mms \<and> service_spec mms' = service_spec mms \<and> mms_name mms' = mms_name mms \<and>
         mms_headless mms' = mms_headless mms) \<and>
        (stream_ready (svr_ModelEventStream r) \<longrightarrow> stream_ready st') \<and>
        (if requeue then store \<noteq> [] \<and> store' = [] else converged mms namespace store') \<and>
        (converged mms namespace store \<longrightarrow> \<not> requeue \<and> store' = store))"

lemma good_round_create:
  assumes ok: "writes_accepted api" "\<And>s. assign s \<noteq> ''None''"
    and st: "stream_ready (svr_ModelEventStream r) \<longrightarrow> stream_ready st"
    and none: "filter (\<lambda>x. om_Name (ks_Meta x) = mms_name mms) store = []"
  shows "good_round r mms namespace store
    (case create_service api e (mms_name mms) (service_spec mms) namespace owner mms of
       ((_, _, requeue), mms', calls) \<Rightarrow> Some (requeue, mms', st, fold (apply_call assign) calls []))"
proof -
  let ?name = "mms_name mms"
  obtain owners where c: "create_service api e ?name (service_spec mms) namespace owner mms =
    (let s = \<lparr>ks_Meta = zero_Meta\<lparr>om_Name := ?name, om_Namespace := namespace, om_Labels := labelMap ?name\<rparr>, ks_Owners = owners, ks_Spec = service_spec mms\<rparr>
     in ((Some s, None, False), Disconnect e mms, [CreateService s]))" by (rule create_service_accepted[OF ok(1)])
  let ?s = "\<lparr>ks_Meta = zero_Meta\<lparr>om_Name := ?name, om_Namespace := namespace, om_Labels := labelMap ?name\<rparr>, ks_Owners = owners, ks_Spec = service_spec mms\<rparr>"
  have "wanted_service mms namespace (stored assign ?s)"
    using ok(2) by (auto simp: wanted_service_def stored_def service_key_def service_spec_def)
  moreover have "\<not> converged mms namespace store" using none by (auto simp: converged_def wanted_service_def service_key_def)
  ultimately show ?thesis using st unfolding c
    by (auto simp: good_round_def Let_def converged_def Disconnect_def split: option.splits)
qed

lemma good_round_update:
  assumes ok: "writes_accepted api" and st: "stream_ready (svr_ModelEventStream r) \<longrightarrow> stream_ready st"
    and x: "x \<in> set store" "service_key x = (namespace, mms_name mms)"
  shows "good_round r mms namespace store
    (case update_service api e (mms_name mms) (service_spec mms) x mms of
       ((_, _, requeue), mms', calls) \<Rightarrow> Some (requeue, mms', st, fold (apply_call assign) calls [x]))"
proof (cases "(svs_ClusterIP (ks_Spec x) = ''None'') = mms_headless mms")
  case True
  let ?u = "updated_service (mms_name mms) (service_spec mms) x"
  obtain err where u: "update_service api e (mms_name mms) (service_spec mms) x mms = ((Some ?u, err, False), snd (ConnectIfNeeded e mms), [UpdateService ?u])"
    using update_service_accepted(2)[OF ok True] by blast
  have k: "service_key ?u = service_key x" by (simp add: updated_service_def service_key_def)
  have "wanted_service mms namespace ?u" using True x(2) by (simp add: wanted_service_def updated_service_def service_key_def)
  moreover have "store = [?u]" if "converged mms namespace store"
    using that x(1) by (auto simp: converged_def wanted_service_def updated_service_def)
  ultimately show ?thesis using st unfolding u by (auto simp: good_round_def k converged_def ConnectIfNeeded_settings)
next
  case False
  obtain s1 where u: "update_service api e (mms_name mms) (service_spec mms) x mms = ((None, None, True), mms, [DeleteService s1])" "service_key s1 = service_key x"
    using update_service_accepted(1)[OF ok False] by blast
  have "\<not> converged mms namespace store" using x(1) False by (auto simp: converged_def wanted_service_def)
  then show ?thesis using st x(1) unfolding u(1) by (auto simp: good_round_def u(2))
qed

lemma service_round_good:
  assumes ok: "writes_accepted api" "still_enabled api r namespace" "\<And>s. assign s \<noteq> ''None''"
    and mms: "mms_serviceSpec mms = Some (service_spec mms)" "mms_name mms \<noteq> []"
    and store: "distinct (map service_key store)" "\<forall>x \<in> set store. om_Namespace (ks_Meta x) = namespace"
  shows "good_round r mms namespace store (service_round api assign r mms namespace owner store)"
proof -
  let ?api = "api\<lparr>sa_ListServices := (\<lambda>_. Inr store)\<rparr>" and ?name = "mms_name mms"
  let ?e = "mesh_env_of ?api r" and ?others = "map DeleteService (filter (\<lambda>x. om_Name (ks_Meta x) \<noteq> mms_name mms) store)"
  have api: "writes_accepted ?api" "still_enabled ?api r namespace" "sa_ListServices ?api namespace = Inr store"
    using ok(1,2) by (simp_all add: writes_accepted_def still_enabled_def)
  from reconcileService_accepted[OF this mms] obtain st where st: "stream_ready (svr_ModelEventStream r) \<longrightarrow> stream_ready st"
    and rs: "reconcileService ?api r mms namespace (Some owner) =
      (case (case filter (\<lambda>x. om_Name (ks_Meta x) = ?name) store of
               [] \<Rightarrow> create_service ?api ?e ?name (service_spec mms) namespace owner mms
             | xs \<Rightarrow> update_service ?api ?e ?name (service_spec mms) (last xs) mms) of
         (res, mms', calls) \<Rightarrow> Some (res, mms', st, ?others @ calls))" by blast
  have round: "service_round api assign r mms namespace owner store =
      (case (case filter (\<lambda>x. om_Name (ks_Meta x) = ?name) store of
               [] \<Rightarrow> create_service ?api ?e ?name (service_spec mms) namespace owner mms
             | xs \<Rightarrow> update_service ?api ?e ?name (service_spec mms) (last xs) mms) of
         ((_, _, requeue), mms', calls) \<Rightarrow>
           Some (requeue, mms', st, fold (apply_call assign) calls (filter (\<lambda>x. om_Name (ks_Meta x) = ?name) store)))"
    unfolding service_round_def rs by (simp add: case_prod_unfold apply_deletions[OF store(2)])
  show ?thesis
  proof (cases "filter (\<lambda>x. om_Name (ks_Meta x) = ?name) store")
    case Nil
    from good_round_create[OF api(1) ok(3) st Nil] show ?thesis unfolding round Nil by simp
  next
    case (Cons x xs)
    from arg_cong[OF Cons, of set] have x: "x \<in> set store" "om_Name (ks_Meta x) = ?name" by auto
    then have key: "service_key x = (namespace, ?name)" using store(2) by (simp add: service_key_def)
    have "filter (\<lambda>y. om_Name (ks_Meta y) = ?name) store = filter (\<lambda>y. service_key y = service_key x) store"
      using store(2) x by (intro filter_cong) (auto simp: service_key_def)
    then have one: "filter (\<lambda>y. om_Name (ks_Meta y) = ?name) store = [x]" using distinct_names_single[OF store(1) x(1)] by simp
    from good_round_update[OF api(1) st x(1) key] show ?thesis unfolding round one by simp
  qed
qed

text \<open>
  C37. The Service converges. When the API server accepts the writes, one run of \<open>reconcileService\<close> leaves the namespace with exactly one
  labelled Service, which has the name, labels and spec that the settings ask for, whatever labelled Services were there; it may instead
  delete the Service because its headlessness is wrong and ask to be run again, and then the second run creates it. A converged namespace stays as it is.
\<close>

theorem reconcileService_converges:
  assumes "writes_accepted api" "still_enabled api r namespace" "\<forall>s. assign s \<noteq> ''None''"
    and "mms_serviceSpec mms = Some (service_spec mms)" "mms_name mms \<noteq> []"
    and "distinct (map service_key store)" "\<forall>x \<in> set store. om_Namespace (ks_Meta x) = namespace"
  shows "\<exists>requeue mms1 st1 store1. service_round api assign r mms namespace owner store = Some (requeue, mms1, st1, store1) \<and>
     (\<not> requeue \<longrightarrow> converged mms namespace store1) \<and>
     (requeue \<longrightarrow> (\<exists>mms2 st2 store2. service_round api assign (r\<lparr>svr_ModelEventStream := st1\<rparr>) mms1 namespace owner store1 = Some (False, mms2, st2, store2) \<and>
        converged mms namespace store2)) \<and>
     (converged mms namespace store \<longrightarrow> \<not> requeue \<and> store1 = store)"
proof -
  from service_round_good[of api r namespace assign mms store owner] assms
  obtain requeue mms1 st1 store1 where a: "service_round api assign r mms namespace owner store = Some (requeue, mms1, st1, store1)"
    "mms_serviceSpec mms1 = mms_serviceSpec mms" "service_spec mms1 = service_spec mms" "mms_name mms1 = mms_name mms" "mms_headless mms1 = mms_headless mms"
    "if requeue then store \<noteq> [] \<and> store1 = [] else converged mms namespace store1"
    "converged mms namespace store \<longrightarrow> \<not> requeue \<and> store1 = store"
    unfolding good_round_def by (auto split: option.splits)
  have c: "converged mms1 namespace = converged mms namespace" by (intro ext) (simp add: converged_def wanted_service_def a(3-5))
  have "\<exists>mms2 st2 store2. service_round api assign (r\<lparr>svr_ModelEventStream := st1\<rparr>) mms1 namespace owner store1 = Some (False, mms2, st2, store2) \<and>
        converged mms namespace store2" if "requeue"
  proof -
    have "good_round (r\<lparr>svr_ModelEventStream := st1\<rparr>) mms1 namespace store1 (service_round api assign (r\<lparr>svr_ModelEventStream := st1\<rparr>) mms1 namespace owner store1)"
      using assms(1-5) a(2-6) that by (intro service_round_good) (simp_all add: still_enabled_def)
    then show ?thesis using a(6) that unfolding good_round_def c by (auto split: option.splits if_splits)
  qed
  then show ?thesis using a(1,6,7) by auto
qed

section \<open>What is watched\<close>

lemma delete_others_removes:
  "\<exists>rs. snd (snd (fst (delete_others api name sl s st))) = fold (\<lambda>(svc, n). RemoveWatchedService svc n) rs st"
proof (induction sl arbitrary: s st)
  case Nil
  show ?case by (intro exI[of _ "[]"]) simp
next
  case (Cons ss sl)
  let ?n = "om_Name (ks_Meta ss)" and ?ns = "om_Namespace (ks_Meta ss)"
  obtain rs where rs: "snd (snd (fst (delete_others api name sl s (RemoveWatchedService ?n ?ns st)))) =
      fold (\<lambda>(svc, n). RemoveWatchedService svc n) rs (RemoveWatchedService ?n ?ns st)" using Cons.IH by blast
  show ?case
  proof (cases "?n = name")
    case True
    then show ?thesis using Cons.IH[of "Some ss" st] by simp
  next
    case False
    show ?thesis
    proof (cases "sa_Delete api ss")
      case None
      then show ?thesis using False rs by (intro exI[of _ "(?n, ?ns) # rs"]) (simp add: case_prod_unfold)
    next
      case (Some err)
      then show ?thesis using False by (intro exI[of _ "[]"]) simp
    qed
  qed
qed

lemma reconcileService_removes:
  assumes "reconcileService api r mms namespace owner = Some (res, mms', st, calls)"
  shows "\<exists>rs. st = fold (\<lambda>(svc, n). RemoveWatchedService svc n) rs (svr_ModelEventStream r)"
proof -
  have d: "\<exists>rs. st' = fold (\<lambda>(svc, n). RemoveWatchedService svc n) rs (svr_ModelEventStream r)"
    if "delete_others api name sl None (svr_ModelEventStream r) = ((e, s, st'), cs)" for name sl e s st' cs
    using delete_others_removes[of api name sl None "svr_ModelEventStream r"] that by simp
  have "\<exists>rs. RemoveWatchedService svc n s = fold (\<lambda>(svc, n). RemoveWatchedService svc n) rs s" for svc n s
    by (intro exI[of _ "[(svc, n)]"]) simp
  moreover have "\<exists>rs. s = fold (\<lambda>(svc, n). RemoveWatchedService svc n) rs s" for s
    by (intro exI[of _ "[]"]) simp
  ultimately show ?thesis using assms d
    unfolding reconcileService_def Let_def GetNameAndSpec_def
    by (fastforce split: option.splits prod.splits sum.splits if_splits)
qed

lemma enabled_namespace_watches:
  assumes "enabled_namespace api env cfg namespace owner r = Some ((err, Done), calls, r')" "stream_ready (svr_ModelEventStream r)"
  shows "err = None \<and> stream_ok (svr_ModelEventStream r') \<and> mes_secretName (svr_ModelEventStream r') = GetEtcdSecretName env cfg \<and>
     watched_name (svr_ModelEventStream r') namespace = cfg_InferenceServiceName cfg \<and> gomap_get (svr_MMServices r') namespace \<noteq> None"
proof -
  obtain mms ch r1 where g: "getMMService namespace cfg False r = ((mms, ch), r1)" by (metis prod.exhaust)
  have r1: "svr_ModelEventStream r1 = svr_ModelEventStream r" using g by (auto simp: getMMService_def split: prod.splits if_splits)
  obtain svc err2 requeue mms' st calls2 where
    rs: "reconcileService api r1 mms namespace (Some owner) = Some ((svc, err2, requeue), mms', st, calls2)"
    using assms(1) g by (auto simp: enabled_namespace_def split: option.splits)
  obtain rem where st: "st = fold (\<lambda>(svc, n). RemoveWatchedService svc n) rem (svr_ModelEventStream r)" using reconcileService_removes[OF rs] r1 by auto
  obtain err3 st' where u: "UpdateWatchedService (sa_etcd api) (GetEtcdSecretName env cfg) (cfg_InferenceServiceName cfg) namespace st = (err3, st')"
    by fastforce
  have "err = None \<and> err3 = None \<and> svr_ModelEventStream r' = st' \<and> gomap_get (svr_MMServices r') namespace \<noteq> None"
    using assms(1) by (auto simp: enabled_namespace_def g rs u RequeueResult_def Let_def split: if_splits option.splits prod.splits bool.splits)
  moreover have "UpdateWatchedService (sa_etcd api) (GetEtcdSecretName env cfg) (cfg_InferenceServiceName cfg) namespace
      (fold (\<lambda>(svc, n). RemoveWatchedService svc n) rem (svr_ModelEventStream r)) = (None, st')" using u st calculation by simp
  ultimately show ?thesis using es.update_after_removals[OF assms(2)] UpdateWatchedService_ok[OF es.removals_ready[OF assms(2)]] by metis
qed

lemma disabled_namespace_forgets:
  assumes "disabled_namespace api namespace r = Some ((None, res), calls, r')" "stream_ready (svr_ModelEventStream r)" "svr_ClusterScope r"
    and n: "sa_GetNamespaceAgain api namespace = Inr n" "\<not> modelMeshEnabled n (nn_Namespace (svr_ControllerDeployment r))"
  shows "gomap_get (svr_MMServices r') namespace = None \<and> stream_ready (svr_ModelEventStream r') \<and>
     (\<exists>sl. sa_ListServices api namespace = Inr sl \<and> calls = map DeleteService sl) \<and>
     (\<forall>mms. gomap_get (svr_MMServices r) namespace = Some mms \<longrightarrow>
        svr_ModelEventStream r' = RemoveWatchedService (mms_name mms) namespace (svr_ModelEventStream r))"
proof -
  have d: "delete_services api sl = (None, cs) \<Longrightarrow> cs = map DeleteService sl" for sl cs
    by (induction sl arbitrary: cs) (auto split: option.splits prod.splits)
  obtain sl cs where l: "sa_ListServices api namespace = Inr sl" "delete_services api sl = (None, cs)"
    using assms(1) by (auto simp: disabled_namespace_def split: sum.splits option.splits prod.splits)
  have keep: "mms_name (Disconnect e m) = mms_name m" for e m by (auto simp: Disconnect_def split: option.splits)
  show ?thesis
  proof (cases "gomap_get (svr_MMServices r) namespace")
    case None
    then show ?thesis using assms(1,2) l d[OF l(2)] by (simp add: disabled_namespace_def MMServiceMap_Get_def)
  next
    case (Some mms)
    then show ?thesis using assms l d[OF l(2)] es.remove_ready[OF assms(2)]
      by (auto simp: disabled_namespace_def MMServiceMap_Get_def MMServiceMap_Delete_def reconcileService_def GetNameAndSpec_def keep Let_def
            split: option.splits if_splits)
  qed
qed


section \<open>Limits\<close>

text \<open>A Service that is already as wanted is written in every run.\<close>

lemma service_always_written:
  assumes "update_service api e name target s mms = ((Some s', err, requeue), mms', calls)"
  shows "calls = [UpdateService s']"
  using assms by (auto simp: update_service_def spec_DeepEqual_def Let_def split: if_splits prod.splits)

text \<open>
  When the second look at a disabled namespace fails, the \<open>MMService\<close> is gone already, so that later runs never drop the watch.
\<close>

lemma failed_second_look_keeps_watch:
  assumes "sa_GetNamespaceAgain api namespace = Inl err" "svr_ClusterScope r" "sa_ListServices api namespace = Inr []"
    and "gomap_get (svr_MMServices r) namespace = Some mms" "mms_name mms \<noteq> []" "mms_serviceSpec mms = Some spec"
  shows "\<exists>r'. disabled_namespace api namespace r = Some ((Some (ServiceApi err), Done), [], r') \<and>
     svr_ModelEventStream r' = svr_ModelEventStream r \<and>
     (\<forall>api' res calls r''. disabled_namespace api' namespace r' = Some (res, calls, r'') \<longrightarrow> r'' = r')"
proof -
  have "mms_name (Disconnect e mms) = mms_name mms" "mms_serviceSpec (Disconnect e mms) = mms_serviceSpec mms" for e
    by (auto simp: Disconnect_def split: option.splits)
  then have "disabled_namespace api namespace r = Some ((Some (ServiceApi err), Done), [], r\<lparr>svr_MMServices := gomap_delete namespace (svr_MMServices r)\<rparr>)"
    using assms by (cases r) (simp add: disabled_namespace_def MMServiceMap_Get_def MMServiceMap_Delete_def reconcileService_def GetNameAndSpec_def Let_def)
  moreover have "r'' = r'" if "disabled_namespace api' namespace r' = Some (res, calls, r'')" "gomap_get (svr_MMServices r') namespace = None" for api' res calls r' r''
    using that by (auto simp: disabled_namespace_def MMServiceMap_Get_def split: sum.splits option.splits prod.splits)
  ultimately show ?thesis by (intro exI conjI allI impI) (assumption | simp)+
qed

text \<open>
  A ServiceMonitor whose other fields are as wanted is written just when its owner references are already right, and not when they change.
\<close>

lemma monitor_written_when_owned:
  assumes "sa_GetMonitor api \<lparr>nn_Namespace = om_Namespace (ks_Meta s), nn_Name = serviceMonitorName\<rparr> = Inr sm"
    and "pm_Enabled metrics" "\<not> pm_DisablePrometheusOperatorSupport metrics"
    and "sa_SetControllerReference api (ks_Meta s) (sm_Meta sm) (sm_Owners sm) = Inr owners"
    and "monitor_target metrics s False (sm\<lparr>sm_Owners := owners\<rparr>) = (False, sm\<lparr>sm_Owners := owners\<rparr>)"
  shows "snd (reconcileServiceMonitor api metrics s) = (if sm_Owners sm = owners then [UpdateMonitor sm] else [])"
proof -
  have m: "monitor_target metrics s c x = (c \<or> fst (monitor_target metrics s False x), snd (monitor_target metrics s False x))" for c x
    by (simp add: monitor_target_def Let_def)
  have "sm_Owners sm = owners \<Longrightarrow> sm\<lparr>sm_Owners := owners\<rparr> = sm" by (cases sm) simp
  then show ?thesis using assms unfolding reconcileServiceMonitor_def Let_def
    by (simp add: m[of "sm_Owners sm = owners"] write_monitor_def)
qed

section \<open>Witnesses of the Service\<close>

text \<open>A cluster with the enabled namespace \<open>user\<close>, which has a Service of an older name and one with the wrong headlessness.\<close>

definition sample_service_api :: service_api where
  "sample_service_api = \<lparr>sa_GetNamespace = (\<lambda>n. Inr \<lparr>ns_Name = n, ns_Labels = [(''modelmesh-enabled'', ''true'')], ns_Terminating = n = ''gone''\<rparr>),
     sa_GetNamespaceAgain = (\<lambda>n. Inr \<lparr>ns_Name = n, ns_Labels = [(''modelmesh-enabled'', ''true'')], ns_Terminating = n = ''gone''\<rparr>),
     sa_ListNamespaces = Inr [], sa_GetDeployment = (\<lambda>_. Inl NotFound), sa_ListServices = (\<lambda>_. Inr []),
     sa_Create = (\<lambda>_. None), sa_Update = (\<lambda>_. None), sa_Delete = (\<lambda>_. None), sa_SetControllerReference = (\<lambda>ow _ _. Inr [om_Name ow]),
     sa_GetMonitor = (\<lambda>_. Inl NotFound), sa_CreateMonitor = (\<lambda>_. None), sa_UpdateMonitor = (\<lambda>_. None), sa_DeleteMonitor = (\<lambda>_. None),
     sa_GetSecret = (\<lambda>_. Inl NotFound), sa_X509KeyPair = (\<lambda>_ _. None), sa_AppendCertsFromPEM = (\<lambda>_. True),
     sa_Dial = (\<lambda>_ _. Inr 7), sa_Close = (\<lambda>_. True), sa_etcd = sample_etcd\<rparr>"

definition sample_service_reconciler :: ServiceReconciler where
  "sample_service_reconciler = \<lparr>svr_ConfigMapName = \<lparr>nn_Namespace = ''ctl'', nn_Name = ''model-serving-config''\<rparr>,
     svr_ControllerDeployment = \<lparr>nn_Namespace = ''ctl'', nn_Name = ''modelmesh-controller''\<rparr>, svr_ClusterScope = True,
     svr_MMServices = [], svr_ModelEventStream = NewModelEventStream ''ctl'', svr_ServiceMonitorCRDExists = True\<rparr>"

definition sample_mms :: MMService where
  "sample_mms = snd (UpdateConfig (mesh_config 8033) (NewMMService ''user''))"

definition named_service :: "string \<Rightarrow> kube_service" where
  "named_service n = \<lparr>ks_Meta = zero_Meta\<lparr>om_Name := n, om_Namespace := ''user''\<rparr>, ks_Owners = [],
     ks_Spec = \<lparr>svs_Selector = [], svs_Ports = [], svs_ClusterIP = ''None''\<rparr>\<rparr>"

theorem reconcileService_converges_witness:
  "\<exists>mms1 st1 mms2 st2 store2.
     service_round sample_service_api (\<lambda>_. ''10.0.0.9'') sample_service_reconciler sample_mms ''user'' zero_Meta [named_service ''old'', named_service ''mesh''] =
       Some (True, mms1, st1, []) \<and>
     service_round sample_service_api (\<lambda>_. ''10.0.0.9'') (sample_service_reconciler\<lparr>svr_ModelEventStream := st1\<rparr>) mms1 ''user'' zero_Meta [] =
       Some (False, mms2, st2, store2) \<and> converged sample_mms ''user'' store2"
proof -
  let ?store = "[named_service ''old'', named_service ''mesh'']"
  have r: "map_option (\<lambda>x. (fst x, snd (snd (snd x)))) (service_round sample_service_api (\<lambda>_. ''10.0.0.9'') sample_service_reconciler sample_mms ''user'' zero_Meta ?store) =
      Some (True, [])" by code_simp
  have "sa_GetNamespaceAgain sample_service_api ''user'' = Inr \<lparr>ns_Name = ''user'', ns_Labels = [(''modelmesh-enabled'', ''true'')], ns_Terminating = False\<rparr>"
    by (simp add: sample_service_api_def)
  then have "still_enabled sample_service_api sample_service_reconciler ''user''" by (simp add: still_enabled_def modelMeshEnabled_def)
  moreover have "writes_accepted sample_service_api" by (simp add: writes_accepted_def sample_service_api_def)
  moreover have "mms_serviceSpec sample_mms = Some (service_spec sample_mms)" "mms_name sample_mms \<noteq> []" by code_simp+
  moreover have "distinct (map service_key ?store)" "\<forall>x \<in> set ?store. om_Namespace (ks_Meta x) = ''user''"
    by (simp_all add: named_service_def service_key_def)
  ultimately have "\<exists>requeue mms1 st1 store1. service_round sample_service_api (\<lambda>_. ''10.0.0.9'') sample_service_reconciler sample_mms ''user'' zero_Meta ?store =
       Some (requeue, mms1, st1, store1) \<and> (requeue \<longrightarrow> (\<exists>mms2 st2 store2.
     service_round sample_service_api (\<lambda>_. ''10.0.0.9'') (sample_service_reconciler\<lparr>svr_ModelEventStream := st1\<rparr>) mms1 ''user'' zero_Meta store1 =
       Some (False, mms2, st2, store2) \<and> converged sample_mms ''user'' store2))"
    using reconcileService_converges[of sample_service_api sample_service_reconciler "''user''" "\<lambda>_. ''10.0.0.9''" sample_mms ?store zero_Meta] by blast
  then show ?thesis using r by auto
qed


text \<open>
  When the service is renamed by a new configuration and the namespace is disabled before the next run, the watch under the old name stays.
\<close>

lemma renamed_then_disabled_keeps_watch:
  "(case Service_Reconcile sample_service_api (Some ''etcd'') (mesh_config 8033) \<lparr>nn_Namespace = [], nn_Name = ''user''\<rparr> sample_service_reconciler of
      None \<Rightarrow> False
    | Some (_, _, r) \<Rightarrow>
        (case config_requests_for ((mesh_config 8033)\<lparr>cfg_InferenceServiceName := ''other''\<rparr>)
            [\<lparr>ns_Name = ''user'', ns_Labels = [(''modelmesh-enabled'', ''true'')], ns_Terminating = False\<rparr>] r of
           (reqs, r1) \<Rightarrow>
             (case Service_Reconcile (sample_service_api\<lparr>sa_GetNamespace := (\<lambda>_. Inr zero_Namespace), sa_GetNamespaceAgain := (\<lambda>_. Inr zero_Namespace)\<rparr>)
                 (Some ''etcd'') ((mesh_config 8033)\<lparr>cfg_InferenceServiceName := ''other''\<rparr>) (hd reqs) r1 of
                None \<Rightarrow> False
              | Some (res, _, r2) \<Rightarrow> res = (None, Done) \<and> gomap_get (svr_MMServices r2) ''user'' = None \<and>
                  watched_name (svr_ModelEventStream r2) ''user'' = ''mesh'')))"
  by code_simp

end
