(* ===== verification/Startup.thy ===== *)
theory Startup
  imports Service_Controller
begin

text \<open>
  The start of the process (main.go): how the controller finds its namespace, Deployment and scope, which resources it watches, how
  predictor source plugins are registered, and the settings that the three controllers and the manager are created with. An exit of the
  process is a value. The environment, the namespace file, the flags, the answers of the API server and whether the libraries create what they
  are asked for are arguments; logging is left out.
\<close>

section \<open>Environment\<close>

text \<open>What a probing \<open>Get\<close> can find: \<open>NoMatch\<close> says that the kind is unknown to the API server.\<close>

datatype probe = ProbeFound | ProbeNotFound | ProbeNoMatch | ProbeError

record process_env =
  pe_LookupEnv :: "string \<Rightarrow> string option"
  pe_NamespaceFile :: "string + string"
  pe_NamespaceProbe :: probe
  pe_ServiceMonitorProbe :: probe
  pe_IsvcProbe :: probe
  pe_CSRProbe :: probe
  pe_SecretProbe :: probe
  pe_Created :: "string \<Rightarrow> bool"

datatype exit_reason =
    NoClusterPermissions
  | LeaderElectionFailed
  | BadLeaderElectType string
  | ConfigFailed config_error
  | CreationFailed string
  | ResourceUnavailable string
  | BadSourceId string
  | DuplicateSourceId string
  | SourceFailed string

definition Getenv :: "process_env \<Rightarrow> string \<Rightarrow> string" where
  "Getenv e v = (case pe_LookupEnv e v of None \<Rightarrow> [] | Some x \<Rightarrow> x)"

definition DefaultControllerNamespace :: string where
  "DefaultControllerNamespace = ''model-serving''"

definition DefaultControllerName :: string where
  "DefaultControllerName = ''modelmesh-controller''"

definition UserConfigMapName :: string where
  "UserConfigMapName = ''model-serving-config''"

definition LeaderLockName :: string where
  "LeaderLockName = ''modelmesh-controller-leader-lock''"

definition controllerNamespace :: "process_env \<Rightarrow> string" where
  "controllerNamespace e =
     (let n = Getenv e ''NAMESPACE''
      in if n = [] then (case pe_NamespaceFile e of Inl _ \<Rightarrow> DefaultControllerNamespace | Inr bytes \<Rightarrow> bytes) else n)"

text \<open>
  The first submatch of the expression \<open>(.*)-.*-.*\<close>, which is greedy: on the first line with two dashes, what stands before the
  last but one.
\<close>

definition before_last_two :: "string \<Rightarrow> string option" where
  "before_last_two line =
     (let i = LastIndex line ''-''
      in if i < 0 then None
         else (let j = LastIndex (take (nat i) line) ''-'' in if j < 0 then None else Some (take (nat j) line)))"

fun first_match :: "string list \<Rightarrow> string option" where
  "first_match [] = None"
| "first_match (l # ls) = (case before_last_two l of None \<Rightarrow> first_match ls | Some d \<Rightarrow> Some d)"

definition deployment_of_pod :: "string \<Rightarrow> string option" where
  "deployment_of_pod podName = first_match (split_on (CHR 0x0A) podName)"

definition controllerDeploymentName :: "process_env \<Rightarrow> string" where
  "controllerDeploymentName e =
     (let n = Getenv e ''CONTROLLER_DEPLOYMENT'';
          podName = Getenv e ''POD_NAME'';
          n' = (if n = [] \<and> podName \<noteq> [] then (case deployment_of_pod podName of None \<Rightarrow> n | Some d \<Rightarrow> d) else n)
      in if n' = [] then DefaultControllerName else n')"

section \<open>Scope and leader election\<close>

definition accessible :: "probe \<Rightarrow> bool" where
  "accessible p = (p = ProbeFound \<or> p = ProbeNotFound)"

text \<open>The mode, unless the permissions do not suffice for it.\<close>

definition clusterScopeMode :: "process_env \<Rightarrow> exit_reason + bool" where
  "clusterScopeMode e =
     (let cluster = (Getenv e ''NAMESPACE_SCOPE'' \<noteq> ''true'')
      in if cluster \<and> \<not> accessible (pe_NamespaceProbe e) then Inl NoClusterPermissions else Inr cluster)"

record process_flags =
  fl_metricsAddr :: string
  fl_probeAddr :: string
  fl_enableLeaderElection :: bool
  fl_leaderElectionType :: string
  fl_leaseDuration :: duration
  fl_leaseRenewDeadline :: duration
  fl_leaseRetryPeriod :: duration

definition default_flags :: process_flags where
  "default_flags = \<lparr>fl_metricsAddr = '':8080'', fl_probeAddr = '':8081'', fl_enableLeaderElection = False, fl_leaderElectionType = ''lease'',
     fl_leaseDuration = 15 * Second, fl_leaseRenewDeadline = 10 * Second, fl_leaseRetryPeriod = 2 * Second\<rparr>"

record lease_options =
  lo_Namespace :: string
  lo_ID :: string
  lo_LeaseDuration :: duration
  lo_RenewDeadline :: duration
  lo_RetryPeriod :: duration

record manager_options =
  mo_MetricsBindAddress :: string
  mo_WebhookPort :: int
  mo_HealthProbeBindAddress :: string
  mo_DefaultNamespaces :: "string list"
  mo_LeaderElection :: "lease_options option"

text \<open>\<open>become\<close> is the outcome of \<open>leader.Become\<close>, which is called for the leader-for-life method only. No namespaces mean all.\<close>

definition mgrOpts :: "process_flags \<Rightarrow> bool \<Rightarrow> string \<Rightarrow> bool \<Rightarrow> exit_reason + manager_options" where
  "mgrOpts fl become namespace cluster =
     (let opts = \<lparr>mo_MetricsBindAddress = fl_metricsAddr fl, mo_WebhookPort = 9443, mo_HealthProbeBindAddress = fl_probeAddr fl,
            mo_DefaultNamespaces = (if cluster then [] else [namespace]), mo_LeaderElection = None\<rparr>
      in if \<not> fl_enableLeaderElection fl then Inr opts
         else if fl_leaderElectionType fl = ''lease'' then
           Inr (opts\<lparr>mo_LeaderElection := Some \<lparr>lo_Namespace = namespace, lo_ID = LeaderLockName, lo_LeaseDuration = fl_leaseDuration fl,
             lo_RenewDeadline = fl_leaseRenewDeadline fl, lo_RetryPeriod = fl_leaseRetryPeriod fl\<rparr>\<rparr>)
         else if fl_leaderElectionType fl = ''life'' then (if become then Inr opts else Inl LeaderElectionFailed)
         else Inl (BadLeaderElectType (fl_leaderElectionType fl)))"

section \<open>Watched resources\<close>

text \<open>The decision is the same for the three kinds of resources; the variable may be unset, which counts as empty.\<close>

definition watch_decision :: "string \<Rightarrow> string \<Rightarrow> probe \<Rightarrow> exit_reason + bool" where
  "watch_decision val resourceName p =
     (if val \<noteq> ''false'' then
        (if accessible p then Inr True
         else if val = ''true'' then Inl (ResourceUnavailable resourceName)
         else Inr False)
      else Inr False)"

type_synonym registry_map = "(string, PredictorRegistry) gomap"

definition checkEnvVar :: "process_env \<Rightarrow> PredictorRegistry \<Rightarrow> registry_map \<Rightarrow> exit_reason + bool \<times> registry_map" where
  "checkEnvVar e registry m =
     (case watch_decision (Getenv e ''ENABLE_ISVC_WATCH'') ''InferenceService'' (pe_IsvcProbe e) of
        Inl x \<Rightarrow> Inl x
      | Inr b \<Rightarrow> Inr (b, if b then gomap_set InferenceServiceCRSourceId registry m else m))"

definition checkCSRVar :: "process_env \<Rightarrow> exit_reason + bool" where
  "checkCSRVar e = watch_decision (Getenv e ''ENABLE_CSR_WATCH'') ''ClusterServingRuntime'' (pe_CSRProbe e)"

definition checkSecretVar :: "process_env \<Rightarrow> exit_reason + bool" where
  "checkSecretVar e = watch_decision (Getenv e ''ENABLE_SECRET_WATCH'') ''Secret'' (pe_SecretProbe e)"

definition serviceMonitorCRDExists :: "process_env \<Rightarrow> bool" where
  "serviceMonitorCRDExists e = accessible (pe_ServiceMonitorProbe e)"

section \<open>Plugins\<close>

text \<open>A source of Predictors: its id, and the registry that starting its watch gives, or the error.\<close>

record source_plugin =
  sp_SourceId :: string
  sp_StartWatch :: "string + PredictorRegistry"

fun register_sources :: "source_plugin list \<Rightarrow> registry_map \<Rightarrow> exit_reason + registry_map" where
  "register_sources [] m = Inr m"
| "register_sources (s # ss) m =
     (let sid = sp_SourceId s
      in if sid = [] \<or> sid = PredictorCRSourceId \<or> sid = InferenceServiceCRSourceId then Inl (BadSourceId sid)
         else if gomap_get m sid \<noteq> None then Inl (DuplicateSourceId sid)
         else (case sp_StartWatch s of
                 Inl err \<Rightarrow> Inl (SourceFailed err)
               | Inr r \<Rightarrow> register_sources ss (gomap_set sid r m)))"

text \<open>The event a dispatcher sends to both controllers for an event of its source.\<close>

definition dispatched :: "string \<Rightarrow> NamespacedName \<Rightarrow> NamespacedName" where
  "dispatched sid pe = \<lparr>nn_Namespace = sid @ ''_'' @ nn_Namespace pe, nn_Name = nn_Name pe\<rparr>"

section \<open>The controllers\<close>

record started =
  st_manager :: manager_options
  st_config :: ConfigProvider
  st_service :: ServiceReconciler
  st_runtime :: ServingRuntimeReconciler
  st_registries :: registry_map
  st_isvcWatch :: bool
  st_storageSecretName :: string

definition service_controller :: "process_env \<Rightarrow> bool \<Rightarrow> ServiceReconciler" where
  "service_controller e cluster =
     (let namespace = controllerNamespace e
      in \<lparr>svr_ConfigMapName = \<lparr>nn_Namespace = namespace, nn_Name = UserConfigMapName\<rparr>,
          svr_ControllerDeployment = \<lparr>nn_Namespace = namespace, nn_Name = controllerDeploymentName e\<rparr>,
          svr_ClusterScope = cluster, svr_MMServices = [], svr_ModelEventStream = NewModelEventStream namespace,
          svr_ServiceMonitorCRDExists = serviceMonitorCRDExists e\<rparr>)"

definition runtime_controller :: "process_env \<Rightarrow> bool \<Rightarrow> bool \<Rightarrow> bool \<Rightarrow> registry_map \<Rightarrow> ServingRuntimeReconciler" where
  "runtime_controller e cluster csr secret m =
     \<lparr>srr_ControllerNamespace = controllerNamespace e, srr_ClusterScope = cluster, srr_EnableCSRWatch = csr, srr_EnableSecretWatch = secret,
      srr_RegistryMap = m\<rparr>"

text \<open>The registries and the watches, from the registry of Predictor resources on.\<close>

definition setup_registries ::
  "process_env \<Rightarrow> PredictorRegistry \<Rightarrow> PredictorRegistry \<Rightarrow> source_plugin list \<Rightarrow> exit_reason + (bool \<times> bool \<times> bool \<times> registry_map)" where
  "setup_registries e predictors isvcs sources =
     (case checkEnvVar e isvcs [(PredictorCRSourceId, predictors)] of
        Inl x \<Rightarrow> Inl x
      | Inr (isvc, m) \<Rightarrow>
          (case checkCSRVar e of
             Inl x \<Rightarrow> Inl x
           | Inr csr \<Rightarrow>
               (case checkSecretVar e of
                  Inl x \<Rightarrow> Inl x
                | Inr secret \<Rightarrow>
                    (case register_sources sources m of
                       Inl x \<Rightarrow> Inl x
                     | Inr m' \<Rightarrow> Inr (isvc, csr, secret, m')))))"

text \<open>The provider of the configuration; the process does not start when its first load fails.\<close>

definition loaded_provider :: "('v, 'z) viper_scheme \<Rightarrow> quantity_parser \<Rightarrow> api_error + UserConfigMap \<Rightarrow> config_error + ConfigProvider" where
  "loaded_provider vp parseQuantity got =
     (case NewConfigProvider vp parseQuantity got of
        Inl err \<Rightarrow> Inl err
      | Inr (Some err, _) \<Rightarrow> Inl err
      | Inr (None, cp) \<Rightarrow> Inr cp)"

text \<open>Creating something with the libraries, and going on if this succeeds.\<close>

definition create :: "process_env \<Rightarrow> string \<Rightarrow> exit_reason + 'a \<Rightarrow> exit_reason + 'a" where
  "create e what k = (if pe_Created e what then k else Inl (CreationFailed what))"

text \<open>From the manager on.\<close>

definition start_controllers ::
  "process_env \<Rightarrow> ConfigProvider \<Rightarrow> bool \<Rightarrow> manager_options \<Rightarrow> PredictorRegistry \<Rightarrow> PredictorRegistry \<Rightarrow> source_plugin list \<Rightarrow> exit_reason + started" where
  "start_controllers e cp cluster opts predictors isvcs sources =
     create e ''manager'' (create e ''resolver'' (create e ''event stream'' (create e ''Service''
       (case setup_registries e predictors isvcs sources of
          Inl x \<Rightarrow> Inl x
        | Inr (isvc, csr, secret, m) \<Rightarrow>
            create e ''Predictor'' (create e ''ServingRuntime'' (create e ''healthz'' (create e ''readyz''
              (Inr \<lparr>st_manager = opts, st_config = cp, st_service = service_controller e cluster,
                    st_runtime = runtime_controller e cluster csr secret m, st_registries = m, st_isvcWatch = isvc,
                    st_storageSecretName = cfg_StorageSecretName (cp_config cp)\<rparr>))))))))"

text \<open>The whole start, up to running the manager; \<open>main\<close> has no plugins yet, so that its list of sources is empty.\<close>

definition start_process ::
  "process_env \<Rightarrow> process_flags \<Rightarrow> bool \<Rightarrow> config_error + ConfigProvider \<Rightarrow> PredictorRegistry \<Rightarrow> PredictorRegistry \<Rightarrow> source_plugin list \<Rightarrow>
     exit_reason + started" where
  "start_process e fl become provider predictors isvcs sources =
     create e ''client''
       (case provider of
          Inl err \<Rightarrow> Inl (ConfigFailed err)
        | Inr cp \<Rightarrow>
            (case clusterScopeMode e of
               Inl x \<Rightarrow> Inl x
             | Inr cluster \<Rightarrow>
                 (case mgrOpts fl become (controllerNamespace e) cluster of
                    Inl x \<Rightarrow> Inl x
                  | Inr opts \<Rightarrow> start_controllers e cp cluster opts predictors isvcs sources)))"

section \<open>Names\<close>

text \<open>The pods of a Deployment are called after it, their ReplicaSet's hash and their own suffix.\<close>

lemma deployment_of_pod_name:
  assumes "CHR ''-'' \<notin> set hash" "CHR ''-'' \<notin> set sfx" "CHR 0x0A \<notin> set (d @ hash @ sfx)"
  shows "deployment_of_pod (d @ ''-'' @ hash @ ''-'' @ sfx) = Some d"
proof -
  have "split_on (CHR 0x0A) (d @ ''-'' @ hash @ ''-'' @ sfx) = [d @ ''-'' @ hash @ ''-'' @ sfx]"
    using assms(3) by (intro split_on_no_sep) auto
  moreover have "last_index ((d @ ''-'' @ hash) @ ''-'' @ sfx) ''-'' = Some (length (d @ ''-'' @ hash))" "last_index (d @ ''-'' @ hash) ''-'' = Some (length d)"
    using last_index_char[OF assms(2), of "d @ ''-'' @ hash"] last_index_char[OF assms(1), of d] by simp_all
  moreover have "before_last_two ((d @ ''-'' @ hash) @ ''-'' @ sfx) = Some d"
    unfolding before_last_two_def LastIndex_def calculation(2) Let_def option.case nat_int
    by (simp only: append_eq_conv_conj[THEN iffD1, OF refl, THEN conjunct1, symmetric] calculation(3)) (simp add: calculation(3))
  ultimately show ?thesis by (simp add: deployment_of_pod_def)
qed

lemma register_sources_effect:
  assumes "register_sources ss m = Inr m'"
  shows "distinct (map sp_SourceId ss) \<and> (\<forall>k. k \<notin> sp_SourceId ` set ss \<longrightarrow> gomap_get m' k = gomap_get m k) \<and>
    (\<forall>p \<in> set ss. sp_SourceId p \<notin> {[], PredictorCRSourceId, InferenceServiceCRSourceId} \<and> gomap_get m (sp_SourceId p) = None \<and>
       (\<exists>r. sp_StartWatch p = Inr r \<and> gomap_get m' (sp_SourceId p) = Some r))"
  using assms
proof (induction ss arbitrary: m)
  case (Cons s ss)
  then obtain r where s: "sp_SourceId s \<notin> {[], PredictorCRSourceId, InferenceServiceCRSourceId}" "gomap_get m (sp_SourceId s) = None" "sp_StartWatch s = Inr r"
    and rest: "register_sources ss (gomap_set (sp_SourceId s) r m) = Inr m'" by (auto simp: Let_def split: if_splits sum.splits)
  have new: "sp_SourceId p \<noteq> sp_SourceId s" if "p \<in> set ss" for p
    using Cons.IH[OF rest] that by (auto simp: update_conv split: if_splits)
  then have fresh: "sp_SourceId s \<notin> sp_SourceId ` set ss" by fastforce
  then have "gomap_get m' (sp_SourceId s) = Some r" using Cons.IH[OF rest] by simp
  then show ?case using Cons.IH[OF rest] s fresh by (auto simp: update_conv split: if_splits)
qed simp

lemma start_process_cases:
  assumes "start_process e fl become provider predictors isvcs sources = Inr s"
  obtains cp cluster opts isvc csr secret m where "provider = Inr cp" "clusterScopeMode e = Inr cluster"
    "mgrOpts fl become (controllerNamespace e) cluster = Inr opts" "setup_registries e predictors isvcs sources = Inr (isvc, csr, secret, m)"
    "s = \<lparr>st_manager = opts, st_config = cp, st_service = service_controller e cluster,
       st_runtime = runtime_controller e cluster csr secret m, st_registries = m, st_isvcWatch = isvc,
       st_storageSecretName = cfg_StorageSecretName (cp_config cp)\<rparr>"
  using assms by (auto simp: start_process_def start_controllers_def create_def split: if_splits sum.splits prod.splits)

text \<open>The configuration the process starts with is one that a provider serves.\<close>

lemma started_provider_reach:
  assumes "start_process e fl become (loaded_provider vp pq got) predictors isvcs sources = Inr s"
  shows "provider_reach vp pq (st_config s)"
proof -
  obtain cp where "loaded_provider vp pq got = Inr cp" "st_config s = cp" using assms by (rule start_process_cases) simp
  then show ?thesis by (auto simp: loaded_provider_def split: sum.splits option.splits intro: provider_reach.created)
qed

text \<open>
  C40. The events of plugins reach their registries. When the process starts with some predictor source plugins, their ids are distinct; an
  event a dispatcher forwards is resolved by the controllers to the name and namespace the plugin gave and to the plugin's own
  registry, also when its id has underscores. A request with a plain namespace still leads to the registry of Predictor resources, and one
  for an InferenceService to that of InferenceServices when these are watched.
\<close>

theorem plugin_events_resolve:
  assumes "start_process e fl become provider predictors isvcs sources = Inr s" "CHR ''_'' \<notin> set (nn_Namespace name)"
  shows "distinct (map sp_SourceId sources) \<and>
    (\<forall>p \<in> set sources. ResolveSource (dispatched (sp_SourceId p) name) PredictorCRSourceId = (name, sp_SourceId p) \<and>
       Inr (the (gomap_get (srr_RegistryMap (st_runtime s)) (sp_SourceId p))) = sp_StartWatch p) \<and>
    ResolveSource name PredictorCRSourceId = (name, PredictorCRSourceId) \<and>
    gomap_get (srr_RegistryMap (st_runtime s)) PredictorCRSourceId = Some predictors \<and>
    ResolveSource (dispatched InferenceServiceCRSourceId name) PredictorCRSourceId = (name, InferenceServiceCRSourceId) \<and>
    gomap_get (srr_RegistryMap (st_runtime s)) InferenceServiceCRSourceId = (if st_isvcWatch s then Some isvcs else None)"
proof -
  have neq: "PredictorCRSourceId \<noteq> InferenceServiceCRSourceId" "InferenceServiceCRSourceId \<noteq> []"
    by (simp_all add: PredictorCRSourceId_def InferenceServiceCRSourceId_def)
  from assms(1) obtain isvc csr secret m where r: "setup_registries e predictors isvcs sources = Inr (isvc, csr, secret, m)"
    and s: "srr_RegistryMap (st_runtime s) = m" "st_isvcWatch s = isvc" by (rule start_process_cases) (simp add: runtime_controller_def)
  from r obtain m0 where m0: "m0 = (if isvc then gomap_set InferenceServiceCRSourceId isvcs [(PredictorCRSourceId, predictors)] else [(PredictorCRSourceId, predictors)])"
    "register_sources sources m0 = Inr m"
    by (auto simp: setup_registries_def checkEnvVar_def split: sum.splits prod.splits if_splits)
  note eff = register_sources_effect[OF m0(2)]
  have "PredictorCRSourceId \<notin> sp_SourceId ` set sources" "InferenceServiceCRSourceId \<notin> sp_SourceId ` set sources" using eff by auto
  then have "gomap_get m PredictorCRSourceId = Some predictors" "gomap_get m InferenceServiceCRSourceId = (if isvc then Some isvcs else None)"
    using eff neq by (simp_all add: m0(1))
  moreover have "ResolveSource (dispatched src name) PredictorCRSourceId = (name, src)" if "src \<noteq> []" for src
    using ResolveSource_prefix[OF assms(2) that, of "nn_Name name"] by (simp add: dispatched_def)
  moreover have "ResolveSource name PredictorCRSourceId = (name, PredictorCRSourceId)" by (rule ResolveSource_plain[OF assms(2)])
  moreover have "sp_SourceId p \<noteq> [] \<and> Inr (the (gomap_get m (sp_SourceId p))) = sp_StartWatch p" if "p \<in> set sources" for p
    using eff that by (metis insertI1 option.sel)
  ultimately show ?thesis using eff neq(2) unfolding s by blast
qed


section \<open>Witnesses of the start\<close>

definition sample_process :: process_env where
  "sample_process = \<lparr>pe_LookupEnv = (\<lambda>v. if v = ''POD_NAME'' then Some ''modelmesh-controller-5d9f-x2x'' else None),
     pe_NamespaceFile = Inr ''mesh'', pe_NamespaceProbe = ProbeNotFound, pe_ServiceMonitorProbe = ProbeNoMatch,
     pe_IsvcProbe = ProbeNotFound, pe_CSRProbe = ProbeNoMatch, pe_SecretProbe = ProbeFound, pe_Created = (\<lambda>_. True)\<rparr>"

definition empty_registry :: PredictorRegistry where
  "empty_registry = \<lparr>rg_Get = (\<lambda>_. Inl NotFound), rg_Items = (\<lambda>_. Inr []), rg_UpdateStatus = (\<lambda>_. Inr True)\<rparr>"

definition sample_start :: "exit_reason + started" where
  "sample_start = start_process sample_process default_flags True (Inr sample_provider) empty_registry empty_registry
     [\<lparr>sp_SourceId = ''my_src'', sp_StartWatch = Inr empty_registry\<rparr>]"

lemma sample_started: "\<exists>s. sample_start = Inr s"
  by (simp add: sample_start_def start_process_def start_controllers_def create_def clusterScopeMode_def mgrOpts_def setup_registries_def checkEnvVar_def checkCSRVar_def checkSecretVar_def
        watch_decision_def accessible_def default_flags_def Getenv_def sample_process_def PredictorCRSourceId_def InferenceServiceCRSourceId_def Let_def)

theorem plugin_events_resolve_witness:
  "\<exists>s. sample_start = Inr s \<and>
     ResolveSource (dispatched ''my_src'' \<lparr>nn_Namespace = ''ns'', nn_Name = ''m''\<rparr>) PredictorCRSourceId = (\<lparr>nn_Namespace = ''ns'', nn_Name = ''m''\<rparr>, ''my_src'') \<and>
     gomap_get (srr_RegistryMap (st_runtime s)) PredictorCRSourceId = Some empty_registry"
proof -
  obtain s where s: "sample_start = Inr s" using sample_started by blast
  from plugin_events_resolve[OF s[unfolded sample_start_def], of "\<lparr>nn_Namespace = ''ns'', nn_Name = ''m''\<rparr>"] show ?thesis
    using s by (intro exI[of _ s]) simp
qed


end
