(* ===== verification/Spec2Isabelle.thy ===== *)
theory Spec2Isabelle
  imports Watch_Source Predictor_Controller InferenceService_Registry Runtime_Validator Autoscaling Deployment_Props
    Runtime_Controller Startup
begin

text \<open>
  A verification development of ModelMesh Serving (src/), the Kubernetes controller that manages model-mesh.

  \<^bold>\<open>The program.\<close> Users describe models as Predictors (or as InferenceServices of kserve) and model servers as
  ServingRuntimes. The controller has three reconcilers. The runtime controller builds for every runtime of an enabled namespace a
  Deployment of model-mesh pods and decides on its replicas. The Service controller keeps one Service per namespace, a gRPC client to the
  model-mesh behind it, and watches on the model-mesh registries in etcd. The Predictor controller registers each Predictor with
  model-mesh and writes what model-mesh says back to its status; events from etcd lead it to the Predictors concerned. Predictors may
  also come from plugins, whose caches are fed by a watch or an event stream. A webhook checks the autoscaling annotations.

  \<^bold>\<open>Conventions.\<close> A Go struct is a record with the source's fields, an embedded struct a record extension, an enum a
  datatype. A Go map is an association list with distinct keys, whose order stands for an order of iteration. Machine integers whose width
  matters are words or are cut with the bounds of their type. A failing function returns a sum, and a Go panic is \<open>None\<close>. The clock, the API server, etcd, gRPC and the
  libraries kserve, viper and controller-runtime are arguments: records of functions from requests to answers; the calls that change
  something outside are returned in order. What is assumed of them is a hypothesis of the theorem. The parts of Go's standard
  library that matter are modelled: strings, strconv, container/heap, encoding/json on the marshalled values, hashing names,
  net/url, slices with their capacity.

  \<^bold>\<open>The theories.\<close>

  \<^item> \<open>Prelude\<close>, \<open>Go_Encoding\<close>, \<open>Go_Heap\<close>, \<open>Go_Slices\<close>, \<open>Go_Url\<close>: Go and its library. \<open>Go_Heap\<close> has the locale \<open>heap_order\<close>, which
    the deletion queue of the cache interprets.
  \<^item> \<open>Api_Types\<close>, \<open>Runtime_Types\<close>: the resources (apis/serving/v1alpha1/predictor\_types.go) and the Kubernetes and kserve types.
  \<^item> \<open>Cached_Source\<close>: the cache of a plugin (pkg/predictor\_source/cached\_predictor\_source.go, heap.go). The state is the record
    \<open>cachedPredictorSource\<close> with a store of objects, the cache, the deletion queue and the lock; \<open>cs_step\<close> and \<open>cs_run\<close> interleave
    the event loop with status updates. Its invariant holds always, versions in the cache never go back, the loop never waits with the lock.
  \<^item> \<open>Watch_Source\<close>: the sources built on it (watchrefresh\_predictor\_source.go, stream\_predictor\_source.go): filling the
    cache at the start, and \<open>refreshCache\<close>, after which cache and list agree.
  \<^item> \<open>Source_Names\<close>: names of concrete models and the prefixes that tell sources apart (predictor\_source.go,
    predictor\_controller.go, modelmesh\_events.go): an event of model-mesh leads back to its Predictor.
  \<^item> \<open>Registry\<close>, \<open>InferenceService_Registry\<close>: the interface \<open>PredictorRegistry\<close> as the locale \<open>predictor_registry\<close>, interpreted on
    Predictor resources, on the caches and on InferenceServices (inferenceservice\_registry.go); the status round trip of the latter.
  \<^item> \<open>Predictor_Controller\<close>: controllers/predictor\_controller.go. \<open>ReconcilePredictor\<close> with all it calls: its outcome on every branch,
    the exact condition of its panic, the effect of status updates.
  \<^item> \<open>Type_Labels\<close>, \<open>Endpoints\<close>, \<open>Mesh_Deployment\<close>, \<open>Deployment_Props\<close>: controllers/modelmesh, the Deployment as the rendered template with every transformation
    of \<open>Apply\<close> in its order: its containers, and that mounts name volumes. \<open>Go_Slices\<close> is what makes the loss of a mount visible.
  \<^item> \<open>Runtime_Validator\<close>: controllers/servingruntime\_validator.go, equivalent to a declarative condition.
  \<^item> \<open>Autoscaling\<close>: the webhook, the HPA reconciler and the autoscaler: bounds of an admitted HPA, and convergence.
  \<^item> \<open>Cluster_Config\<close>: the type constraints and the etcd secret of a namespace (cluster\_config.go, etcd\_secret.go).
  \<^item> \<open>Config\<close>: pkg/config/config.go. Every configuration served is valid, and a failed reload keeps the old one.
  \<^item> \<open>Runtime_Scaling\<close>, \<open>Runtime_Controller\<close>: controllers/servingruntime\_controller.go, util.go, const.go: which Predictors a runtime
    supports (in agreement with the type constraints), scale to zero with its grace period along histories (\<open>scaling_trace\<close>),
    the mounted claims, and the whole \<open>Reconcile\<close>.
  \<^item> \<open>Range_Watcher\<close>: pkg/mmesh/etcdrangewatcher.go. A round syncs and then watches; the calls of the listener, replayed, are the content of the etcd range.
  \<^item> \<open>Event_Stream\<close>: pkg/mmesh/modelmesh\_events.go: which watchers run. A context is a number, and a watcher runs until its context is in the list of
    cancelled ones. The locale \<open>watch_stream\<close> is the contract the Service controller uses.
  \<^item> \<open>Mesh_Service\<close>: grpc\_resolver.go and modelmesh\_service.go: the endpoint that is dialled resolves to the ready pods, and the
    client is the one the settings ask for (\<open>mms_reach\<close>).
  \<^item> \<open>Service_Controller\<close>: controllers/service\_controller.go, on top of the two: the Service converges, and the watches follow the namespaces.
  \<^item> \<open>Startup\<close>: main.go: scope, options, watched resources, plugins and the settings of the controllers.

  \<^bold>\<open>How they fit.\<close> \<open>Startup\<close> gives the initial states; its theorem says that the controllers agree on the namespaces they serve, and that the
  event stream starts in the state \<open>stream_ready\<close> from which \<open>Service_Controller\<close> keeps it right. The Service controller uses \<open>Mesh_Service\<close>
  and \<open>Event_Stream\<close>. The watchers of the latter are those of \<open>Range_Watcher\<close>, whose listener calls become requests by
  \<open>Source_Names\<close>; these reach \<open>Predictor_Controller\<close>, which reads Predictors through a registry. \<open>Runtime_Controller\<close> uses the registries, \<open>Config\<close>, \<open>Cluster_Config\<close>,
  \<open>Runtime_Validator\<close>, \<open>Mesh_Deployment\<close> and \<open>Autoscaling\<close>.

  \<^bold>\<open>Bounds.\<close> No definition has fuel: loops over lists are structural, the others have a termination proof (pruning by the length
  of the queue, the heap by its indices). Endless loops (event loops, watchers) are modelled round by round, and what is proved
  of them holds after any number of rounds. Where a theorem speaks of convergence, it counts the rounds: one or two.

  \<^bold>\<open>Limits shown.\<close> Some theorems state what the code does where this is not what it means to: a deletion without a timestamp stays visible, a
  change of availability is not stored, shared mounts are overwritten, a wide minimum scale is ignored, a failed change of the etcd secret
  loses all watches. Lemmas show that a failed TLS lookup keeps an old client, that Services are written in every run, and that a watch can outlive its namespace.

  \<^bold>\<open>Not modelled.\<close> Generated code (generated/mmesh, zz\_generated.deepcopy.go, fvt/generated). The functional tests (fvt), which
  drive a live cluster. controllers/config/manifest.go and templating.go, which only pass a template to libraries, and
  overlay.go, which only its test calls. Registering reconcilers, webhooks and health checks with the manager, goroutines as such (a started watcher is a
  record, an event loop its steps), logging, and the condition variable of \<open>AwaitReload\<close>, for which there is no caller.
\<close>

end
